(* ===== verification/Prelude.thy ===== *)
theory Prelude
  imports Main "HOL-Library.Sublist"
begin

text \<open>
  Shared vocabulary of the goboxd development.

  The server is written in Go and its playground in TypeScript; this theory models the part of
  the two standard libraries that both use: 64-bit integers with wrap-around, byte strings with
  the functions of the Go packages \<open>strings\<close> and \<open>strconv\<close>, and a generic transition system
  with the invariant rule that the concurrent components instantiate.
\<close>

named_theorems go_simps
named_theorems inv_simps

type_synonym 'a go_result = "string + 'a"

section \<open>Machine integers\<close>

text \<open>Go's \<open>int\<close> and \<open>int64\<close> on amd64: two's complement, 64 bits.\<close>

abbreviation max_int :: int where
  "max_int \<equiv> 9223372036854775807"

abbreviation min_int :: int where
  "min_int \<equiv> - 9223372036854775808"

definition wrap64 :: "int \<Rightarrow> int" where
  "wrap64 x = (x + 9223372036854775808) mod 18446744073709551616 - 9223372036854775808"

definition go_div :: "int \<Rightarrow> int \<Rightarrow> int" where
  "go_div a b = sgn a * sgn b * (\<bar>a\<bar> div \<bar>b\<bar>)"

definition go_rem :: "int \<Rightarrow> int \<Rightarrow> int" where
  "go_rem a b = a - b * go_div a b"

definition in_int64 :: "int \<Rightarrow> bool" where
  "in_int64 x \<longleftrightarrow> min_int \<le> x \<and> x \<le> max_int"

lemma wrap64_id [go_simps]: "in_int64 x \<Longrightarrow> wrap64 x = x"
  by (simp add: wrap64_def in_int64_def mod_pos_pos_trivial)

lemma wrap64_range: "in_int64 (wrap64 x)"
proof -
  have "0 \<le> (x + 9223372036854775808) mod 18446744073709551616"
    and "(x + 9223372036854775808) mod 18446744073709551616 < 18446744073709551616"
    by simp_all
  then show ?thesis unfolding wrap64_def in_int64_def by linarith
qed

lemma go_div_pos [go_simps]: "0 \<le> a \<Longrightarrow> 0 < b \<Longrightarrow> go_div a b = a div b"
  by (cases "a = 0") (simp_all add: go_div_def)

lemma go_rem_pos [go_simps]: "0 \<le> a \<Longrightarrow> 0 < b \<Longrightarrow> go_rem a b = a mod b"
  by (simp add: go_rem_def go_div_pos minus_mult_div_eq_mod)

section \<open>Strings\<close>

text \<open>
  A Go string is a sequence of bytes, here a list of 8-bit characters. White space is Go's
  \<open>unicode.IsSpace\<close>: each space rune is listed by its UTF-8 bytes. UTF-8 is self-synchronising,
  so recognising these byte sequences at the front or the back of a string is what decoding the
  first or last rune does.
\<close>

definition space_seqs :: "string list" where
  "space_seqs =
     [[CHR 0x09], [CHR 0x0A], [CHR 0x0B], [CHR 0x0C], [CHR 0x0D], [CHR 0x20],
      [CHR 0xC2, CHR 0x85], [CHR 0xC2, CHR 0xA0], [CHR 0xE1, CHR 0x9A, CHR 0x80],
      [CHR 0xE2, CHR 0x80, CHR 0x80], [CHR 0xE2, CHR 0x80, CHR 0x81], [CHR 0xE2, CHR 0x80, CHR 0x82],
      [CHR 0xE2, CHR 0x80, CHR 0x83], [CHR 0xE2, CHR 0x80, CHR 0x84], [CHR 0xE2, CHR 0x80, CHR 0x85],
      [CHR 0xE2, CHR 0x80, CHR 0x86], [CHR 0xE2, CHR 0x80, CHR 0x87], [CHR 0xE2, CHR 0x80, CHR 0x88],
      [CHR 0xE2, CHR 0x80, CHR 0x89], [CHR 0xE2, CHR 0x80, CHR 0x8A], [CHR 0xE2, CHR 0x80, CHR 0xA8],
      [CHR 0xE2, CHR 0x80, CHR 0xA9], [CHR 0xE2, CHR 0x80, CHR 0xAF], [CHR 0xE2, CHR 0x81, CHR 0x9F],
      [CHR 0xE3, CHR 0x80, CHR 0x80]]"

abbreviation dquote :: char where
  "dquote \<equiv> CHR 0x22"

abbreviation squote :: char where
  "squote \<equiv> CHR 0x27"

abbreviation newline :: string where
  "newline \<equiv> [CHR 0x0A]"

fun has_prefix :: "string \<Rightarrow> string \<Rightarrow> bool" where
  "has_prefix s [] = True"
| "has_prefix [] (_ # _) = False"
| "has_prefix (c # s) (p # ps) = (c = p \<and> has_prefix s ps)"

definition has_suffix :: "string \<Rightarrow> string \<Rightarrow> bool" where
  "has_suffix s p = has_prefix (rev s) (rev p)"

definition trim_prefix :: "string \<Rightarrow> string \<Rightarrow> string" where
  "trim_prefix s p = (if has_prefix s p then drop (length p) s else s)"

definition trim_suffix :: "string \<Rightarrow> string \<Rightarrow> string" where
  "trim_suffix s p = (if has_suffix s p then take (length s - length p) s else s)"

fun lead_seq :: "string list \<Rightarrow> string \<Rightarrow> nat" where
  "lead_seq [] s = 0"
| "lead_seq (w # ws) s = (if w \<noteq> [] \<and> has_prefix s w then length w else lead_seq ws s)"

function strip_front :: "string list \<Rightarrow> string \<Rightarrow> string" where
  "strip_front ws s =
     (if lead_seq ws s = 0 \<or> s = [] then s else strip_front ws (drop (lead_seq ws s) s))"
  by pat_completeness auto
termination
  by (relation "measure (\<lambda>(ws, s). length s)") auto

declare strip_front.simps [simp del]

text \<open>\<open>strings.TrimSpace\<close>: the leading and the trailing space runes are cut.\<close>

definition TrimSpace :: "string \<Rightarrow> string" where
  "TrimSpace s =
     rev (strip_front (map rev space_seqs) (rev (strip_front space_seqs s)))"

fun str_index :: "string \<Rightarrow> string \<Rightarrow> nat option" where
  "str_index [] p = (if p = [] then Some 0 else None)"
| "str_index (c # s) p =
     (if has_prefix (c # s) p then Some 0 else map_option Suc (str_index s p))"

definition str_contains :: "string \<Rightarrow> string \<Rightarrow> bool" where
  "str_contains s p = (str_index s p \<noteq> None)"

fun index_any :: "string \<Rightarrow> string \<Rightarrow> nat option" where
  "index_any [] cs = None"
| "index_any (c # s) cs = (if c \<in> set cs then Some 0 else map_option Suc (index_any s cs))"

definition contains_any :: "string \<Rightarrow> string \<Rightarrow> bool" where
  "contains_any s cs = (index_any s cs \<noteq> None)"

text \<open>\<open>strings.Split\<close> on a one-byte separator: always at least one part.\<close>

fun split_char :: "char \<Rightarrow> string \<Rightarrow> string list" where
  "split_char d [] = [[]]"
| "split_char d (c # s) =
     (if c = d then [] # split_char d s
      else (case split_char d s of [] \<Rightarrow> [[c]] | p # ps \<Rightarrow> (c # p) # ps))"

fun join_char :: "string \<Rightarrow> string list \<Rightarrow> string" where
  "join_char d [] = []"
| "join_char d [p] = p"
| "join_char d (p # q # ps) = p @ d @ join_char d (q # ps)"

text \<open>\<open>strings.ReplaceAll\<close> with a non-empty pattern.\<close>

function replace_all :: "string \<Rightarrow> string \<Rightarrow> string \<Rightarrow> string" where
  "replace_all s old new =
     (case s of [] \<Rightarrow> []
      | c # cs \<Rightarrow>
          if old \<noteq> [] \<and> has_prefix s old then new @ replace_all (drop (length old) s) old new
          else c # replace_all cs old new)"
  by pat_completeness auto
termination
  by (relation "measure (\<lambda>(s, old, new). length s)") auto

declare replace_all.simps [simp del]

text \<open>
  \<open>strings.FieldsFunc\<close>: the maximal runs of bytes between separators. The length of the
  separator at the front of the string is given by \<open>sep\<close>, zero when there is none.
\<close>

function fields_by :: "(string \<Rightarrow> nat) \<Rightarrow> string \<Rightarrow> string \<Rightarrow> string list" where
  "fields_by sep cur s =
     (case s of [] \<Rightarrow> (if cur = [] then [] else [rev cur])
      | c # cs \<Rightarrow>
          if 0 < sep s then (if cur = [] then [] else [rev cur]) @ fields_by sep [] (drop (sep s) s)
          else fields_by sep (c # cur) cs)"
  by pat_completeness auto
termination
  by (relation "measure (\<lambda>(sep, cur, s). length s)") auto

declare fields_by.simps [simp del]

definition Fields :: "string \<Rightarrow> string list" where
  "Fields s = fields_by (lead_seq space_seqs) [] s"

section \<open>Paths\<close>

text \<open>
  \<open>path.Clean\<close> and \<open>path.Join\<close> (the same as \<open>filepath.Clean\<close> and \<open>filepath.Join\<close> on Linux) work on
  the components between slashes: empty and dot components vanish and a dot-dot component removes
  the one before it. \<open>acc\<close> is the reversed list of the components kept so far.
\<close>

fun clean_comps :: "bool \<Rightarrow> string list \<Rightarrow> string list \<Rightarrow> string list" where
  "clean_comps rooted acc [] = rev acc"
| "clean_comps rooted acc (c # cs) =
     (if c = [] \<or> c = ''.'' then clean_comps rooted acc cs
      else if c = ''..'' then
        (case acc of
           [] \<Rightarrow> clean_comps rooted (if rooted then [] else [''..'']) cs
         | a # as \<Rightarrow>
             if a = ''..'' then clean_comps rooted (''..'' # acc) cs else clean_comps rooted as cs)
      else clean_comps rooted (c # acc) cs)"

definition path_comps :: "string \<Rightarrow> string list" where
  "path_comps s = clean_comps (has_prefix s ''/'') [] (split_char CHR ''/'' s)"

definition path_clean :: "string \<Rightarrow> string" where
  "path_clean s =
     (if has_prefix s ''/'' then ''/'' @ join_char ''/'' (path_comps s)
      else if path_comps s = [] then ''.'' else join_char ''/'' (path_comps s))"

definition path_join :: "string list \<Rightarrow> string" where
  "path_join elems =
     (case filter (\<lambda>e. e \<noteq> []) elems of [] \<Rightarrow> [] | es \<Rightarrow> path_clean (join_char ''/'' es))"

definition plain_name :: "string \<Rightarrow> bool" where
  "plain_name n \<longleftrightarrow> n \<noteq> [] \<and> n \<noteq> ''.'' \<and> n \<noteq> ''..'' \<and> CHR ''/'' \<notin> set n"

section \<open>Decimal numbers\<close>

definition digit_char :: "nat \<Rightarrow> char" where
  "digit_char n = char_of (48 + n)"

definition digit_val :: "char \<Rightarrow> nat" where
  "digit_val c = of_char c - 48"

definition is_digit :: "char \<Rightarrow> bool" where
  "is_digit c \<longleftrightarrow> (48::nat) \<le> of_char c \<and> of_char c \<le> (57::nat)"

fun nat_str :: "nat \<Rightarrow> string" where
  "nat_str n = (if n < 10 then [digit_char n] else nat_str (n div 10) @ [digit_char (n mod 10)])"

declare nat_str.simps [simp del]

definition Itoa :: "int \<Rightarrow> string" where
  "Itoa n = (if n < 0 then ''-'' @ nat_str (nat (- n)) else nat_str (nat n))"

fun parse_digits :: "nat \<Rightarrow> string \<Rightarrow> nat option" where
  "parse_digits acc [] = Some acc"
| "parse_digits acc (c # cs) =
     (if is_digit c then parse_digits (10 * acc + digit_val c) cs else None)"

definition parse_uint :: "string \<Rightarrow> nat option" where
  "parse_uint s = (if s = [] then None else parse_digits 0 s)"

text \<open>
  \<open>strconv.Atoi\<close> and \<open>strconv.ParseInt(s, 10, 64)\<close>: an optional sign, at least one digit,
  nothing else; \<open>None\<close> is the error, a syntax error or a value out of the 64-bit range.
\<close>

definition Atoi :: "string \<Rightarrow> int option" where
  "Atoi s =
     (case s of [] \<Rightarrow> None
      | c # cs \<Rightarrow>
          if c = CHR ''-'' then
            (case parse_uint cs of None \<Rightarrow> None
             | Some n \<Rightarrow> if int n \<le> 9223372036854775808 then Some (- int n) else None)
          else
            (case parse_uint (if c = CHR ''+'' then cs else s) of None \<Rightarrow> None
             | Some n \<Rightarrow> if int n \<le> max_int then Some (int n) else None))"

text \<open>\<open>strconv.ParseUint(s, 10, 64)\<close>: no sign.\<close>

definition ParseUint :: "string \<Rightarrow> nat option" where
  "ParseUint s =
     (case parse_uint s of None \<Rightarrow> None
      | Some n \<Rightarrow> if n \<le> 18446744073709551615 then Some n else None)"

text \<open>
  An environment is what \<open>os.Getenv\<close> reads: an unset variable reads as the empty string.
  The pattern \<open>if v, err := strconv.Atoi(e); err == nil && v > 0\<close> recurs in the code.
\<close>

type_synonym environ = "string \<Rightarrow> string"

definition env_pos :: "environ \<Rightarrow> string \<Rightarrow> int \<Rightarrow> int" where
  "env_pos env name dflt =
     (if env name \<noteq> [] then
        (case Atoi (env name) of None \<Rightarrow> dflt | Some v \<Rightarrow> if v > 0 then v else dflt)
      else dflt)"

section \<open>Lemmas on strings and numbers\<close>

lemma has_prefix_iff [go_simps]: "has_prefix s p \<longleftrightarrow> prefix p s"
  by (induction s p rule: has_prefix.induct) auto

lemma has_suffix_iff [go_simps]: "has_suffix s p \<longleftrightarrow> suffix p s"
  by (simp add: has_suffix_def has_prefix_iff suffix_to_prefix)

lemma trim_prefix_append [simp]: "trim_prefix (p @ s) p = s"
  by (simp add: trim_prefix_def has_prefix_iff)

lemma trim_suffix_append [simp]: "trim_suffix (s @ p) p = s"
  by (auto simp: trim_suffix_def has_suffix_iff suffix_def)

lemma split_char_nonempty [simp]: "split_char d s \<noteq> []"
  by (cases s) (auto split: list.splits)

lemma split_char_no_sep: "p \<in> set (split_char d s) \<Longrightarrow> d \<notin> set p"
proof (induction s arbitrary: p)
  case Nil
  then show ?case by simp
next
  case (Cons c s)
  then show ?case
    by (cases "split_char d s") (auto split: if_splits)
qed

lemma split_char_subset: "p \<in> set (split_char d s) \<Longrightarrow> set p \<subseteq> set s"
proof (induction s arbitrary: p)
  case Nil
  then show ?case by simp
next
  case (Cons c s)
  obtain q qs where q: "split_char d s = q # qs"
    by (cases "split_char d s") auto
  with Cons.IH have "set q \<subseteq> set s" and "\<And>r. r \<in> set qs \<Longrightarrow> set r \<subseteq> set s" by auto
  with Cons.prems q show ?case by (auto split: if_splits)
qed

lemma drop_length_add: "drop (length a + n) (a @ b) = drop n b"
  by simp

lemma split_char_id [simp]: "d \<notin> set s \<Longrightarrow> split_char d s = [s]"
  by (induction s) auto

lemma split_char_append:
  "d \<notin> set p \<Longrightarrow> split_char d (p @ d # s) = p # split_char d s"
  by (induction p) auto

lemma join_split [simp]: "join_char [d] (split_char d s) = s"
proof (induction s)
  case Nil
  then show ?case by simp
next
  case (Cons c s)
  obtain p ps where "split_char d s = p # ps"
    by (cases "split_char d s") auto
  with Cons show ?case by (cases ps) auto
qed

lemma split_char_snoc:
  "d \<notin> set n \<Longrightarrow> split_char d (s @ d # n) = split_char d s @ [n]"
proof (induction s)
  case Nil
  then show ?case by simp
next
  case (Cons c s)
  then show ?case by (cases "split_char d s") auto
qed

lemma clean_comps_snoc:
  "n \<noteq> [] \<Longrightarrow> n \<noteq> ''.'' \<Longrightarrow> n \<noteq> ''..'' \<Longrightarrow>
   clean_comps r acc (cs @ [n]) = clean_comps r acc cs @ [n]"
  by (induction r acc cs rule: clean_comps.induct) (auto split: list.splits)

text \<open>Joining a directory with a plain name adds that one component: no traversal.\<close>

lemma path_comps_join:
  assumes "s \<noteq> []" and "plain_name n"
  shows "path_comps (s @ ''/'' @ n) = path_comps s @ [n]"
proof -
  have "has_prefix (s @ ''/'' @ n) ''/'' = has_prefix s ''/''"
    using assms(1) by (cases s) auto
  with assms(2) show ?thesis
    by (simp add: path_comps_def plain_name_def split_char_snoc clean_comps_snoc)
qed

lemma split_char_two: "split_char d (a @ d # b) = split_char d a @ split_char d b"
proof (induction a)
  case Nil
  then show ?case by simp
next
  case (Cons c a)
  then show ?case by (cases "split_char d a") auto
qed

lemma clean_comps_append:
  "clean_comps r acc (xs @ ys) = clean_comps r (rev (clean_comps r acc xs)) ys"
  by (induction r acc xs rule: clean_comps.induct) (auto split: list.splits)

lemma clean_comps_down:
  "''..'' \<notin> set cs \<Longrightarrow> clean_comps r acc cs = rev acc @ filter (\<lambda>c. c \<noteq> [] \<and> c \<noteq> ''.'') cs"
  by (induction r acc cs rule: clean_comps.induct) auto

text \<open>Joining a directory with a path without dot-dot components only goes down.\<close>

lemma path_comps_down:
  assumes "s \<noteq> []" and "''..'' \<notin> set (split_char CHR ''/'' f)"
  shows "path_comps (s @ ''/'' @ f) =
     path_comps s @ filter (\<lambda>c. c \<noteq> [] \<and> c \<noteq> ''.'') (split_char CHR ''/'' f)"
proof -
  have "has_prefix (s @ ''/'' @ f) ''/'' = has_prefix s ''/''"
    using assms(1) by (cases s) auto
  then show ?thesis
    using clean_comps_down [OF assms(2)]
    by (simp add: path_comps_def split_char_two clean_comps_append)
qed

lemma str_index_none: "str_index s p = None \<longleftrightarrow> \<not> sublist p s"
  by (induction s) (auto simp: go_simps sublist_Cons_right)

lemma str_contains_iff [go_simps]: "str_contains s p \<longleftrightarrow> sublist p s"
  by (simp add: str_contains_def str_index_none)

lemma index_any_none: "index_any s cs = None \<longleftrightarrow> set s \<inter> set cs = {}"
  by (induction s) auto

lemma contains_any_iff [go_simps]: "contains_any s cs \<longleftrightarrow> set s \<inter> set cs \<noteq> {}"
  by (simp add: contains_any_def index_any_none)

lemma digit_char_val: "n < 10 \<Longrightarrow> digit_val (digit_char n) = n"
  by (simp add: digit_val_def digit_char_def of_char_of)

lemma digit_char_is_digit: "n < 10 \<Longrightarrow> is_digit (digit_char n)"
  by (simp add: is_digit_def digit_char_def of_char_of)

lemma parse_digits_append:
  "parse_digits acc (s @ t) =
     (case parse_digits acc s of None \<Rightarrow> None | Some n \<Rightarrow> parse_digits n t)"
  by (induction s arbitrary: acc) auto

lemma parse_nat_str: "parse_digits 0 (nat_str n) = Some n"
proof (induction n rule: nat_str.induct)
  case (1 n)
  show ?case
    by (subst nat_str.simps)
       (use 1 in \<open>auto simp: parse_digits_append digit_char_is_digit digit_char_val\<close>)
qed

lemma nat_str_digits: "c \<in> set (nat_str n) \<Longrightarrow> is_digit c"
proof (induction n rule: nat_str.induct)
  case (1 n)
  then show ?case
    by (subst (asm) nat_str.simps) (auto simp: digit_char_is_digit split: if_splits)
qed

lemma nat_str_nonempty [simp]: "nat_str n \<noteq> []"
  by (subst nat_str.simps) simp

lemma nat_str_inj: "nat_str m = nat_str n \<longleftrightarrow> m = n"
  by (metis option.inject parse_nat_str)

lemma Atoi_Itoa: "in_int64 n \<Longrightarrow> Atoi (Itoa n) = Some n"
proof (cases "n < 0")
  case True
  assume "in_int64 n"
  with True show ?thesis
    by (simp add: Itoa_def Atoi_def parse_uint_def parse_nat_str in_int64_def)
next
  case False
  assume r: "in_int64 n"
  obtain c cs where s: "nat_str (nat n) = c # cs"
    by (cases "nat_str (nat n)") auto
  have "is_digit c"
    by (rule nat_str_digits [of _ "nat n"]) (simp add: s)
  then have "c \<noteq> CHR ''-''" "c \<noteq> CHR ''+''"
    by (auto simp: is_digit_def)
  with False r s show ?thesis
    using parse_nat_str [of "nat n"]
    by (simp add: Itoa_def Atoi_def parse_uint_def in_int64_def)
qed

lemma Itoa_inj: "in_int64 m \<Longrightarrow> in_int64 n \<Longrightarrow> Itoa m = Itoa n \<Longrightarrow> m = n"
  by (metis Atoi_Itoa option.inject)

lemma Atoi_range: "Atoi s = Some v \<Longrightarrow> in_int64 v"
  by (auto simp: Atoi_def in_int64_def split: list.splits if_splits option.splits)

lemma env_pos_range:
  "0 < dflt \<Longrightarrow> dflt \<le> max_int \<Longrightarrow> 0 < env_pos env name dflt \<and> env_pos env name dflt \<le> max_int"
  by (auto simp: env_pos_def in_int64_def dest: Atoi_range split: option.splits)

section \<open>Transition systems\<close>

text \<open>
  The concurrent components are labelled transition systems: an initial state and a step
  relation on states. A predicate that holds initially and is kept by every step holds in every
  reachable state.
\<close>

inductive reach :: "('s \<Rightarrow> bool) \<Rightarrow> ('s \<Rightarrow> 's \<Rightarrow> bool) \<Rightarrow> 's \<Rightarrow> bool"
  for init :: "'s \<Rightarrow> bool" and step :: "'s \<Rightarrow> 's \<Rightarrow> bool" where
  reach_init: "init s \<Longrightarrow> reach init step s"
| reach_step: "reach init step s \<Longrightarrow> step s t \<Longrightarrow> reach init step t"

locale invariant_system =
  fixes init :: "'s \<Rightarrow> bool"
    and step :: "'s \<Rightarrow> 's \<Rightarrow> bool"
    and inv :: "'s \<Rightarrow> bool"
  assumes inv_init: "init s \<Longrightarrow> inv s"
    and inv_step: "step s t \<Longrightarrow> inv s \<Longrightarrow> inv t"
begin

lemma inv_reach: "reach init step s \<Longrightarrow> inv s"
  by (induction rule: reach.induct) (auto intro: inv_init inv_step)

lemma inv_steps: "step\<^sup>*\<^sup>* s t \<Longrightarrow> inv s \<Longrightarrow> inv t"
  by (induction rule: rtranclp_induct) (auto intro: inv_step)

end

text \<open>
  A simulation: every step of the first system is answered by steps of the second that restore the
  relation, so every reachable state of the first is related to a reachable state of the second.
\<close>

lemma reach_steps: "step\<^sup>*\<^sup>* s t \<Longrightarrow> reach init step s \<Longrightarrow> reach init step t"
  by (induction rule: rtranclp_induct) (auto intro: reach_step)

locale simulation =
  fixes init1 :: "'s \<Rightarrow> bool"
    and step1 :: "'s \<Rightarrow> 's \<Rightarrow> bool"
    and init2 :: "'t \<Rightarrow> bool"
    and step2 :: "'t \<Rightarrow> 't \<Rightarrow> bool"
    and related :: "'s \<Rightarrow> 't \<Rightarrow> bool"
  assumes sim_init: "init1 s \<Longrightarrow> \<exists>t. reach init2 step2 t \<and> related s t"
    and sim_step: "step1 s s' \<Longrightarrow> related s t \<Longrightarrow> reach init2 step2 t \<Longrightarrow> \<exists>t'. step2\<^sup>*\<^sup>* t t' \<and> related s' t'"
begin

lemma sim_reach: "reach init1 step1 s \<Longrightarrow> \<exists>t. reach init2 step2 t \<and> related s t"
  by (induction rule: reach.induct) (blast intro: sim_init, blast dest: sim_step intro: reach_steps)

end

end
