(* ===== verification/Uidpool.thy ===== *)
theory Uidpool
  imports Prelude
begin

text \<open>
  The uid pool of \<^verbatim>\<open>internal/uidpool/uidpool.go\<close>: every jail runs under its own host uid, drawn
  from the range \<open>[min, min + size)\<close>. The pool is a record; \<open>Alloc\<close> and \<open>Release\<close> are its two
  critical sections (both run under the pool's mutex, so they are atomic). Arithmetic is 64-bit.
  The locale \<open>uid_allocator\<close> is the contract the jails rely on.
\<close>

section \<open>Configuration\<close>

definition DefaultMinUid :: int where
  "DefaultMinUid = 10000"

definition ConcurrentJobs :: "environ \<Rightarrow> int \<Rightarrow> int" where
  "ConcurrentJobs env numCPU = env_pos env ''GOBOXD_MAX_JOBS'' numCPU"

definition UidBudget :: "environ \<Rightarrow> int \<Rightarrow> int" where
  "UidBudget env numCPU =
     (let jobs0 = ConcurrentJobs env numCPU;
          jobs = (if jobs0 < 1 then 1 else jobs0);
          cpus = (if numCPU < 1 then 1 else numCPU);
          per = wrap64 (cpus + 1)
      in if jobs > go_div max_int per then max_int else wrap64 (jobs * per))"

definition minUid :: "environ \<Rightarrow> int" where
  "minUid env = env_pos env ''GOBOXD_UID_MIN'' DefaultMinUid"

section \<open>The pool\<close>

record Pool =
  pmin :: int
  psize :: int
  inUse :: "int set"
  pnext :: int

definition New :: "environ \<Rightarrow> int \<Rightarrow> Pool" where
  "New env n = \<lparr>pmin = minUid env, psize = (if n < 1 then 1 else n), inUse = {}, pnext = 0\<rparr>"

text \<open>The uid the \<open>i\<close>-th round of the scan looks at.\<close>

definition slot :: "Pool \<Rightarrow> int \<Rightarrow> int" where
  "slot p i = wrap64 (pmin p + go_rem (wrap64 (pnext p + i)) (psize p))"

function alloc_scan :: "Pool \<Rightarrow> int \<Rightarrow> int option" where
  "alloc_scan p i =
     (if i < psize p then (if slot p i \<notin> inUse p then Some i else alloc_scan p (i + 1))
      else None)"
  by pat_completeness auto
termination
  by (relation "measure (\<lambda>(p, i). nat (psize p - i))") auto

declare alloc_scan.simps [simp del]

definition Alloc :: "Pool \<Rightarrow> int go_result \<times> Pool" where
  "Alloc p =
     (case alloc_scan p 0 of
        Some i \<Rightarrow>
          (Inr (slot p i),
           p\<lparr>inUse := insert (slot p i) (inUse p),
             pnext := go_rem (wrap64 (wrap64 (pnext p + i) + 1)) (psize p)\<rparr>)
      | None \<Rightarrow> (Inl (''uid pool exhausted (size '' @ Itoa (psize p) @ '')''), p))"

definition Release :: "int \<Rightarrow> Pool \<Rightarrow> Pool" where
  "Release uid p =
     (if uid < pmin p \<or> uid \<ge> wrap64 (pmin p + psize p) then p
      else p\<lparr>inUse := inUse p - {uid}\<rparr>)"

definition Size :: "Pool \<Rightarrow> int" where
  "Size p = psize p"

section \<open>Well-formed pools\<close>

text \<open>
  The range must be representable: its end, and the scan index \<open>next + i\<close>, stay below the largest
  64-bit integer. \<open>New\<close> does not check this; the last lemma below shows what happens otherwise.
\<close>

definition pool_wf :: "Pool \<Rightarrow> bool" where
  "pool_wf p \<longleftrightarrow>
     0 < pmin p \<and> 0 < psize p \<and> pmin p + psize p \<le> max_int \<and> 2 * psize p \<le> max_int \<and>
     0 \<le> pnext p \<and> pnext p < psize p \<and> inUse p \<subseteq> {pmin p ..< pmin p + psize p}"

definition pool_range :: "Pool \<Rightarrow> int set" where
  "pool_range p = {pmin p ..< pmin p + psize p}"

lemma minUid_range: "0 < minUid env \<and> minUid env \<le> max_int"
  unfolding minUid_def by (rule env_pos_range) (simp_all add: DefaultMinUid_def)

lemma New_wf:
  assumes "n \<le> max_int div 2" and "minUid env + max 1 n \<le> max_int"
  shows "pool_wf (New env n)"
  using assms minUid_range [of env] by (auto simp: pool_wf_def New_def)

lemma slot_wf:
  assumes "pool_wf p" and "0 \<le> i" and "i < psize p"
  shows "slot p i = pmin p + (pnext p + i) mod psize p"
proof -
  have "in_int64 (pnext p + i)"
    using assms by (auto simp: pool_wf_def in_int64_def)
  then have r: "go_rem (wrap64 (pnext p + i)) (psize p) = (pnext p + i) mod psize p"
    using assms by (simp add: go_simps pool_wf_def)
  have "(pnext p + i) mod psize p < psize p" and "0 \<le> (pnext p + i) mod psize p"
    using assms by (auto simp: pool_wf_def)
  then have "in_int64 (pmin p + (pnext p + i) mod psize p)"
    using assms unfolding pool_wf_def in_int64_def by linarith
  with r show ?thesis by (simp add: slot_def wrap64_id)
qed

lemma slot_in_range:
  assumes "pool_wf p" and "0 \<le> i" and "i < psize p"
  shows "slot p i \<in> pool_range p"
proof -
  have "(pnext p + i) mod psize p < psize p" and "0 \<le> (pnext p + i) mod psize p"
    using assms by (auto simp: pool_wf_def)
  then show ?thesis
    by (simp add: slot_wf [OF assms] pool_range_def)
qed

text \<open>The scan visits every uid of the range.\<close>

lemma slot_onto:
  assumes "pool_wf p" and "u \<in> pool_range p"
  shows "\<exists>i. 0 \<le> i \<and> i < psize p \<and> slot p i = u"
proof -
  let ?i = "(u - pmin p - pnext p) mod psize p"
  have s: "0 < psize p" using assms by (simp add: pool_wf_def)
  then have i: "0 \<le> ?i" "?i < psize p" by simp_all
  have "(pnext p + ?i) mod psize p = (u - pmin p) mod psize p"
    by (simp add: mod_simps)
  also have "\<dots> = u - pmin p"
    using assms(2) by (simp add: pool_range_def)
  finally have "slot p ?i = u"
    by (simp add: slot_wf [OF assms(1) i])
  with i show ?thesis by blast
qed

lemma alloc_scan_Some:
  "alloc_scan p i = Some j \<Longrightarrow> i \<le> j \<and> j < psize p \<and> slot p j \<notin> inUse p"
proof (induction p i rule: alloc_scan.induct)
  case (1 p i)
  then show ?case
    by (subst (asm) (2) alloc_scan.simps) (fastforce split: if_splits)
qed

lemma alloc_scan_None:
  "alloc_scan p i = None \<Longrightarrow> i \<le> j \<Longrightarrow> j < psize p \<Longrightarrow> slot p j \<in> inUse p"
proof (induction p i rule: alloc_scan.induct)
  case (1 p i)
  then show ?case
    by (subst (asm) (2) alloc_scan.simps) (cases "i = j"; auto split: if_splits)
qed

lemma Alloc_None_iff:
  assumes "pool_wf p"
  shows "alloc_scan p 0 = None \<longleftrightarrow> inUse p = pool_range p"
proof
  assume n: "alloc_scan p 0 = None"
  have "u \<in> inUse p" if u: "u \<in> pool_range p" for u
  proof -
    obtain i where "0 \<le> i" "i < psize p" "slot p i = u"
      using slot_onto [OF assms u] by blast
    with alloc_scan_None [OF n, of i] show ?thesis by simp
  qed
  with assms show "inUse p = pool_range p"
    by (auto simp: pool_wf_def pool_range_def)
next
  assume full: "inUse p = pool_range p"
  show "alloc_scan p 0 = None"
  proof (cases "alloc_scan p 0")
    case (Some j)
    then have "0 \<le> j" "j < psize p" "slot p j \<notin> inUse p"
      using alloc_scan_Some by blast+
    with slot_in_range [OF assms, of j] full show ?thesis by simp
  qed
qed

lemma pool_range_card: "pool_wf p \<Longrightarrow> card (pool_range p) = nat (psize p)"
  by (simp add: pool_range_def)

lemma inUse_finite: "pool_wf p \<Longrightarrow> finite (inUse p)"
  by (auto simp: pool_wf_def intro: finite_subset)

lemma Alloc_ok:
  assumes "pool_wf p" and "Alloc p = (Inr u, p')"
  shows "u \<in> pool_range p" and "u \<notin> inUse p" and "inUse p' = insert u (inUse p)"
    and "pool_wf p'" and "pmin p' = pmin p" and "psize p' = psize p"
proof -
  obtain j where j: "alloc_scan p 0 = Some j" and u: "u = slot p j"
    and p': "p' = p\<lparr>inUse := insert u (inUse p),
       pnext := go_rem (wrap64 (wrap64 (pnext p + j) + 1)) (psize p)\<rparr>"
    using assms(2) by (auto simp: Alloc_def split: option.splits)
  from alloc_scan_Some [OF j] have b: "0 \<le> j" "j < psize p" "slot p j \<notin> inUse p" by auto
  show r: "u \<in> pool_range p" using slot_in_range [OF assms(1) b(1,2)] u by simp
  show "u \<notin> inUse p" using b u by simp
  show "inUse p' = insert u (inUse p)" "pmin p' = pmin p" "psize p' = psize p"
    by (simp_all add: p')
  have "in_int64 (pnext p + j)" and "in_int64 (pnext p + j + 1)"
    using assms(1) b by (auto simp: pool_wf_def in_int64_def)
  then have "pnext p' = (pnext p + j + 1) mod psize p"
    using assms(1) b by (simp add: p' go_simps pool_wf_def)
  then show "pool_wf p'"
    using assms(1) r by (auto simp: p' pool_wf_def pool_range_def)
qed

lemma Alloc_fail: "Alloc p = (Inl e, p') \<Longrightarrow> p' = p \<and> alloc_scan p 0 = None"
  by (auto simp: Alloc_def split: option.splits)

lemma Release_inUse:
  assumes "pool_wf p"
  shows "inUse (Release u p) = inUse p - {u}" and "pool_wf (Release u p)"
    and "pmin (Release u p) = pmin p" and "psize (Release u p) = psize p"
proof -
  have "wrap64 (pmin p + psize p) = pmin p + psize p"
    using assms by (intro wrap64_id) (auto simp: pool_wf_def in_int64_def)
  then show "inUse (Release u p) = inUse p - {u}" "pool_wf (Release u p)"
      "pmin (Release u p) = pmin p" "psize (Release u p) = psize p"
    using assms by (auto simp: Release_def pool_wf_def)
qed

section \<open>The allocator contract\<close>

locale uid_allocator =
  fixes alloc :: "'p \<Rightarrow> int go_result \<times> 'p"
    and release :: "int \<Rightarrow> 'p \<Rightarrow> 'p"
    and held :: "'p \<Rightarrow> int set"
    and cap :: "'p \<Rightarrow> nat"
    and invar :: "'p \<Rightarrow> bool"
  assumes alloc_ok: "invar p \<Longrightarrow> alloc p = (Inr u, p') \<Longrightarrow>
      u \<notin> held p \<and> held p' = insert u (held p) \<and> cap p' = cap p \<and> invar p'"
    and alloc_fail: "invar p \<Longrightarrow> alloc p = (Inl e, p') \<Longrightarrow> p' = p \<and> card (held p) = cap p"
    and release_ok: "invar p \<Longrightarrow>
      held (release u p) = held p - {u} \<and> cap (release u p) = cap p \<and> invar (release u p)"
    and held_finite: "invar p \<Longrightarrow> finite (held p)"
begin

lemma alloc_succeeds:
  assumes "invar p" and "card (held p) < cap p"
  shows "\<exists>u p'. alloc p = (Inr u, p')"
proof (cases "alloc p")
  case (Pair r p')
  show ?thesis
  proof (cases r)
    case (Inl e)
    with Pair assms alloc_fail [of p e p'] show ?thesis by simp
  next
    case (Inr u)
    with Pair show ?thesis by simp
  qed
qed

lemma alloc_release:
  assumes "invar p" and "alloc p = (Inr u, p')"
  shows "held (release u p') = held p"
  using alloc_ok [OF assms] release_ok [of p' u] by auto

lemma alloc_held_card:
  assumes "invar p" and "alloc p = (Inr u, p')"
  shows "card (held p') = Suc (card (held p))"
  using alloc_ok [OF assms] held_finite [OF assms(1)] by simp

end

interpretation pool: uid_allocator Alloc Release inUse "\<lambda>p. nat (psize p)" pool_wf
proof (unfold_locales, goal_cases)
  case (1 p u p')
  then show ?case using Alloc_ok [OF 1] by auto
next
  case (2 p e p')
  then have "p' = p" and "inUse p = pool_range p"
    using Alloc_fail [OF 2(2)] Alloc_None_iff [OF 2(1)] by auto
  with 2(1) show ?case by (simp add: pool_range_card)
next
  case (3 p u)
  then show ?case using Release_inUse [OF 3] by simp
next
  case (4 p)
  then show ?case by (rule inUse_finite)
qed

section \<open>The budget\<close>

lemma ConcurrentJobs_pos:
  "0 < numCPU \<Longrightarrow> numCPU \<le> max_int \<Longrightarrow>
   0 < ConcurrentJobs env numCPU \<and> ConcurrentJobs env numCPU \<le> max_int"
  unfolding ConcurrentJobs_def by (rule env_pos_range)

lemma int_div_less_mult:
  fixes m k n :: int
  assumes "0 < k"
  shows "m div k < n \<longleftrightarrow> m < n * k"
proof
  assume "m div k < n"
  then have "(m div k + 1) * k \<le> n * k"
    using assms by (intro mult_right_mono) auto
  moreover have "(m div k + 1) * k = m div k * k + k" by (simp add: algebra_simps)
  moreover have "m div k * k + m mod k = m" by simp
  moreover have "m mod k < k" using assms by simp
  ultimately show "m < n * k" by linarith
next
  assume "m < n * k"
  show "m div k < n"
  proof (rule ccontr)
    assume "\<not> m div k < n"
    then have "n * k \<le> m div k * k" using assms by (intro mult_right_mono) auto
    moreover have "m div k * k + m mod k = m" by simp
    moreover have "0 \<le> m mod k" using assms by simp
    ultimately show False using \<open>m < n * k\<close> by linarith
  qed
qed

text \<open>The budget is the product, saturated at the largest integer: it never wraps.\<close>

lemma UidBudget_eq:
  assumes "0 < numCPU" and "numCPU < max_int"
  shows "UidBudget env numCPU = min max_int (ConcurrentJobs env numCPU * (numCPU + 1))"
proof -
  let ?j = "ConcurrentJobs env numCPU" and ?per = "numCPU + 1"
  have j: "0 < ?j" "?j \<le> max_int" using ConcurrentJobs_pos assms by auto
  have per: "wrap64 ?per = ?per" using assms by (intro wrap64_id) (simp add: in_int64_def)
  have d: "go_div max_int ?per = max_int div ?per" using assms by (intro go_div_pos) auto
  have iff: "max_int div ?per < ?j \<longleftrightarrow> max_int < ?j * ?per"
    using assms by (intro int_div_less_mult) simp
  show ?thesis
  proof (cases "max_int < ?j * ?per")
    case True
    with iff show ?thesis using assms j per d by (simp add: UidBudget_def Let_def)
  next
    case False
    moreover have "0 \<le> ?j * ?per" using j assms by simp
    ultimately have "wrap64 (?j * ?per) = ?j * ?per"
      by (intro wrap64_id) (simp add: in_int64_def)
    with False iff show ?thesis
      using assms j per d by (simp add: UidBudget_def Let_def)
  qed
qed

section \<open>Properties\<close>

text \<open>
  C32. A uid is never handed out twice: on a well-formed pool a successful \<open>Alloc\<close> returns a uid of
  the configured range that no jail holds and marks exactly it, and \<open>Alloc\<close> fails only when every
  uid of the range is held.
\<close>

theorem alloc_exclusive:
  assumes "pool_wf p"
  shows "case Alloc p of
      (Inr u, p') \<Rightarrow> u \<in> pool_range p \<and> u \<notin> inUse p \<and> inUse p' = insert u (inUse p) \<and> pool_wf p'
    | (Inl e, p') \<Rightarrow> p' = p \<and> inUse p = pool_range p"
proof (cases "Alloc p")
  case (Pair r p')
  show ?thesis
  proof (cases r)
    case (Inl e)
    with Pair show ?thesis using Alloc_fail [of p e p'] Alloc_None_iff [OF assms] by simp
  next
    case (Inr u)
    with Pair have "Alloc p = (Inr u, p')" by simp
    with Pair Inr show ?thesis using Alloc_ok(1-4) [OF assms] by simp
  qed
qed

theorem alloc_exclusive_witness:
  "case Alloc \<lparr>pmin = 10000, psize = 2, inUse = {10000}, pnext = 0\<rparr> of
      (Inr u, p') \<Rightarrow> u \<in> pool_range \<lparr>pmin = 10000, psize = 2, inUse = {10000}, pnext = 0\<rparr> \<and>
        u \<notin> inUse \<lparr>pmin = 10000, psize = 2, inUse = {10000}, pnext = 0\<rparr> \<and>
        inUse p' = insert u (inUse \<lparr>pmin = 10000, psize = 2, inUse = {10000}, pnext = 0\<rparr>) \<and> pool_wf p'
    | (Inl e, p') \<Rightarrow> p' = \<lparr>pmin = 10000, psize = 2, inUse = {10000}, pnext = 0\<rparr> \<and>
        inUse \<lparr>pmin = 10000, psize = 2, inUse = {10000}, pnext = 0\<rparr> =
          pool_range \<lparr>pmin = 10000, psize = 2, inUse = {10000}, pnext = 0\<rparr>"
  by (rule alloc_exclusive) (simp add: pool_wf_def pool_range_def)

text \<open>
  The budget is the product of the admitted jobs and the uids one job can hold, saturated at
  the largest 64-bit integer: the multiplication never wraps to a small or negative pool.
\<close>

lemma budget_never_wraps:
  assumes "0 < numCPU" and "numCPU < max_int"
  shows "UidBudget env numCPU = min max_int (ConcurrentJobs env numCPU * (numCPU + 1)) \<and>
    0 < UidBudget env numCPU"
  using UidBudget_eq [OF assms] ConcurrentJobs_pos [of numCPU env] assms by (simp add: min_def)

text \<open>
  When the budget saturates, the end of the range overflows and \<open>Release\<close> takes every uid for
  out of range: a released uid stays in use.
\<close>

lemma saturated_release_leaks:
  assumes "0 < pmin p" and "pmin p \<le> max_int" and "psize p = max_int" and "0 \<le> u"
  shows "Release u p = p"
proof -
  have "pmin p + psize p + 9223372036854775808 = (pmin p - 1) + 18446744073709551616"
    using assms(3) by simp
  then have "(pmin p + psize p + 9223372036854775808) mod 18446744073709551616 = pmin p - 1"
    using assms(1,2) by (simp only: mod_add_self2) (simp add: mod_pos_pos_trivial)
  then have "wrap64 (pmin p + psize p) < 0" using assms(2) by (simp add: wrap64_def)
  with assms(4) show ?thesis by (simp add: Release_def)
qed

end
