(* ===== verification/Admission.thy ===== *)
theory Admission
  imports Prelude
begin

text \<open>
  The admission gate of \<^verbatim>\<open>internal/api/admission.go\<close>: at most \<open>maxJobs\<close> requests in flight and
  \<open>maxQueued\<close> waiting. Each region the code runs under the gate's mutex is one operation on the
  record \<open>admissionGate\<close>; the blocking \<open>select\<close> of \<open>acquire\<close> lies between two of them. The
  goroutines that call the gate are the threads of the step relation \<open>gate_step\<close>, whose
  interleavings are every schedule the Go runtime may choose.

  A broadcast channel is a number; \<open>closed\<close> holds the channels that were closed. The gauge
  \<open>metrics.Queued\<close> is kept beside the gate because the gate updates it in the same regions.
\<close>

section \<open>The gate\<close>

datatype acquire_err = errQueueFull | errShuttingDown | ctxErr

record admissionGate =
  inFlight :: int
  queued :: int
  maxJobs :: int
  maxQueued :: int
  stopped :: bool
  broadcast :: nat
  closed :: "nat set"
  metrics_Queued :: int

definition newAdmissionGate :: "int \<Rightarrow> int \<Rightarrow> admissionGate" where
  "newAdmissionGate n m =
     \<lparr>inFlight = 0, queued = 0, maxJobs = n, maxQueued = m, stopped = False,
      broadcast = 0, closed = {}, metrics_Queued = 0\<rparr>"

text \<open>
  What a region of \<open>acquire\<close> ends with: the function returns nil, returns an error, or blocks in
  the \<open>select\<close> on the channel it read.
\<close>

datatype acquire_ret = Admitted | Refused acquire_err | WaitOn nat

definition acquire_enter :: "admissionGate \<Rightarrow> acquire_ret \<times> admissionGate" where
  "acquire_enter g =
     (if stopped g then (Refused errShuttingDown, g)
      else if inFlight g < maxJobs g then (Admitted, g\<lparr>inFlight := inFlight g + 1\<rparr>)
      else if maxQueued g \<le> 0 \<or> queued g \<ge> maxQueued g then (Refused errQueueFull, g)
      else (WaitOn (broadcast g),
            g\<lparr>queued := queued g + 1, metrics_Queued := metrics_Queued g + 1\<rparr>))"

text \<open>The \<open>ctx.Done()\<close> arm of the \<open>select\<close>.\<close>

definition acquire_cancel :: "admissionGate \<Rightarrow> acquire_ret \<times> admissionGate" where
  "acquire_cancel g =
     (Refused ctxErr, g\<lparr>queued := queued g - 1, metrics_Queued := metrics_Queued g - 1\<rparr>)"

text \<open>The broadcast arm of the \<open>select\<close>.\<close>

definition acquire_wake :: "admissionGate \<Rightarrow> acquire_ret \<times> admissionGate" where
  "acquire_wake g =
     (if stopped g then
        (Refused errShuttingDown,
         g\<lparr>queued := queued g - 1, metrics_Queued := metrics_Queued g - 1\<rparr>)
      else if inFlight g < maxJobs g then
        (Admitted,
         g\<lparr>queued := queued g - 1, metrics_Queued := metrics_Queued g - 1,
           inFlight := inFlight g + 1\<rparr>)
      else (WaitOn (broadcast g), g))"

text \<open>
  \<open>close(g.broadcast)\<close> followed by a fresh channel. Closing a closed channel panics in Go, the
  value \<open>None\<close> here.
\<close>

definition rebroadcast :: "admissionGate \<Rightarrow> admissionGate option" where
  "rebroadcast g =
     (if broadcast g \<in> closed g then None
      else Some (g\<lparr>closed := insert (broadcast g) (closed g), broadcast := broadcast g + 1\<rparr>))"

definition release :: "admissionGate \<Rightarrow> admissionGate option" where
  "release g =
     (let g1 = g\<lparr>inFlight := inFlight g - 1\<rparr>
      in if queued g1 > 0 then rebroadcast g1 else Some g1)"

definition Stop :: "admissionGate \<Rightarrow> admissionGate option" where
  "Stop g =
     (let g1 = g\<lparr>stopped := True\<rparr>
      in if queued g1 > 0 then rebroadcast g1 else Some g1)"

section \<open>Configuration\<close>

definition readMaxJobs :: "environ \<Rightarrow> int \<Rightarrow> int" where
  "readMaxJobs env numCPU = env_pos env ''GOBOXD_MAX_JOBS'' numCPU"

definition readMaxQueued :: "environ \<Rightarrow> int \<Rightarrow> int" where
  "readMaxQueued env numCPU =
     (if env ''GOBOXD_MAX_QUEUED'' = [] then readMaxJobs env numCPU
      else (case Atoi (env ''GOBOXD_MAX_QUEUED'') of
              None \<Rightarrow> readMaxJobs env numCPU
            | Some v \<Rightarrow> if v < 0 then readMaxJobs env numCPU else v))"

definition gate :: "environ \<Rightarrow> int \<Rightarrow> admissionGate" where
  "gate env numCPU = newAdmissionGate (readMaxJobs env numCPU) (readMaxQueued env numCPU)"

section \<open>Requests competing for the gate\<close>

text \<open>
  A thread is one request: it has not called \<open>acquire\<close> yet, is blocked in the \<open>select\<close> on a
  channel, runs its job, or has left with or without having run. \<open>HandleRun\<close> calls \<open>release\<close>
  once, in a deferred call, exactly when its \<open>acquire\<close> returned nil. \<open>Panicked\<close> would be a
  goroutine that closed a closed channel.
\<close>

datatype pc = Idle | Waiting nat | Running | Finished | Rejected acquire_err | Panicked

record gate_sys =
  sgate :: admissionGate
  pcs :: "nat \<Rightarrow> pc"
  ctx_done :: "nat set"

definition pc_of :: "acquire_ret \<Rightarrow> pc" where
  "pc_of r = (case r of Admitted \<Rightarrow> Running | Refused e \<Rightarrow> Rejected e | WaitOn b \<Rightarrow> Waiting b)"

definition gate_init :: "int \<Rightarrow> int \<Rightarrow> gate_sys \<Rightarrow> bool" where
  "gate_init n m s \<longleftrightarrow>
     s = \<lparr>sgate = newAdmissionGate n m, pcs = (\<lambda>_. Idle), ctx_done = {}\<rparr>"

inductive gate_step :: "gate_sys \<Rightarrow> gate_sys \<Rightarrow> bool" where
  enter: "pcs s i = Idle \<Longrightarrow> acquire_enter (sgate s) = (r, g') \<Longrightarrow>
     gate_step s (s\<lparr>sgate := g', pcs := (pcs s)(i := pc_of r)\<rparr>)"
| cancel: "pcs s i = Waiting b \<Longrightarrow> i \<in> ctx_done s \<Longrightarrow> acquire_cancel (sgate s) = (r, g') \<Longrightarrow>
     gate_step s (s\<lparr>sgate := g', pcs := (pcs s)(i := pc_of r)\<rparr>)"
| wake: "pcs s i = Waiting b \<Longrightarrow> b \<in> closed (sgate s) \<Longrightarrow> acquire_wake (sgate s) = (r, g') \<Longrightarrow>
     gate_step s (s\<lparr>sgate := g', pcs := (pcs s)(i := pc_of r)\<rparr>)"
| finish: "pcs s i = Running \<Longrightarrow> release (sgate s) = Some g' \<Longrightarrow>
     gate_step s (s\<lparr>sgate := g', pcs := (pcs s)(i := Finished)\<rparr>)"
| finish_panic: "pcs s i = Running \<Longrightarrow> release (sgate s) = None \<Longrightarrow>
     gate_step s (s\<lparr>pcs := (pcs s)(i := Panicked)\<rparr>)"
| stop: "Stop (sgate s) = Some g' \<Longrightarrow> gate_step s (s\<lparr>sgate := g'\<rparr>)"
| disconnect: "gate_step s (s\<lparr>ctx_done := insert i (ctx_done s)\<rparr>)"

inductive_cases gate_stepE: "gate_step s t"

definition waiting :: "gate_sys \<Rightarrow> nat set" where
  "waiting s = {i. \<exists>b. pcs s i = Waiting b}"

definition running :: "gate_sys \<Rightarrow> nat set" where
  "running s = {i. pcs s i = Running}"

text \<open>The counters of the gate count the threads.\<close>

definition counts_ok :: "gate_sys \<Rightarrow> bool" where
  "counts_ok s \<longleftrightarrow>
     finite (waiting s) \<and> finite (running s) \<and>
     inFlight (sgate s) = int (card (running s)) \<and>
     queued (sgate s) = int (card (waiting s)) \<and>
     metrics_Queued (sgate s) = queued (sgate s) \<and>
     inFlight (sgate s) \<le> max 0 (maxJobs (sgate s)) \<and>
     queued (sgate s) \<le> max 0 (maxQueued (sgate s))"

text \<open>
  A waiter's channel is closed, so its \<open>select\<close> can proceed, or it is the channel that the next
  release or stop will close, and then no slot is free and the gate is open.
\<close>

definition chan_ok :: "admissionGate \<Rightarrow> nat \<Rightarrow> bool" where
  "chan_ok g b \<longleftrightarrow>
     b \<in> closed g \<or> (b = broadcast g \<and> maxJobs g \<le> inFlight g \<and> \<not> stopped g)"

definition chans_ok :: "gate_sys \<Rightarrow> bool" where
  "chans_ok s \<longleftrightarrow>
     closed (sgate s) \<subseteq> {..<broadcast (sgate s)} \<and>
     (\<forall>i b. pcs s i = Waiting b \<longrightarrow> chan_ok (sgate s) b) \<and> (\<forall>i. pcs s i \<noteq> Panicked)"

definition gate_inv :: "gate_sys \<Rightarrow> bool" where
  "gate_inv s \<longleftrightarrow> counts_ok s \<and> chans_ok s"

section \<open>Every step keeps the invariant\<close>

lemma waiting_upd [inv_simps]:
  "waiting (s\<lparr>sgate := g, pcs := (pcs s)(i := p)\<rparr>) =
     (if \<exists>b. p = Waiting b then insert i (waiting s) else waiting s - {i})"
  by (auto simp: waiting_def)

lemma running_upd [inv_simps]:
  "running (s\<lparr>sgate := g, pcs := (pcs s)(i := p)\<rparr>) =
     (if p = Running then insert i (running s) else running s - {i})"
  by (auto simp: running_def)

lemma waiting_iff: "i \<in> waiting s \<longleftrightarrow> (\<exists>b. pcs s i = Waiting b)"
  by (simp add: waiting_def)

lemma running_iff: "i \<in> running s \<longleftrightarrow> pcs s i = Running"
  by (simp add: running_def)

lemmas pc_sets = waiting_iff running_iff

lemma gate_inv_init: "gate_init n m s \<Longrightarrow> gate_inv s"
  by (simp add: gate_init_def gate_inv_def counts_ok_def chans_ok_def newAdmissionGate_def
      waiting_def running_def)

lemma broadcast_open: "chans_ok s \<Longrightarrow> broadcast (sgate s) \<notin> closed (sgate s)"
  by (auto simp: chans_ok_def)

lemma closed_below: "chans_ok s \<Longrightarrow> closed (sgate s) \<subseteq> {..<broadcast (sgate s)}"
  by (simp add: chans_ok_def)

lemma rebroadcast_some:
  "chans_ok s \<Longrightarrow> closed g = closed (sgate s) \<Longrightarrow> broadcast g = broadcast (sgate s) \<Longrightarrow>
   rebroadcast g = Some (g\<lparr>closed := insert (broadcast g) (closed g), broadcast := broadcast g + 1\<rparr>)"
  using broadcast_open [of s] by (simp add: rebroadcast_def)

lemma chans_okI:
  assumes "chans_ok s" and "closed g \<subseteq> {..<broadcast g}" and "p \<noteq> Panicked"
    and "\<And>j b. pcs s j = Waiting b \<Longrightarrow> chan_ok (sgate s) b \<Longrightarrow> chan_ok g b"
    and "\<And>b. p = Waiting b \<Longrightarrow> chan_ok g b"
  shows "chans_ok (s\<lparr>sgate := g, pcs := (pcs s)(i := p)\<rparr>)"
  using assms by (auto simp: chans_ok_def)

lemma chans_ok_gateI:
  assumes "chans_ok s" and "closed g \<subseteq> {..<broadcast g}"
    and "\<And>j b. pcs s j = Waiting b \<Longrightarrow> chan_ok (sgate s) b \<Longrightarrow> chan_ok g b"
  shows "chans_ok (s\<lparr>sgate := g\<rparr>)"
  using assms by (auto simp: chans_ok_def)

lemma waiting_card_pos:
  "counts_ok s \<Longrightarrow> i \<in> waiting s \<Longrightarrow> 0 < card (waiting s)"
  by (auto simp: counts_ok_def card_gt_0_iff)

lemma running_card_pos:
  "counts_ok s \<Longrightarrow> i \<in> running s \<Longrightarrow> 0 < card (running s)"
  by (auto simp: counts_ok_def card_gt_0_iff)

text \<open>With nobody queued there is no waiter whose channel could matter.\<close>

lemma not_queued: "counts_ok s \<Longrightarrow> \<not> 0 < queued (sgate s) \<Longrightarrow> pcs s j \<noteq> Waiting b"
  by (auto simp: counts_ok_def waiting_def)

lemma enter_inv:
  assumes inv: "gate_inv s" and pc: "pcs s i = Idle"
    and r: "acquire_enter (sgate s) = (r, g')"
  shows "gate_inv (s\<lparr>sgate := g', pcs := (pcs s)(i := pc_of r)\<rparr>)"
proof -
  have i: "i \<notin> waiting s" "i \<notin> running s" using pc by (simp_all add: pc_sets)
  have cs: "chans_ok s" using inv by (simp add: gate_inv_def)
  have "counts_ok (s\<lparr>sgate := g', pcs := (pcs s)(i := pc_of r)\<rparr>)"
    using inv r i
    by (auto simp: gate_inv_def counts_ok_def acquire_enter_def pc_of_def inv_simps split: if_splits)
  moreover have "chans_ok (s\<lparr>sgate := g', pcs := (pcs s)(i := pc_of r)\<rparr>)"
    by (rule chans_okI)
      (use cs closed_below [OF cs] r in \<open>auto simp: chan_ok_def acquire_enter_def pc_of_def
         split: if_splits\<close>)
  ultimately show ?thesis by (simp add: gate_inv_def)
qed

lemma cancel_inv:
  assumes inv: "gate_inv s" and pc: "pcs s i = Waiting b"
    and r: "acquire_cancel (sgate s) = (r, g')"
  shows "gate_inv (s\<lparr>sgate := g', pcs := (pcs s)(i := pc_of r)\<rparr>)"
proof -
  have i: "i \<in> waiting s" "i \<notin> running s" using pc by (simp_all add: pc_sets)
  have cs: "chans_ok s" using inv by (simp add: gate_inv_def)
  have "counts_ok (s\<lparr>sgate := g', pcs := (pcs s)(i := pc_of r)\<rparr>)"
    using inv r i waiting_card_pos [of s i]
    by (auto simp: gate_inv_def counts_ok_def acquire_cancel_def pc_of_def inv_simps of_nat_diff)
  moreover have "chans_ok (s\<lparr>sgate := g', pcs := (pcs s)(i := pc_of r)\<rparr>)"
    by (rule chans_okI)
      (use cs closed_below [OF cs] r in \<open>auto simp: chan_ok_def acquire_cancel_def pc_of_def\<close>)
  ultimately show ?thesis by (simp add: gate_inv_def)
qed

lemma wake_inv:
  assumes inv: "gate_inv s" and pc: "pcs s i = Waiting b"
    and r: "acquire_wake (sgate s) = (r, g')"
  shows "gate_inv (s\<lparr>sgate := g', pcs := (pcs s)(i := pc_of r)\<rparr>)"
proof -
  have i: "i \<in> waiting s" "i \<notin> running s" using pc by (simp_all add: pc_sets)
  have cs: "chans_ok s" using inv by (simp add: gate_inv_def)
  have "counts_ok (s\<lparr>sgate := g', pcs := (pcs s)(i := pc_of r)\<rparr>)"
    using inv r i waiting_card_pos [of s i]
    by (auto simp: gate_inv_def counts_ok_def acquire_wake_def pc_of_def inv_simps of_nat_diff
        insert_absorb split: if_splits)
  moreover have "chans_ok (s\<lparr>sgate := g', pcs := (pcs s)(i := pc_of r)\<rparr>)"
    by (rule chans_okI)
      (use cs closed_below [OF cs] r in \<open>auto simp: chan_ok_def acquire_wake_def pc_of_def
         split: if_splits\<close>)
  ultimately show ?thesis by (simp add: gate_inv_def)
qed

lemma release_cases:
  assumes "chans_ok s" and "release (sgate s) = Some g'"
  shows "queued (sgate s) \<le> 0 \<and> g' = (sgate s)\<lparr>inFlight := inFlight (sgate s) - 1\<rparr> \<or>
    0 < queued (sgate s) \<and>
    g' = (sgate s)\<lparr>inFlight := inFlight (sgate s) - 1,
           closed := insert (broadcast (sgate s)) (closed (sgate s)),
           broadcast := broadcast (sgate s) + 1\<rparr>"
  using assms broadcast_open [OF assms(1)]
  by (auto simp: release_def Let_def rebroadcast_def split: if_splits)

lemma finish_inv:
  assumes inv: "gate_inv s" and pc: "pcs s i = Running"
    and r: "release (sgate s) = Some g'"
  shows "gate_inv (s\<lparr>sgate := g', pcs := (pcs s)(i := Finished)\<rparr>)"
proof -
  have i: "i \<notin> waiting s" "i \<in> running s" using pc by (simp_all add: pc_sets)
  have cs: "counts_ok s" "chans_ok s" using inv by (simp_all add: gate_inv_def)
  have "counts_ok (s\<lparr>sgate := g', pcs := (pcs s)(i := Finished)\<rparr>)"
    using cs release_cases [OF cs(2) r] i running_card_pos [OF cs(1) i(2)]
    by (auto simp: counts_ok_def inv_simps of_nat_diff)
  moreover have "chans_ok (s\<lparr>sgate := g', pcs := (pcs s)(i := Finished)\<rparr>)"
    by (rule chans_okI [OF cs(2)])
      (use release_cases [OF cs(2) r] closed_below [OF cs(2)] not_queued [OF cs(1)] in
        \<open>auto simp: chan_ok_def\<close>)
  ultimately show ?thesis by (simp add: gate_inv_def)
qed

lemma release_total: "gate_inv s \<Longrightarrow> release (sgate s) \<noteq> None"
  using rebroadcast_some [of s "(sgate s)\<lparr>inFlight := inFlight (sgate s) - 1\<rparr>"]
  by (auto simp: gate_inv_def release_def Let_def)

lemma Stop_total: "gate_inv s \<Longrightarrow> Stop (sgate s) \<noteq> None"
  using rebroadcast_some [of s "(sgate s)\<lparr>stopped := True\<rparr>"]
  by (auto simp: gate_inv_def Stop_def Let_def)

lemma Stop_cases:
  assumes "chans_ok s" and "Stop (sgate s) = Some g'"
  shows "queued (sgate s) \<le> 0 \<and> g' = (sgate s)\<lparr>stopped := True\<rparr> \<or>
    0 < queued (sgate s) \<and>
    g' = (sgate s)\<lparr>stopped := True,
           closed := insert (broadcast (sgate s)) (closed (sgate s)),
           broadcast := broadcast (sgate s) + 1\<rparr>"
  using assms broadcast_open [OF assms(1)]
  by (auto simp: Stop_def Let_def rebroadcast_def split: if_splits)

lemma stop_inv:
  assumes inv: "gate_inv s" and r: "Stop (sgate s) = Some g'"
  shows "gate_inv (s\<lparr>sgate := g'\<rparr>)"
proof -
  have cs: "counts_ok s" "chans_ok s" using inv by (simp_all add: gate_inv_def)
  have w: "waiting (s\<lparr>sgate := g'\<rparr>) = waiting s" "running (s\<lparr>sgate := g'\<rparr>) = running s"
    by (simp_all add: waiting_def running_def)
  have "counts_ok (s\<lparr>sgate := g'\<rparr>)"
    using cs Stop_cases [OF cs(2) r] w by (auto simp: counts_ok_def)
  moreover have "chans_ok (s\<lparr>sgate := g'\<rparr>)"
    by (rule chans_ok_gateI [OF cs(2)])
      (use Stop_cases [OF cs(2) r] closed_below [OF cs(2)] not_queued [OF cs(1)] in
        \<open>auto simp: chan_ok_def\<close>)
  ultimately show ?thesis by (simp add: gate_inv_def)
qed

lemma disconnect_inv: "gate_inv s \<Longrightarrow> gate_inv (s\<lparr>ctx_done := d\<rparr>)"
  by (simp add: gate_inv_def counts_ok_def chans_ok_def waiting_def running_def)

lemma gate_step_inv: "gate_step s t \<Longrightarrow> gate_inv s \<Longrightarrow> gate_inv t"
proof (induction rule: gate_step.induct)
  case (finish_panic s i)
  then show ?case using release_total by blast
qed (auto intro: enter_inv cancel_inv wake_inv finish_inv stop_inv disconnect_inv)

interpretation adm: invariant_system "gate_init n m" gate_step gate_inv
  by unfold_locales (auto intro: gate_inv_init gate_step_inv)

lemma gate_limits:
  "gate_step s t \<Longrightarrow> maxJobs (sgate t) = maxJobs (sgate s) \<and> maxQueued (sgate t) = maxQueued (sgate s)"
  by (auto elim!: gate_stepE
      simp: acquire_enter_def acquire_cancel_def acquire_wake_def release_def Stop_def Let_def
        rebroadcast_def split: if_splits)

lemma gate_limits_reach:
  "reach (gate_init n m) gate_step s \<Longrightarrow> maxJobs (sgate s) = n \<and> maxQueued (sgate s) = m"
  by (induction rule: reach.induct) (auto simp: gate_init_def newAdmissionGate_def gate_limits)

section \<open>A run with two requests\<close>

text \<open>
  One slot and one place in the queue: request 0 is admitted, request 1 waits, request 0 finishes
  and its release wakes request 1.
\<close>

definition two_requests :: "nat \<Rightarrow> pc" where
  "two_requests i = (if i = 0 then Finished else if i = 1 then Waiting 0 else Idle)"

definition woken :: gate_sys where
  "woken =
     \<lparr>sgate = (newAdmissionGate 1 1)\<lparr>inFlight := 0, queued := 1, metrics_Queued := 1,
        broadcast := 1, closed := {0}\<rparr>,
      pcs = two_requests, ctx_done = {}\<rparr>"

definition held_up :: gate_sys where
  "held_up = \<lparr>sgate = (newAdmissionGate 1 1)\<lparr>inFlight := 1, queued := 1, metrics_Queued := 1\<rparr>,
     pcs = (\<lambda>_. Idle)(0 := Running, 1 := Waiting 0), ctx_done = {}\<rparr>"

lemma held_up_reachable: "reach (gate_init 1 1) gate_step held_up"
proof -
  let ?g0 = "newAdmissionGate 1 1"
  let ?s0 = "\<lparr>sgate = ?g0, pcs = (\<lambda>_. Idle), ctx_done = {}\<rparr>"
  let ?g1 = "?g0\<lparr>inFlight := 1\<rparr>"
  let ?s1 = "\<lparr>sgate = ?g1, pcs = (\<lambda>_. Idle)(0 := Running), ctx_done = {}\<rparr>"
  let ?g2 = "?g1\<lparr>queued := 1, metrics_Queued := 1\<rparr>"
  have r0: "reach (gate_init 1 1) gate_step ?s0"
    by (rule reach_init) (simp add: gate_init_def)
  have s1: "gate_step ?s0 ?s1"
    using gate_step.enter [of ?s0 0 Admitted ?g1]
    by (simp add: acquire_enter_def newAdmissionGate_def pc_of_def)
  have s2: "gate_step ?s1 held_up"
    using gate_step.enter [of ?s1 1 "WaitOn 0" ?g2]
    by (simp add: acquire_enter_def newAdmissionGate_def pc_of_def held_up_def)
  show ?thesis by (rule reach_step [OF reach_step [OF r0 s1] s2])
qed

lemma woken_reachable: "reach (gate_init 1 1) gate_step woken"
proof -
  let ?g2 = "sgate held_up"
  have "woken = held_up\<lparr>sgate := ?g2\<lparr>inFlight := 0, closed := {0}, broadcast := 1\<rparr>, pcs := (pcs held_up)(0 := Finished)\<rparr>"
    by (simp add: woken_def two_requests_def fun_eq_iff newAdmissionGate_def held_up_def)
  then have s3: "gate_step held_up woken"
    using gate_step.finish [of held_up 0 "?g2\<lparr>inFlight := 0, closed := {0}, broadcast := 1\<rparr>"]
    by (simp add: release_def rebroadcast_def newAdmissionGate_def Let_def held_up_def)
  show ?thesis by (rule reach_step [OF held_up_reachable s3])
qed

section \<open>Properties\<close>

text \<open>
  C2. In every reachable state of the gate the two counters are the numbers of requests that run and
  that wait, the exported queue gauge agrees with the queue, and neither limit is exceeded. No
  request has closed a closed channel, and neither the next \<open>release\<close> nor the next \<open>Stop\<close> will.
\<close>

theorem gate_counters_exact:
  assumes "reach (gate_init n m) gate_step s"
  shows "inFlight (sgate s) = int (card (running s)) \<and> queued (sgate s) = int (card (waiting s)) \<and>
    metrics_Queued (sgate s) = queued (sgate s) \<and>
    inFlight (sgate s) \<le> max 0 n \<and> queued (sgate s) \<le> max 0 m \<and>
    (\<forall>i. pcs s i \<noteq> Panicked) \<and> release (sgate s) \<noteq> None \<and> Stop (sgate s) \<noteq> None"
  using adm.inv_reach [OF assms] gate_limits_reach [OF assms] release_total Stop_total
  by (simp add: gate_inv_def counts_ok_def chans_ok_def)

theorem gate_counters_exact_witness:
  "inFlight (sgate held_up) = int (card (running held_up)) \<and>
   queued (sgate held_up) = int (card (waiting held_up)) \<and>
   metrics_Queued (sgate held_up) = queued (sgate held_up) \<and>
   inFlight (sgate held_up) \<le> max 0 1 \<and> queued (sgate held_up) \<le> max 0 1 \<and>
   (\<forall>i. pcs held_up i \<noteq> Panicked) \<and> release (sgate held_up) \<noteq> None \<and> Stop (sgate held_up) \<noteq> None"
  by (rule gate_counters_exact [OF held_up_reachable])

text \<open>
  C3. No wake-up is lost: as long as a slot is free, or once the gate is stopped, the channel of
  every waiting request is closed, so its \<open>select\<close> can proceed.
\<close>

theorem no_lost_wakeup:
  assumes "reach (gate_init n m) gate_step s" and "pcs s i = Waiting b"
    and "inFlight (sgate s) < n \<or> stopped (sgate s)"
  shows "b \<in> closed (sgate s) \<and>
    (\<exists>t. gate_step s t \<and> (pcs t i = Running \<or> pcs t i = Rejected errShuttingDown))"
proof -
  have inv: "gate_inv s" and lim: "maxJobs (sgate s) = n"
    using adm.inv_reach [OF assms(1)] gate_limits_reach [OF assms(1)] by auto
  have ch: "chan_ok (sgate s) b" using inv assms(2) by (auto simp: gate_inv_def chans_ok_def)
  then have c: "b \<in> closed (sgate s)" using assms(3) lim by (auto simp: chan_ok_def)
  obtain r g' where w: "acquire_wake (sgate s) = (r, g')" by fastforce
  then have "pc_of r = Running \<or> pc_of r = Rejected errShuttingDown"
    using assms(3) lim by (auto simp: acquire_wake_def pc_of_def split: if_splits)
  with gate_step.wake [OF assms(2) c w] c show ?thesis
    by (intro conjI exI [of _ "s\<lparr>sgate := g', pcs := (pcs s)(i := pc_of r)\<rparr>"]) auto
qed

theorem no_lost_wakeup_witness:
  "0 \<in> closed (sgate woken) \<and>
   (\<exists>t. gate_step woken t \<and> (pcs t 1 = Running \<or> pcs t 1 = Rejected errShuttingDown))"
  by (rule no_lost_wakeup [OF woken_reachable])
     (simp_all add: woken_def two_requests_def newAdmissionGate_def)

end
