(* ===== verification/Capacity.thy ===== *)
theory Capacity
  imports Uidpool Admission
begin

text \<open>
  Why no admitted request ever finds the uid pool empty. The requests past the admission gate each
  hold a uid for their template jail and one per parallel test in flight; the gate admits at most
  \<open>maxJobs\<close> of them and \<open>effectiveParallel\<close> caps the tests at the number of CPUs. The pool is
  \<open>uidpool.New(uidpool.UidBudget())\<close>, and every uid comes from its \<open>Alloc\<close> and goes back by its
  \<open>Release\<close>, in any interleaving of the requests. The system is the gate of \<open>Admission\<close> with the uid
  holders of the running requests beside it.
\<close>

datatype owner = Tmpl nat | Worker nat nat

record cap_sys =
  c_pool :: Pool
  c_gate :: gate_sys
  c_held :: "owner \<rightharpoonup> int"
  c_failed :: bool

definition workers_of :: "nat \<Rightarrow> cap_sys \<Rightarrow> nat set" where
  "workers_of r s = {i. Worker r i \<in> dom (c_held s)}"

definition holds_none :: "nat \<Rightarrow> cap_sys \<Rightarrow> bool" where
  "holds_none r s \<longleftrightarrow> c_held s (Tmpl r) = None \<and> workers_of r s = {}"

definition cap_init :: "environ \<Rightarrow> int \<Rightarrow> cap_sys \<Rightarrow> bool" where
  "cap_init env numCPU s \<longleftrightarrow>
     gate_init (readMaxJobs env numCPU) (readMaxQueued env numCPU) (c_gate s) \<and>
     c_pool s = New env (UidBudget env numCPU) \<and> c_held s = Map.empty \<and> \<not> c_failed s"

text \<open>One call of \<open>uidPool.Alloc\<close> on behalf of \<open>ow\<close>.\<close>

definition take_uid :: "owner \<Rightarrow> cap_sys \<Rightarrow> cap_sys" where
  "take_uid ow s =
     (case Alloc (c_pool s) of
        (Inl e, p) \<Rightarrow> s\<lparr>c_pool := p, c_failed := True\<rparr>
      | (Inr u, p) \<Rightarrow> s\<lparr>c_pool := p, c_held := (c_held s)(ow \<mapsto> u)\<rparr>)"

definition give_uid :: "owner \<Rightarrow> cap_sys \<Rightarrow> cap_sys" where
  "give_uid ow s =
     (case c_held s ow of
        None \<Rightarrow> s
      | Some u \<Rightarrow> s\<lparr>c_pool := Release u (c_pool s), c_held := (c_held s)(ow := None)\<rparr>)"

text \<open>
  The gate moves on its own, except that a request leaves it (the deferred \<open>release\<close>) only after
  \<open>ExecuteRun\<close> has given back what it took.
\<close>

inductive cap_step :: "int \<Rightarrow> cap_sys \<Rightarrow> cap_sys \<Rightarrow> bool" for numCPU :: int where
  gate_moves: "cap_step numCPU s (s\<lparr>c_gate := g\<rparr>)"
    if "gate_step (c_gate s) g" and "\<forall>r \<in> running (c_gate s) - running g. holds_none r s"
| template: "cap_step numCPU s (take_uid (Tmpl r) s)"
    if "r \<in> running (c_gate s)" and "c_held s (Tmpl r) = None"
| test_start: "cap_step numCPU s (take_uid (Worker r i) s)"
    if "r \<in> running (c_gate s)" and "c_held s (Worker r i) = None"
      and "int (card (workers_of r s)) < numCPU"
| give: "cap_step numCPU s (give_uid ow s)"

inductive_cases cap_stepE: "cap_step numCPU s t"

definition own :: "nat \<Rightarrow> owner set" where
  "own r = insert (Tmpl r) (range (Worker r))"

lemma own_mem [simp]: "Tmpl r \<in> own r" "Worker r i \<in> own r"
  by (simp_all add: own_def)

definition cap_inv :: "int \<Rightarrow> int \<Rightarrow> cap_sys \<Rightarrow> bool" where
  "cap_inv mj numCPU s \<longleftrightarrow>
     gate_inv (c_gate s) \<and> maxJobs (sgate (c_gate s)) = mj \<and>
     pool_wf (c_pool s) \<and> mj * (numCPU + 1) \<le> psize (c_pool s) \<and>
     finite (dom (c_held s)) \<and> dom (c_held s) \<subseteq> \<Union> (own ` running (c_gate s)) \<and>
     (\<forall>r. int (card (workers_of r s)) \<le> numCPU) \<and>
     inUse (c_pool s) = ran (c_held s) \<and> inj_on (c_held s) (dom (c_held s)) \<and>
     \<not> c_failed s"

lemma running_bound:
  assumes "gate_inv g"
  shows "finite (running g)" and "int (card (running g)) \<le> max 0 (maxJobs (sgate g))"
  using assms by (auto simp: gate_inv_def counts_ok_def)

lemma held_own: "dom (c_held s) \<inter> own r \<subseteq> insert (Tmpl r) (Worker r ` workers_of r s)"
  by (auto simp: own_def workers_of_def)

lemma finite_workers: "finite (dom (c_held s)) \<Longrightarrow> finite (workers_of r s)"
  by (rule finite_imageD [of "Worker r"])
     (auto simp: workers_of_def inj_on_def intro: finite_subset [of _ "dom (c_held s)"])

lemma card_own:
  assumes "finite (dom (c_held s))"
  shows "card (dom (c_held s) \<inter> own r) \<le> Suc (card (workers_of r s))"
    and "c_held s (Tmpl r) = None \<Longrightarrow> card (dom (c_held s) \<inter> own r) \<le> card (workers_of r s)"
proof -
  have f: "finite (Worker r ` workers_of r s)" using finite_workers [OF assms] by simp
  have c: "card (Worker r ` workers_of r s) \<le> card (workers_of r s)"
    by (rule card_image_le [OF finite_workers [OF assms]])
  have "card (dom (c_held s) \<inter> own r) \<le> card (insert (Tmpl r) (Worker r ` workers_of r s))"
    by (rule card_mono [OF _ held_own]) (use f in simp)
  also have "\<dots> \<le> Suc (card (workers_of r s))" using f c by (simp add: card_insert_if)
  finally show "card (dom (c_held s) \<inter> own r) \<le> Suc (card (workers_of r s))" .
  assume "c_held s (Tmpl r) = None"
  then have "dom (c_held s) \<inter> own r \<subseteq> Worker r ` workers_of r s"
    using held_own [of s r] by (auto simp: domIff)
  then have "card (dom (c_held s) \<inter> own r) \<le> card (Worker r ` workers_of r s)"
    by (rule card_mono [OF f])
  with c show "card (dom (c_held s) \<inter> own r) \<le> card (workers_of r s)" by simp
qed

text \<open>While a request may still take a uid, not all of the pool's uids are out.\<close>

lemma room:
  assumes inv: "cap_inv mj nc s" and r: "r \<in> running (c_gate s)"
    and own: "int (card (dom (c_held s) \<inter> own r)) \<le> nc"
  shows "int (card (inUse (c_pool s))) < psize (c_pool s)"
proof -
  let ?A = "running (c_gate s)" and ?D = "dom (c_held s)"
  have fin: "finite ?A" "finite ?D" using inv running_bound(1) by (auto simp: cap_inv_def)
  have each: "int (card (?D \<inter> own k)) \<le> nc + 1" for k
  proof -
    have "int (card (workers_of k s)) \<le> nc" using inv by (simp add: cap_inv_def)
    with card_own(1) [OF fin(2), of k] show ?thesis by linarith
  qed
  have "?D \<subseteq> (\<Union>k\<in>?A. ?D \<inter> own k)" using inv by (auto simp: cap_inv_def)
  then have "card ?D \<le> card (\<Union>k\<in>?A. ?D \<inter> own k)"
    using fin by (intro card_mono) auto
  also have "\<dots> \<le> (\<Sum>k\<in>?A. card (?D \<inter> own k))" by (rule card_UN_le [OF fin(1)])
  also have "\<dots> = card (?D \<inter> own r) + (\<Sum>k\<in>?A - {r}. card (?D \<inter> own k))"
    by (rule sum.remove [OF fin(1) r])
  finally have "int (card ?D) \<le> int (card (?D \<inter> own r)) + (\<Sum>k\<in>?A - {r}. int (card (?D \<inter> own k)))"
    by (simp flip: of_nat_sum)
  also have "(\<Sum>k\<in>?A - {r}. int (card (?D \<inter> own k))) \<le> (\<Sum>k\<in>?A - {r}. nc + 1)"
    by (rule sum_mono) (rule each)
  also have "\<dots> = int (card (?A - {r})) * (nc + 1)" by simp
  also have "int (card (?A - {r})) = int (card ?A) - 1"
    using r fin(1) card_gt_0_iff [of ?A] by (subst card_Diff_singleton) auto
  finally have "int (card ?D) \<le> nc + (int (card ?A) - 1) * (nc + 1)" using own by simp
  then have "int (card ?D) < int (card ?A) * (nc + 1)" by (simp add: algebra_simps)
  also have "\<dots> \<le> mj * (nc + 1)"
  proof (rule mult_right_mono)
    have "0 < card ?A" using r fin(1) card_gt_0_iff [of ?A] by auto
    moreover have "int (card ?A) \<le> max 0 mj"
      using inv running_bound(2) [of "c_gate s"] by (simp add: cap_inv_def)
    ultimately show "int (card ?A) \<le> mj" by (auto simp: max_def split: if_splits)
    show "0 \<le> nc + 1" using own by linarith
  qed
  also have "\<dots> \<le> psize (c_pool s)" using inv by (simp add: cap_inv_def)
  finally have "int (card ?D) < psize (c_pool s)" .
  moreover have "card (inUse (c_pool s)) = card ?D"
  proof -
    have "inUse (c_pool s) = ran (c_held s)" "inj_on (c_held s) ?D" using inv by (auto simp: cap_inv_def)
    moreover have "ran (c_held s) = the ` c_held s ` ?D" by (force simp: ran_def image_iff)
    moreover have "inj_on the (c_held s ` ?D)" by (rule inj_onI) auto
    ultimately show ?thesis by (simp add: card_image)
  qed
  ultimately show ?thesis by simp
qed

section \<open>Every step keeps the invariant\<close>

lemma take_uid_ok:
  assumes inv: "cap_inv mj nc s" and r: "r \<in> running (c_gate s)"
    and own: "int (card (dom (c_held s) \<inter> own r)) \<le> nc"
  obtains u p where "Alloc (c_pool s) = (Inr u, p)" and "pool_wf p" and "psize p = psize (c_pool s)"
    and "u \<notin> ran (c_held s)" and "inUse p = insert u (ran (c_held s))"
    and "\<And>ow. take_uid ow s = s\<lparr>c_pool := p, c_held := (c_held s)(ow \<mapsto> u)\<rparr>"
proof -
  have wf: "pool_wf (c_pool s)" and use: "inUse (c_pool s) = ran (c_held s)"
    using inv by (auto simp: cap_inv_def)
  have "card (inUse (c_pool s)) < nat (psize (c_pool s))" using room [OF inv r own] by linarith
  then obtain u p where a: "Alloc (c_pool s) = (Inr u, p)" using pool.alloc_succeeds [OF wf] by blast
  note ok = Alloc_ok [OF wf a]
  show ?thesis
    by (rule that [OF a]) (use ok use in \<open>simp_all add: take_uid_def a\<close>)
qed

lemma workers_of_upd:
  "workers_of r (s\<lparr>c_pool := p, c_held := (c_held s)(ow \<mapsto> u)\<rparr>) =
     (case ow of Worker r' i \<Rightarrow> if r' = r then insert i (workers_of r s) else workers_of r s
      | Tmpl r' \<Rightarrow> workers_of r s)"
  by (auto simp: workers_of_def split: owner.splits)

text \<open>Taking a uid for an owner of a running request, with room for one more worker.\<close>

lemma cap_inv_take:
  assumes inv: "cap_inv mj nc s" and r: "r \<in> running (c_gate s)" and ow: "ow \<in> own r"
    and none: "c_held s ow = None" and own: "int (card (dom (c_held s) \<inter> own r)) \<le> nc"
    and w: "\<And>i. ow = Worker r i \<Longrightarrow> int (card (workers_of r s)) < nc"
  shows "cap_inv mj nc (take_uid ow s)"
proof -
  obtain u p where t: "pool_wf p" "psize p = psize (c_pool s)" "u \<notin> ran (c_held s)"
    "inUse p = insert u (ran (c_held s))" "take_uid ow s = s\<lparr>c_pool := p, c_held := (c_held s)(ow \<mapsto> u)\<rparr>"
    by (rule take_uid_ok [OF inv r own]) blast
  have fin: "finite (workers_of k s)" for k using inv finite_workers by (simp add: cap_inv_def)
  have work: "int (card (workers_of k (take_uid ow s))) \<le> nc" for k
  proof -
    have k: "int (card (workers_of k s)) \<le> nc" using inv by (simp add: cap_inv_def)
    show ?thesis
      using k w ow fin [of k] unfolding t(5) workers_of_upd
      by (auto simp: own_def card_insert_if split: owner.splits)
  qed
  have "inj_on ((c_held s)(ow \<mapsto> u)) (dom ((c_held s)(ow \<mapsto> u)))"
  proof -
    have "inj_on (c_held s) (dom (c_held s))" using inv by (simp add: cap_inv_def)
    then show ?thesis
      using none t(3) by (auto simp: inj_on_def ran_def domIff split: if_splits)
  qed
  moreover have "dom ((c_held s)(ow \<mapsto> u)) \<subseteq> \<Union> (own ` running (c_gate s))"
    using inv ow r by (auto simp: cap_inv_def)
  ultimately show ?thesis
    using inv work t none unfolding cap_inv_def by (simp add: ran_map_upd)
qed

lemma workers_of_give: "workers_of r (give_uid ow s) \<subseteq> workers_of r s"
  by (auto simp: workers_of_def give_uid_def split: option.splits if_splits)

lemma cap_inv_give:
  assumes inv: "cap_inv mj nc s"
  shows "cap_inv mj nc (give_uid ow s)"
proof (cases "c_held s ow")
  case None
  with inv show ?thesis by (simp add: give_uid_def)
next
  case (Some u)
  have wf: "pool_wf (c_pool s)" using inv by (simp add: cap_inv_def)
  have inj: "inj_on (c_held s) (dom (c_held s))" using inv by (simp add: cap_inv_def)
  have r: "ran ((c_held s)(ow := None)) = ran (c_held s) - {u}"
  proof (intro set_eqI iffI)
    fix v assume "v \<in> ran ((c_held s)(ow := None))"
    then obtain k where "k \<noteq> ow" "c_held s k = Some v" by (auto simp: ran_def split: if_splits)
    moreover from this have "v \<noteq> u" using inj Some by (auto simp: inj_on_def dom_def)
    ultimately show "v \<in> ran (c_held s) - {u}" by (auto simp: ran_def)
  next
    fix v assume "v \<in> ran (c_held s) - {u}"
    then obtain k where k: "c_held s k = Some v" "v \<noteq> u" by (auto simp: ran_def)
    then have "((c_held s)(ow := None)) k = Some v" using Some by auto
    then show "v \<in> ran ((c_held s)(ow := None))" by (rule ranI)
  qed
  have work: "int (card (workers_of k (give_uid ow s))) \<le> nc" for k
  proof -
    have "card (workers_of k (give_uid ow s)) \<le> card (workers_of k s)"
      by (rule card_mono [OF _ workers_of_give]) (use inv finite_workers in \<open>simp add: cap_inv_def\<close>)
    moreover have "int (card (workers_of k s)) \<le> nc" using inv by (simp add: cap_inv_def)
    ultimately show ?thesis by linarith
  qed
  have "inj_on ((c_held s)(ow := None)) (dom ((c_held s)(ow := None)))"
    using inj by (auto simp: inj_on_def)
  with inv work Some r Release_inUse [OF wf, of u] show ?thesis
    unfolding cap_inv_def by (auto simp: give_uid_def)
qed

lemma cap_inv_gate:
  assumes inv: "cap_inv mj nc s" and g: "gate_step (c_gate s) g"
    and left: "\<forall>r \<in> running (c_gate s) - running g. holds_none r s"
  shows "cap_inv mj nc (s\<lparr>c_gate := g\<rparr>)"
proof -
  have "gate_inv g" "maxJobs (sgate g) = mj"
    using inv g adm.inv_step gate_limits [OF g] by (auto simp: cap_inv_def)
  moreover have "dom (c_held s) \<subseteq> \<Union> (own ` running g)"
  proof
    fix ow assume d: "ow \<in> dom (c_held s)"
    then obtain r where r: "r \<in> running (c_gate s)" "ow \<in> own r" using inv by (auto simp: cap_inv_def)
    have "\<not> holds_none r s" using d r(2) by (auto simp: holds_none_def own_def workers_of_def)
    with left r show "ow \<in> \<Union> (own ` running g)" by blast
  qed
  moreover have "workers_of r (s\<lparr>c_gate := g\<rparr>) = workers_of r s" for r by (simp add: workers_of_def)
  ultimately show ?thesis using inv by (simp add: cap_inv_def)
qed

lemma cap_inv_step:
  assumes "cap_step nc s t" and inv: "cap_inv mj nc s"
  shows "cap_inv mj nc t"
  using assms(1)
proof (cases rule: cap_step.cases)
  case (gate_moves g)
  then show ?thesis using cap_inv_gate [OF inv] by simp
next
  case (template r)
  have "finite (dom (c_held s))" "int (card (workers_of r s)) \<le> nc" using inv by (auto simp: cap_inv_def)
  then have "int (card (dom (c_held s) \<inter> own r)) \<le> nc"
    using card_own(2) [of s r] template(3) by simp
  with template show ?thesis by (auto intro!: cap_inv_take [OF inv, of r])
next
  case (test_start r i)
  have "finite (dom (c_held s))" using inv by (auto simp: cap_inv_def)
  then have "int (card (dom (c_held s) \<inter> own r)) \<le> nc"
    using card_own(1) [of s r] test_start(4) by simp
  with test_start show ?thesis by (auto intro!: cap_inv_take [OF inv, of r])
next
  case (give ow)
  then show ?thesis using cap_inv_give [OF inv] by simp
qed

text \<open>The configurations for which the range of uids is representable.\<close>

definition uid_range_ok :: "environ \<Rightarrow> int \<Rightarrow> bool" where
  "uid_range_ok env numCPU \<longleftrightarrow>
     0 < numCPU \<and> numCPU < max_int \<and>
     ConcurrentJobs env numCPU * (numCPU + 1) \<le> max_int div 2 \<and>
     minUid env + ConcurrentJobs env numCPU * (numCPU + 1) \<le> max_int"

lemma cap_inv_init:
  assumes init: "cap_init env nc s" and ok: "uid_range_ok env nc"
  shows "cap_inv (readMaxJobs env nc) nc s"
proof -
  let ?n = "ConcurrentJobs env nc * (nc + 1)"
  have nc: "0 < nc" "nc < max_int" using ok by (auto simp: uid_range_ok_def)
  have b: "UidBudget env nc = ?n"
    using UidBudget_eq [OF nc, of env] ok by (simp add: uid_range_ok_def)
  have "0 < ConcurrentJobs env nc" using ConcurrentJobs_pos [of nc env] nc by simp
  then have n: "0 < ?n" using nc by simp
  have "pool_wf (New env ?n)"
    using ok n by (intro New_wf) (auto simp: uid_range_ok_def)
  moreover have "psize (New env ?n) = ?n" using n by (simp add: New_def)
  moreover have "inUse (New env ?n) = {}" by (simp add: New_def)
  moreover have "gate_inv (c_gate s)" "maxJobs (sgate (c_gate s)) = readMaxJobs env nc"
    using init adm.inv_init by (auto simp: cap_init_def gate_init_def newAdmissionGate_def)
  ultimately show ?thesis
    using init b nc by (simp add: cap_inv_def cap_init_def workers_of_def readMaxJobs_def ConcurrentJobs_def)
qed

text \<open>Initial states of a deployment whose range of uids is representable.\<close>

definition cap_start :: "environ \<Rightarrow> int \<Rightarrow> cap_sys \<Rightarrow> bool" where
  "cap_start env numCPU s \<longleftrightarrow> cap_init env numCPU s \<and> uid_range_ok env numCPU"

interpretation cap: invariant_system "cap_start env nc" "cap_step nc" "cap_inv (readMaxJobs env nc) nc"
  by unfold_locales (auto simp: cap_start_def intro: cap_inv_init cap_inv_step)

section \<open>A run\<close>

text \<open>Four CPUs and no settings: one request is admitted and takes the uid of its template jail.\<close>

definition quiet_env :: environ where
  "quiet_env = (\<lambda>_. [])"

definition first_state :: cap_sys where
  "first_state =
     \<lparr>c_pool = New quiet_env (UidBudget quiet_env 4),
      c_gate = \<lparr>sgate = newAdmissionGate (readMaxJobs quiet_env 4) (readMaxQueued quiet_env 4),
        pcs = (\<lambda>_. Idle), ctx_done = {}\<rparr>,
      c_held = Map.empty, c_failed = False\<rparr>"

definition admitted_state :: cap_sys where
  "admitted_state = first_state\<lparr>c_gate := (c_gate first_state)
     \<lparr>sgate := (sgate (c_gate first_state))\<lparr>inFlight := 1\<rparr>, pcs := (\<lambda>_. Idle)(0 := Running)\<rparr>\<rparr>"

lemma quiet_range: "uid_range_ok quiet_env 4"
  by (simp add: uid_range_ok_def quiet_env_def ConcurrentJobs_def minUid_def env_pos_def DefaultMinUid_def)

lemma admitted_reachable: "reach (cap_start quiet_env 4) (cap_step 4) admitted_state"
proof (rule reach_step)
  show "reach (cap_start quiet_env 4) (cap_step 4) first_state"
    by (rule reach_init) (simp add: cap_start_def cap_init_def quiet_range first_state_def gate_init_def)
  show "cap_step 4 first_state admitted_state"
    unfolding admitted_state_def
  proof (rule cap_step.gate_moves)
    let ?g = "c_gate first_state"
    show "gate_step ?g (?g\<lparr>sgate := (sgate ?g)\<lparr>inFlight := 1\<rparr>, pcs := (\<lambda>_. Idle)(0 := Running)\<rparr>)"
      using gate_step.enter [of ?g 0 Admitted "(sgate ?g)\<lparr>inFlight := 1\<rparr>"]
      by (simp add: first_state_def acquire_enter_def newAdmissionGate_def pc_of_def readMaxJobs_def
          quiet_env_def env_pos_def)
  qed (auto simp: running_def first_state_def)
qed

section \<open>Properties\<close>

text \<open>
  C1. The uid pool is never exhausted by admitted requests: in every reachable state of the gate and
  the pool together no \<open>Alloc\<close> has failed, the uids held are pairwise different and are exactly the
  pool's marks, and a request past the gate that asks for the uid of its template jail, or of a
  test while fewer than \<open>numCPU\<close> of its tests run, gets one.
\<close>

theorem alloc_never_fails:
  assumes "reach (cap_start env nc) (cap_step nc) s"
  shows "\<not> c_failed s \<and> inj_on (c_held s) (dom (c_held s)) \<and> inUse (c_pool s) = ran (c_held s) \<and>
    (\<forall>r \<in> running (c_gate s).
       (c_held s (Tmpl r) = None \<longrightarrow> (\<exists>u p. Alloc (c_pool s) = (Inr u, p))) \<and>
       (\<forall>i. c_held s (Worker r i) = None \<longrightarrow> int (card (workers_of r s)) < nc \<longrightarrow>
          (\<exists>u p. Alloc (c_pool s) = (Inr u, p))))"
proof -
  have ok: "\<exists>u p. Alloc (c_pool s) = (Inr u, p)" if "cap_step nc s (take_uid ow s)" for ow
  proof (rule ccontr)
    assume n: "\<nexists>u p. Alloc (c_pool s) = (Inr u, p)"
    obtain r p where a: "Alloc (c_pool s) = (r, p)" by fastforce
    with n obtain e where "r = Inl e" by (cases r) auto
    with a have "c_failed (take_uid ow s)" by (simp add: take_uid_def)
    moreover have "\<not> c_failed (take_uid ow s)"
      using cap.inv_reach [OF reach_step [OF assms that]] by (simp add: cap_inv_def)
    ultimately show False by simp
  qed
  from cap.inv_reach [OF assms] ok show ?thesis
    by (auto simp: cap_inv_def intro: cap_step.template cap_step.test_start)
qed

theorem alloc_never_fails_witness:
  "\<not> c_failed admitted_state \<and> inUse (c_pool admitted_state) = ran (c_held admitted_state) \<and>
   0 \<in> running (c_gate admitted_state) \<and> (\<exists>u p. Alloc (c_pool admitted_state) = (Inr u, p))"
proof -
  have "0 \<in> running (c_gate admitted_state)" and "c_held admitted_state (Tmpl 0) = None"
    by (simp_all add: running_def admitted_state_def first_state_def)
  with alloc_never_fails [OF admitted_reachable] show ?thesis by blast
qed

end
