(* ===== verification/Semaphore.thy ===== *)
theory Semaphore
  imports Admission
begin

text \<open>
  What the admission gate promises, without its lock, counters and channels: a semaphore with \<open>n\<close>
  slots and \<open>m\<close> places in a queue. A state says for each request how far it is, and whether the gate
  is open. The gate of \<open>Admission\<close> and this semaphore simulate each other, so the requests see
  exactly the behaviours of the semaphore.
\<close>

section \<open>The semaphore\<close>

datatype phase = Outside | Queueing | Holding | Left | Turned_away acquire_err | Crashed

record sem =
  phase_of :: "nat \<Rightarrow> phase"
  is_open :: bool

definition holders :: "sem \<Rightarrow> nat set" where
  "holders t = {i. phase_of t i = Holding}"

definition queue :: "sem \<Rightarrow> nat set" where
  "queue t = {i. phase_of t i = Queueing}"

definition slot_free :: "int \<Rightarrow> sem \<Rightarrow> bool" where
  "slot_free n t \<longleftrightarrow> int (card (holders t)) < n"

definition place_free :: "int \<Rightarrow> sem \<Rightarrow> bool" where
  "place_free m t \<longleftrightarrow> int (card (queue t)) < m"

abbreviation move :: "nat \<Rightarrow> phase \<Rightarrow> sem \<Rightarrow> sem" where
  "move i p t \<equiv> t\<lparr>phase_of := (phase_of t)(i := p)\<rparr>"

definition sem_init :: "sem \<Rightarrow> bool" where
  "sem_init t \<longleftrightarrow> t = \<lparr>phase_of = (\<lambda>_. Outside), is_open = True\<rparr>"

inductive sem_step :: "int \<Rightarrow> int \<Rightarrow> sem \<Rightarrow> sem \<Rightarrow> bool" for n m where
  admit: "phase_of t i \<in> {Outside, Queueing} \<Longrightarrow> is_open t \<Longrightarrow> slot_free n t \<Longrightarrow>
     sem_step n m t (move i Holding t)"
| enqueue: "phase_of t i = Outside \<Longrightarrow> is_open t \<Longrightarrow> \<not> slot_free n t \<Longrightarrow> place_free m t \<Longrightarrow>
     sem_step n m t (move i Queueing t)"
| full: "phase_of t i = Outside \<Longrightarrow> is_open t \<Longrightarrow> \<not> slot_free n t \<Longrightarrow> \<not> place_free m t \<Longrightarrow>
     sem_step n m t (move i (Turned_away errQueueFull) t)"
| shut: "phase_of t i \<in> {Outside, Queueing} \<Longrightarrow> \<not> is_open t \<Longrightarrow>
     sem_step n m t (move i (Turned_away errShuttingDown) t)"
| give_up: "phase_of t i = Queueing \<Longrightarrow> sem_step n m t (move i (Turned_away ctxErr) t)"
| leave: "phase_of t i = Holding \<Longrightarrow> sem_step n m t (move i Left t)"
| close: "sem_step n m t (t\<lparr>is_open := False\<rparr>)"

section \<open>The abstraction\<close>

fun phase_at :: "pc \<Rightarrow> phase" where
  "phase_at Idle = Outside"
| "phase_at (Waiting b) = Queueing"
| "phase_at Running = Holding"
| "phase_at Finished = Left"
| "phase_at (Rejected e) = Turned_away e"
| "phase_at Panicked = Crashed"

definition sem_of :: "gate_sys \<Rightarrow> sem" where
  "sem_of s = \<lparr>phase_of = (\<lambda>i. phase_at (pcs s i)), is_open = (\<not> stopped (sgate s))\<rparr>"

definition implements :: "int \<Rightarrow> int \<Rightarrow> gate_sys \<Rightarrow> sem \<Rightarrow> bool" where
  "implements n m s t \<longleftrightarrow>
     sem_of s = t \<and> gate_inv s \<and> maxJobs (sgate s) = n \<and> maxQueued (sgate s) = m"

lemma phase_iff [simp]:
  "phase_at p = Outside \<longleftrightarrow> p = Idle" "phase_at p = Queueing \<longleftrightarrow> (\<exists>b. p = Waiting b)"
  "phase_at p = Holding \<longleftrightarrow> p = Running"
  by (cases p; simp)+

lemma sem_of_sel [simp]:
  "phase_of (sem_of s) i = phase_at (pcs s i)" "is_open (sem_of s) \<longleftrightarrow> \<not> stopped (sgate s)"
  by (simp_all add: sem_of_def)

lemma sem_sets: "holders (sem_of s) = running s" "queue (sem_of s) = waiting s"
  by (simp_all add: holders_def queue_def running_def waiting_def)

text \<open>The limits of the semaphore are the comparisons the gate makes on its counters.\<close>

lemma gate_tests:
  assumes "gate_inv s"
  shows "slot_free (maxJobs (sgate s)) (sem_of s) \<longleftrightarrow> inFlight (sgate s) < maxJobs (sgate s)"
    and "place_free (maxQueued (sgate s)) (sem_of s) \<longleftrightarrow>
      \<not> (maxQueued (sgate s) \<le> 0 \<or> queued (sgate s) \<ge> maxQueued (sgate s))"
  using assms by (auto simp: slot_free_def place_free_def sem_sets gate_inv_def counts_ok_def)

lemma sem_of_move:
  "stopped g = stopped (sgate s) \<Longrightarrow>
   sem_of (s\<lparr>sgate := g, pcs := (pcs s)(i := p)\<rparr>) = move i (phase_at p) (sem_of s)"
  by (simp add: sem_of_def fun_eq_iff)

lemma sem_of_stop: "sem_of (s\<lparr>sgate := g\<rparr>) = (sem_of s)\<lparr>is_open := \<not> stopped g\<rparr>"
  by (simp add: sem_of_def)

lemma move_same: "phase_of t i = p \<Longrightarrow> move i p t = t"
  by (simp add: fun_upd_idem)

lemma region_stopped:
  "acquire_enter g = (r, g') \<Longrightarrow> stopped g' = stopped g"
  "acquire_wake g = (r, g') \<Longrightarrow> stopped g' = stopped g"
  "acquire_cancel g = (r, g') \<Longrightarrow> stopped g' = stopped g"
  "release g = Some g' \<Longrightarrow> stopped g' = stopped g"
  "Stop g = Some g' \<Longrightarrow> stopped g'"
  by (auto simp: acquire_enter_def acquire_wake_def acquire_cancel_def release_def Stop_def
      rebroadcast_def Let_def split: if_splits)

section \<open>Each region of the gate is a step of the semaphore\<close>

lemma enter_move:
  assumes "gate_inv s" and "pcs s i = Idle" and "acquire_enter (sgate s) = (r, g')"
  shows "sem_step (maxJobs (sgate s)) (maxQueued (sgate s)) (sem_of s) (move i (phase_at (pc_of r)) (sem_of s))"
  using assms(2,3) gate_tests [OF assms(1)]
  by (auto simp: acquire_enter_def pc_of_def split: if_splits intro!: sem_step.intros)

lemma wake_move:
  assumes "gate_inv s" and "pcs s i = Waiting b" and "acquire_wake (sgate s) = (r, g')"
  shows "(sem_step (maxJobs (sgate s)) (maxQueued (sgate s)))\<^sup>*\<^sup>* (sem_of s) (move i (phase_at (pc_of r)) (sem_of s))"
proof (cases "\<exists>c. r = WaitOn c")
  case True
  then show ?thesis using assms(2) by (auto simp: pc_of_def move_same)
next
  case False
  then show ?thesis using assms(2,3) gate_tests [OF assms(1)]
    by (auto simp: acquire_wake_def pc_of_def split: if_splits intro!: r_into_rtranclp sem_step.intros)
qed

lemma gate_step_sem:
  assumes "gate_step s s'" and inv: "gate_inv s"
  shows "(sem_step (maxJobs (sgate s)) (maxQueued (sgate s)))\<^sup>*\<^sup>* (sem_of s) (sem_of s')"
  using assms(1)
proof (cases rule: gate_step.cases)
  case (enter i r g')
  then show ?thesis
    using enter_move [OF inv] region_stopped(1) by (metis sem_of_move r_into_rtranclp)
next
  case (cancel i b r g')
  then have "sem_of s' = move i (Turned_away ctxErr) (sem_of s)"
    using region_stopped(3) by (auto simp: sem_of_move acquire_cancel_def pc_of_def)
  then show ?thesis using cancel by (auto intro!: r_into_rtranclp sem_step.give_up)
next
  case (wake i b r g')
  then show ?thesis using wake_move [OF inv] region_stopped(2) by (metis sem_of_move)
next
  case (finish i g')
  then show ?thesis
    using region_stopped(4) by (auto simp: sem_of_move intro!: r_into_rtranclp sem_step.leave)
next
  case (finish_panic i)
  then show ?thesis using release_total [OF inv] by simp
next
  case (stop g')
  then show ?thesis
    using region_stopped(5) by (auto simp: sem_of_stop intro!: r_into_rtranclp sem_step.close)
next
  case (disconnect i)
  then show ?thesis by (simp add: sem_of_def)
qed

interpretation gate_sem: simulation "gate_init n m" gate_step sem_init "sem_step n m" "implements n m"
proof (unfold_locales, goal_cases)
  case (1 s)
  then have "sem_init (sem_of s)" "implements n m s (sem_of s)"
    using gate_inv_init [OF 1]
    by (simp_all add: sem_init_def implements_def sem_of_def gate_init_def newAdmissionGate_def)
  then show ?case by (blast intro: reach_init)
next
  case (2 s s' t)
  then show ?case
    using gate_step_sem [OF 2(1)] gate_step_inv [OF 2(1)] gate_limits [OF 2(1)]
    by (auto simp: implements_def)
qed

section \<open>Each step of the semaphore is one of the gate\<close>

text \<open>
  A queued request that may hold a slot, or must leave, is one whose channel is closed: this is
  where the absence of lost wake-ups is needed.
\<close>

lemma wake_enabled:
  assumes "gate_inv s" and "pcs s i = Waiting b"
    and "inFlight (sgate s) < maxJobs (sgate s) \<or> stopped (sgate s)"
    and r: "acquire_wake (sgate s) = (r, g')"
  shows "\<exists>s'. gate_step\<^sup>*\<^sup>* s s' \<and> sem_of s' = move i (phase_at (pc_of r)) (sem_of s)"
proof -
  have "chan_ok (sgate s) b" using assms(1,2) by (auto simp: gate_inv_def chans_ok_def)
  with assms(3) have "b \<in> closed (sgate s)" by (auto simp: chan_ok_def)
  then have "gate_step s (s\<lparr>sgate := g', pcs := (pcs s)(i := pc_of r)\<rparr>)"
    by (rule gate_step.wake [OF assms(2) _ r])
  with sem_of_move [OF region_stopped(2) [OF r]] show ?thesis by blast
qed

lemma enter_enabled:
  assumes "pcs s i = Idle" and r: "acquire_enter (sgate s) = (r, g')"
  shows "\<exists>s'. gate_step\<^sup>*\<^sup>* s s' \<and> sem_of s' = move i (phase_at (pc_of r)) (sem_of s)"
  using gate_step.enter [OF assms] sem_of_move [OF region_stopped(1) [OF r]] by blast

lemma give_up_enabled:
  assumes "pcs s i = Waiting b"
  shows "\<exists>s'. gate_step\<^sup>*\<^sup>* s s' \<and> sem_of s' = move i (Turned_away ctxErr) (sem_of s)"
proof -
  let ?s = "s\<lparr>ctx_done := insert i (ctx_done s)\<rparr>"
  let ?t = "?s\<lparr>sgate := snd (acquire_cancel (sgate s)), pcs := (pcs s)(i := Rejected ctxErr)\<rparr>"
  have "gate_step s ?s" by (rule gate_step.disconnect)
  moreover have "gate_step ?s ?t"
    using gate_step.cancel [of ?s i b "Refused ctxErr"] assms by (simp add: acquire_cancel_def pc_of_def)
  ultimately have "gate_step\<^sup>*\<^sup>* s ?t" by (rule converse_rtranclp_into_rtranclp [OF _ r_into_rtranclp])
  moreover have "sem_of ?t = move i (Turned_away ctxErr) (sem_of s)"
    by (simp add: sem_of_def acquire_cancel_def fun_eq_iff)
  ultimately show ?thesis by blast
qed

lemma sem_step_gate:
  assumes "sem_step n m (sem_of s) t'" and inv: "gate_inv s"
    and lim: "maxJobs (sgate s) = n" "maxQueued (sgate s) = m"
  shows "\<exists>s'. gate_step\<^sup>*\<^sup>* s s' \<and> sem_of s' = t'"
proof -
  note free = gate_tests [OF inv, unfolded lim]
  obtain re ge where e: "acquire_enter (sgate s) = (re, ge)" by fastforce
  obtain rw gw where w: "acquire_wake (sgate s) = (rw, gw)" by fastforce
  show ?thesis
    using assms(1)
  proof (cases rule: sem_step.cases)
    case (admit i)
    then have "re = Admitted" "rw = Admitted" and f: "inFlight (sgate s) < maxJobs (sgate s)"
      using e w free lim by (auto simp: acquire_enter_def acquire_wake_def)
    then show ?thesis
      using admit enter_enabled [OF _ e, of i] wake_enabled [OF inv _ _ w, of i] by (auto simp: pc_of_def)
  next
    case (enqueue i)
    then have "re = WaitOn (broadcast (sgate s))" using e free lim by (auto simp: acquire_enter_def)
    then show ?thesis using enqueue enter_enabled [OF _ e, of i] by (simp add: pc_of_def)
  next
    case (full i)
    then have "re = Refused errQueueFull" using e free lim by (auto simp: acquire_enter_def)
    then show ?thesis using full enter_enabled [OF _ e, of i] by (simp add: pc_of_def)
  next
    case (shut i)
    then have "re = Refused errShuttingDown" "rw = Refused errShuttingDown"
      using e w by (auto simp: acquire_enter_def acquire_wake_def)
    then show ?thesis
      using shut enter_enabled [OF _ e, of i] wake_enabled [OF inv _ _ w, of i] by (auto simp: pc_of_def)
  next
    case (give_up i)
    then show ?thesis using give_up_enabled by auto
  next
    case (leave i)
    then have r: "pcs s i = Running" by simp
    obtain g' where g: "release (sgate s) = Some g'" using release_total [OF inv] by blast
    from gate_step.finish [OF r g] sem_of_move [OF region_stopped(4) [OF g], of i Finished] leave
    show ?thesis by (metis phase_at.simps(4) r_into_rtranclp)
  next
    case close
    obtain g' where g: "Stop (sgate s) = Some g'" using Stop_total [OF inv] by blast
    from gate_step.stop [OF g] sem_of_stop [of g' s] region_stopped(5) [OF g] close
    show ?thesis by (metis r_into_rtranclp)
  qed
qed

lemma gate_steps_kept:
  "gate_step\<^sup>*\<^sup>* s s' \<Longrightarrow> gate_inv s \<Longrightarrow>
   gate_inv s' \<and> maxJobs (sgate s') = maxJobs (sgate s) \<and> maxQueued (sgate s') = maxQueued (sgate s)"
  by (induction rule: rtranclp_induct) (auto simp: gate_limits gate_step_inv)

interpretation sem_gate: simulation sem_init "sem_step n m" "gate_init n m" gate_step "\<lambda>t s. implements n m s t"
proof (unfold_locales, goal_cases)
  case (1 t)
  let ?s = "\<lparr>sgate = newAdmissionGate n m, pcs = (\<lambda>_. Idle), ctx_done = {}\<rparr>"
  have "gate_init n m ?s" by (simp add: gate_init_def)
  moreover have "implements n m ?s t" using 1 gate_inv_init [OF calculation]
    by (simp add: sem_init_def implements_def sem_of_def newAdmissionGate_def)
  ultimately show ?case by (blast intro: reach_init)
next
  case (2 t t' s)
  then show ?case using sem_step_gate [of n m s t'] gate_steps_kept [of s] unfolding implements_def by metis
qed

section \<open>Properties\<close>

text \<open>
  C4. The gate implements a semaphore with \<open>n\<close> slots, a queue of \<open>m\<close> places and a switch that closes
  it: what requests can observe in a reachable state of the gate is exactly what they can observe in
  a reachable state of the semaphore, in both directions.
\<close>

theorem gate_is_semaphore:
  "reach sem_init (sem_step n m) t \<longleftrightarrow> (\<exists>s. reach (gate_init n m) gate_step s \<and> sem_of s = t)"
  using gate_sem.sim_reach [of n m] sem_gate.sim_reach [of n m] unfolding implements_def by blast

end
