(* ===== verification/Cgroup.thy ===== *)
theory Cgroup
  imports Prelude
begin

text \<open>
  The cgroup v2 manager of \<^verbatim>\<open>internal/cgroupv2/cgroupv2.go\<close>. The kernel's answers are arguments: the
  record \<open>probe_os\<close> holds the result of every system call of the start-up probe, in the order of the
  code, and the contents of the kernel's files are strings that the code parses. A cgroup directory
  is a tree; removing one is modelled on the tree. \<open>ProbeHog\<close> is the process the probe measures.
\<close>

section \<open>Reading the kernel's files\<close>

text \<open>The first two-field line with the given key; \<open>None\<close> when there is none.\<close>

fun find_key :: "string \<Rightarrow> string list \<Rightarrow> string option" where
  "find_key k [] = None"
| "find_key k (ln # lns) =
     (case Fields ln of
        [f0, f1] \<Rightarrow> if f0 = k then Some f1 else find_key k lns
      | _ \<Rightarrow> find_key k lns)"

definition CPUUsageUS :: "string go_result \<Rightarrow> int go_result" where
  "CPUUsageUS cpu_stat =
     (case cpu_stat of Inl e \<Rightarrow> Inl (''reading cpu.stat: '' @ e)
      | Inr b \<Rightarrow>
          (case find_key ''usage_usec'' (split_char CHR 0x0A b) of
             None \<Rightarrow> Inl ''usage_usec not found''
           | Some f \<Rightarrow>
               (case Atoi f of None \<Rightarrow> Inl ''parsing usage_usec'' | Some n \<Rightarrow> Inr n)))"

text \<open>Every \<open>oom_kill\<close> line of one leaf is added, with 64-bit unsigned wrap-around.\<close>

fun add_oom_lines :: "nat \<Rightarrow> string list \<Rightarrow> nat go_result" where
  "add_oom_lines tot [] = Inr tot"
| "add_oom_lines tot (ln # lns) =
     (case Fields ln of
        [f0, f1] \<Rightarrow>
          if f0 = ''oom_kill'' then
            (case ParseUint f1 of
               None \<Rightarrow> Inl ''parsing oom_kill''
             | Some n \<Rightarrow> add_oom_lines ((tot + n) mod 18446744073709551616) lns)
          else add_oom_lines tot lns
      | _ \<Rightarrow> add_oom_lines tot lns)"

text \<open>
  The directory entries with the content of their \<open>memory.events\<close>, \<open>None\<close> when it cannot be read.
\<close>

fun add_oom_entries :: "nat \<Rightarrow> (string \<times> string option) list \<Rightarrow> nat go_result" where
  "add_oom_entries tot [] = Inr tot"
| "add_oom_entries tot ((name, ev) # es) =
     (if \<not> has_prefix name ''NSJAIL.'' then add_oom_entries tot es
      else (case ev of None \<Rightarrow> add_oom_entries tot es
            | Some b \<Rightarrow>
                (case add_oom_lines tot (split_char CHR 0x0A b) of
                   Inl e \<Rightarrow> Inl e
                 | Inr t \<Rightarrow> add_oom_entries t es)))"

definition OOMKills :: "(string \<times> string option) list option \<Rightarrow> nat go_result" where
  "OOMKills entries = (case entries of None \<Rightarrow> Inr 0 | Some es \<Rightarrow> add_oom_entries 0 es)"

definition OOMKillsSince :: "nat \<Rightarrow> (string \<times> string option) list option \<Rightarrow> bool go_result" where
  "OOMKillsSince baseline entries =
     (case OOMKills entries of Inl e \<Rightarrow> Inl e | Inr n \<Rightarrow> Inr (n > baseline))"

definition PeakKB :: "string option \<Rightarrow> int" where
  "PeakKB memory_peak =
     (case memory_peak of None \<Rightarrow> 0
      | Some b \<Rightarrow>
          (case Atoi (TrimSpace b) of None \<Rightarrow> 0
           | Some n \<Rightarrow> if n \<le> 0 then 0 else go_div n 1024))"

definition ResetPeak :: "string option \<Rightarrow> string option" where
  "ResetPeak write_err = map_option (\<lambda>e. ''resetting memory.peak: '' @ e) write_err"

definition ResetCPU :: "string option \<Rightarrow> string option" where
  "ResetCPU write_err = map_option (\<lambda>e. ''resetting cpu.stat: '' @ e) write_err"

section \<open>The manager\<close>

record Manager =
  root :: string
  base :: string
  active :: bool
  cpuActive :: bool

definition Active :: "Manager \<Rightarrow> bool" where
  "Active m = active m"

definition Manager_CPUActive :: "Manager \<Rightarrow> bool" where
  "Manager_CPUActive m = (active m \<and> cpuActive m)"

record probe_os =
  os_statfs :: "int go_result"
  os_mkdir_base :: "string option"
  os_subtree_cpu :: "string option"
  os_subtree_plain :: "string option"
  os_mkdir_probe :: "string option"
  os_probe_subtree :: "bool \<Rightarrow> string option"
  os_mkdir_leaf :: "string option"
  os_memory_max :: "string option"
  os_swap_max :: "string option"
  os_stdin_pipe :: "string option"
  os_start_hog :: "string option"
  os_move_hog :: "string option"
  os_wait_hog :: "string option"
  os_memory_peak :: "string go_result"
  os_cpu_stat :: "string go_result"

definition cgroup2Magic :: int where
  "cgroup2Magic = 0x63677270"

definition baseName :: string where
  "baseName = ''goboxd''"

definition probeMinCPUUsageUS :: int where
  "probeMinCPUUsageUS = 1000000"

definition verifyCPU :: "probe_os \<Rightarrow> Manager \<Rightarrow> Manager" where
  "verifyCPU os m =
     (if \<not> cpuActive m then m
      else (case CPUUsageUS (os_cpu_stat os) of
              Inl e \<Rightarrow> m\<lparr>cpuActive := False\<rparr>
            | Inr us \<Rightarrow> if us < probeMinCPUUsageUS then m\<lparr>cpuActive := False\<rparr> else m))"

text \<open>A call whose error aborts the function.\<close>

fun first_failure :: "(string \<times> string option) list \<Rightarrow> string option" where
  "first_failure [] = None"
| "first_failure ((what, r) # rest) =
     (case r of Some e \<Rightarrow> Some (what @ e) | None \<Rightarrow> first_failure rest)"

definition verifyEnforcement :: "probe_os \<Rightarrow> Manager \<Rightarrow> string option \<times> Manager" where
  "verifyEnforcement os m =
     (case first_failure
         [(''creating probe dir: '', os_mkdir_probe os),
          (''enabling probe controllers: '', os_probe_subtree os (cpuActive m)),
          (''creating probe leaf: '', os_mkdir_leaf os),
          (''writing probe memory.max: '', os_memory_max os),
          (''writing probe memory.swap.max: '', os_swap_max os),
          (''probe hog stdin: '', os_stdin_pipe os),
          (''starting probe hog: '', os_start_hog os),
          (''moving hog into probe leaf: '', os_move_hog os),
          (''probe hog failed: '', os_wait_hog os)] of
        Some e \<Rightarrow> (Some e, m)
      | None \<Rightarrow>
          (case os_memory_peak os of
             Inl e \<Rightarrow> (Some (''reading probe memory.peak: '' @ e), m)
           | Inr b \<Rightarrow>
               (case Atoi (TrimSpace b) of
                  None \<Rightarrow> (Some ''parsing probe memory.peak'', m)
                | Some peak \<Rightarrow>
                    if peak < 8 * 1024 * 1024 then
                      (Some (''memory controller inert: hog touched 16MB but peak is '' @ Itoa peak @
                             '' bytes''), m)
                    else (None, verifyCPU os m))))"

definition probe :: "probe_os \<Rightarrow> Manager \<Rightarrow> string option \<times> Manager" where
  "probe os m =
     (case os_statfs os of
        Inl e \<Rightarrow> (Some (''statfs: '' @ e), m)
      | Inr ty \<Rightarrow>
          if ty \<noteq> cgroup2Magic then (Some ''not a cgroup2 filesystem'', m)
          else (case os_mkdir_base os of
                  Some e \<Rightarrow> (Some (''creating base: '' @ e), m)
                | None \<Rightarrow>
                    (case os_subtree_cpu os of
                       Some _ \<Rightarrow>
                         (case os_subtree_plain os of
                            Some e \<Rightarrow> (Some (''enabling memory+pids: '' @ e), m)
                          | None \<Rightarrow> verifyEnforcement os m)
                     | None \<Rightarrow> verifyEnforcement os (m\<lparr>cpuActive := True\<rparr>))))"

definition NewManager :: "environ \<Rightarrow> probe_os \<Rightarrow> string \<Rightarrow> Manager" where
  "NewManager env os rt =
     (let m = \<lparr>root = rt, base = path_join [rt, baseName], active = False, cpuActive = False\<rparr>
      in if env ''GOBOXD_CGROUPV2'' = ''off'' then m
         else (case probe os m of
                 (Some e, m') \<Rightarrow> m'
               | (None, m') \<Rightarrow> m'\<lparr>active := True\<rparr>))"

section \<open>The process the probe measures\<close>

text \<open>
  \<open>ProbeHog\<close>: \<open>released\<close> says that a byte arrived on its input, \<open>clock\<close> is what the spin loop reads in
  each round. The result holds the buffer offsets it wrote and the round it stopped in, \<open>None\<close> when
  \<open>fuel\<close> rounds did not reach the deadline.
\<close>

function hog_touch :: "nat \<Rightarrow> nat \<Rightarrow> nat list" where
  "hog_touch i n = (if i < n then i # hog_touch (i + 4096) n else [])"
  by pat_completeness auto
termination by (relation "measure (\<lambda>(i, n). n - i)") auto

declare hog_touch.simps [simp del]

fun hog_spin :: "nat \<Rightarrow> int \<Rightarrow> (nat \<Rightarrow> int) \<Rightarrow> nat \<Rightarrow> nat option" where
  "hog_spin 0 deadline clock k = None"
| "hog_spin (Suc fuel) deadline clock k =
     (if clock k < deadline then hog_spin fuel deadline clock (Suc k) else Some k)"

definition ProbeHog :: "nat \<Rightarrow> bool \<Rightarrow> int \<Rightarrow> (nat \<Rightarrow> int) \<Rightarrow> (nat list \<times> nat) option" where
  "ProbeHog fuel released t clock =
     (if \<not> released then Some ([], 0)
      else map_option (\<lambda>k. (hog_touch 0 (16 * 1024 * 1024), k)) (hog_spin fuel (t + 2 * 1000000000) clock 0))"

section \<open>Jails\<close>

record cgJail =
  cgPath :: string
  cgCPUActive :: bool

text \<open>
  \<open>NewJail\<close>: the results of the three system calls (mkdir, the first and the second write of
  \<open>cgroup.subtree_control\<close>) are arguments. The second component of the result says whether the
  directory exists afterwards.
\<close>

definition NewJail ::
  "Manager \<Rightarrow> string \<Rightarrow> string option \<Rightarrow> string option \<Rightarrow> string option \<Rightarrow> cgJail go_result \<times> bool" where
  "NewJail m jid mkdir write1 write2 =
     (let p = path_join [base m, jid]
      in case mkdir of
           Some e \<Rightarrow> (Inl (''creating jail cgroup '' @ p @ '': '' @ e), False)
         | None \<Rightarrow>
             (case write1 of
                Some e \<Rightarrow>
                  if Manager_CPUActive m then
                    (case write2 of
                       Some e2 \<Rightarrow> (Inl (''enabling controllers in '' @ p @ '': '' @ e2), True)
                     | None \<Rightarrow> (Inr \<lparr>cgPath = p, cgCPUActive = False\<rparr>, True))
                  else (Inl (''enabling controllers in '' @ p @ '': '' @ e), True)
              | None \<Rightarrow> (Inr \<lparr>cgPath = p, cgCPUActive = Manager_CPUActive m\<rparr>, True)))"

section \<open>Removing cgroup directories\<close>

text \<open>
  A cgroup directory: whether it has live processes, its plain files, its child directories. On a
  cgroup2 filesystem (\<open>pseudo\<close>) the kernel's own files vanish with the directory; elsewhere only the
  four named files are deleted and any other file keeps the directory.
\<close>

datatype cgdir = CgDir (busy: bool) (files: "string list") (children: "(string \<times> cgdir) list")

definition jail_files :: "string list" where
  "jail_files = [''cgroup.subtree_control'', ''memory.peak'', ''cpu.stat'', ''memory.events'']"

text \<open>\<open>None\<close>: the directory is gone. \<open>Some d\<close>: the final remove failed and \<open>d\<close> is left.\<close>

fun removeJailDir :: "bool \<Rightarrow> cgdir \<Rightarrow> cgdir option"
  and remove_children :: "bool \<Rightarrow> (string \<times> cgdir) list \<Rightarrow> (string \<times> cgdir) list" where
  "removeJailDir pseudo (CgDir b fs cs) =
     (let cs' = remove_children pseudo cs;
          fs' = (if pseudo then fs else filter (\<lambda>f. f \<notin> set jail_files) fs)
      in if \<not> b \<and> cs' = [] \<and> (pseudo \<or> fs' = []) then None else Some (CgDir b fs' cs'))"
| "remove_children pseudo [] = []"
| "remove_children pseudo ((n, c) # cs) =
     (case removeJailDir pseudo c of
        None \<Rightarrow> remove_children pseudo cs
      | Some c' \<Rightarrow> (n, c') # remove_children pseudo cs)"

text \<open>\<open>Sweep\<close> tries every directory of the base; an unreadable base is left alone.\<close>

definition Sweep :: "bool \<Rightarrow> (string \<times> cgdir) list option \<Rightarrow> (string \<times> cgdir) list option" where
  "Sweep pseudo entries = map_option (remove_children pseudo) entries"

datatype rm_result = RmOk | RmNotExist | RmBusy | RmOther string

text \<open>
  \<open>Teardown\<close> retries on EBUSY, five attempts in all. The list holds what the attempts return; the
  result is the number of attempts made and whether the directory is gone.
\<close>

fun teardown_loop :: "nat \<Rightarrow> rm_result list \<Rightarrow> nat \<times> bool" where
  "teardown_loop 0 rs = (0, False)"
| "teardown_loop (Suc n) [] = (0, False)"
| "teardown_loop (Suc n) (r # rs) =
     (case r of
        RmOk \<Rightarrow> (1, True)
      | RmNotExist \<Rightarrow> (1, True)
      | RmOther e \<Rightarrow> (1, False)
      | RmBusy \<Rightarrow> (case teardown_loop n rs of (k, gone) \<Rightarrow> (Suc k, gone)))"

definition Teardown :: "rm_result list \<Rightarrow> nat \<times> bool" where
  "Teardown rs = teardown_loop 5 rs"

section \<open>Facts\<close>

definition memory_enforced :: "probe_os \<Rightarrow> bool" where
  "memory_enforced os \<longleftrightarrow>
     os_memory_max os = None \<and> os_move_hog os = None \<and>
     (\<exists>b peak. os_memory_peak os = Inr b \<and> Atoi (TrimSpace b) = Some peak \<and> 8388608 \<le> peak)"

lemma verifyEnforcement_ok:
  "verifyEnforcement os m = (None, m') \<Longrightarrow> memory_enforced os \<and> m' = verifyCPU os m"
  by (auto simp: verifyEnforcement_def memory_enforced_def split: option.splits sum.splits if_splits)

lemma verifyCPU_on:
  "cpuActive (verifyCPU os m) \<longleftrightarrow>
     cpuActive m \<and> (\<exists>us. CPUUsageUS (os_cpu_stat os) = Inr us \<and> probeMinCPUUsageUS \<le> us)"
  by (auto simp: verifyCPU_def split: sum.splits)

lemma verifyCPU_active [simp]: "active (verifyCPU os m) = active m"
  by (simp add: verifyCPU_def split: sum.splits)

lemma probe_active: "active (snd (probe os m)) = active m"
  by (simp add: probe_def verifyEnforcement_def split: sum.splits option.splits)

lemma probe_ok:
  assumes "probe os m = (None, m')"
  shows "os_statfs os = Inr cgroup2Magic"
    and "memory_enforced os"
    and "os_subtree_cpu os = None \<or> os_subtree_plain os = None"
    and "cpuActive m' \<Longrightarrow> \<not> cpuActive m \<Longrightarrow> os_subtree_cpu os = None \<and>
      (\<exists>us. CPUUsageUS (os_cpu_stat os) = Inr us \<and> probeMinCPUUsageUS \<le> us)"
  using assms
  by (auto simp: probe_def verifyCPU_on dest!: verifyEnforcement_ok
      split: sum.splits option.splits if_splits)

text \<open>
  The process is big enough for the two thresholds: it writes to each of 4096 pages, twice the memory
  the probe wants to see, and keeps running for at least twice the time.
\<close>

lemma hog_touch_pages: "hog_touch (i * 4096) (m * 4096) = map (\<lambda>k. k * 4096) [i..<m]"
proof (induction "m - i" arbitrary: i)
  case 0
  then show ?case by (subst hog_touch.simps) simp
next
  case (Suc d)
  then have "i < m" and "d = m - Suc i" by auto
  moreover from Suc.hyps(1) [OF this(2)]
  have "hog_touch (Suc i * 4096) (m * 4096) = map (\<lambda>k. k * 4096) [Suc i..<m]" .
  ultimately have "i < m" and "hog_touch (Suc i * 4096) (m * 4096) = map (\<lambda>k. k * 4096) [Suc i..<m]"
    by simp_all
  then show ?case by (subst hog_touch.simps) (simp add: upt_conv_Cons add.commute)
qed

lemma hog_spin_some: "hog_spin fuel dl clock k = Some j \<Longrightarrow> dl \<le> clock j"
  by (induction fuel dl clock k rule: hog_spin.induct) (auto split: if_splits)

lemma hog_spin_returns: "dl \<le> clock (k + d) \<Longrightarrow> d < fuel \<Longrightarrow> \<exists>j. hog_spin fuel dl clock k = Some j"
proof (induction fuel dl clock k arbitrary: d rule: hog_spin.induct)
  case (2 fuel dl clock k)
  then show ?case by (cases d) auto
qed simp

lemma hog_is_enough:
  assumes "ProbeHog fuel True t clock = Some (pages, k)"
  shows "distinct pages \<and> 8 * 1024 * 1024 \<le> length pages * 4096 \<and> 1000 * probeMinCPUUsageUS \<le> clock k - t"
proof -
  have "pages = map (\<lambda>k. k * 4096) [0..<4096]" and "t + 2 * 1000000000 \<le> clock k"
    using assms hog_touch_pages [of 0 4096] by (auto simp: ProbeHog_def dest: hog_spin_some)
  then show ?thesis by (simp add: distinct_map inj_on_def probeMinCPUUsageUS_def)
qed

lemma hog_returns:
  "t + 2 * 1000000000 \<le> clock d \<Longrightarrow> d < fuel \<Longrightarrow> ProbeHog fuel released t clock \<noteq> None"
  using hog_spin_returns [of "t + 2 * 1000000000" clock 0 d fuel] by (auto simp: ProbeHog_def)

text \<open>On a real cgroup filesystem the whole tree goes unless some directory in it is busy.\<close>

fun any_busy :: "cgdir \<Rightarrow> bool"
  and some_busy :: "(string \<times> cgdir) list \<Rightarrow> bool" where
  "any_busy (CgDir b fs cs) = (b \<or> some_busy cs)"
| "some_busy [] = False"
| "some_busy ((n, c) # cs) = (any_busy c \<or> some_busy cs)"

lemma removeJailDir_pseudo: "removeJailDir True d = None \<longleftrightarrow> \<not> any_busy d"
  and remove_children_pseudo: "remove_children True cs = [] \<longleftrightarrow> \<not> some_busy cs"
  by (induction d and cs rule: any_busy_some_busy.induct) (auto simp: Let_def split: option.splits)

text \<open>No busy directory is ever removed, on any filesystem.\<close>

lemma removeJailDir_busy:
  "any_busy d \<Longrightarrow> \<exists>d'. removeJailDir p d = Some d' \<and> any_busy d'"
  and remove_children_busy: "some_busy cs \<Longrightarrow> some_busy (remove_children p cs)"
  by (induction d and cs rule: any_busy_some_busy.induct) (auto simp: Let_def split: option.splits)

lemma teardown_attempts: "fst (teardown_loop n rs) \<le> n"
  by (induction n rs rule: teardown_loop.induct) (auto split: rm_result.splits prod.splits)

section \<open>Properties\<close>

text \<open>
  C33. A manager calls its cgroups active only on evidence: the feature was not switched off, the
  mount is a cgroup2 filesystem, and the probe process was seen to be charged at least 8 MB in its
  leaf; it calls the cpu controller active only if that was delegated too and the probe burnt at
  least a second of accounted time.
\<close>

theorem active_means_enforced:
  assumes "NewManager env os rt = m" and "Active m"
  shows "env ''GOBOXD_CGROUPV2'' \<noteq> ''off'' \<and> os_statfs os = Inr cgroup2Magic \<and> memory_enforced os \<and>
    (Manager_CPUActive m \<longrightarrow> os_subtree_cpu os = None \<and>
       (\<exists>us. CPUUsageUS (os_cpu_stat os) = Inr us \<and> probeMinCPUUsageUS \<le> us))"
proof -
  let ?m = "\<lparr>root = rt, base = path_join [rt, baseName], active = False, cpuActive = False\<rparr>"
  obtain r m' where p: "probe os ?m = (r, m')" by fastforce
  have "\<not> active m'" using probe_active [of os ?m] p by simp
  with assms p have e: "env ''GOBOXD_CGROUPV2'' \<noteq> ''off''" and r: "r = None" and m: "m = m'\<lparr>active := True\<rparr>"
    by (auto simp: NewManager_def Active_def Let_def split: if_splits option.splits)
  note ok = probe_ok [OF p [unfolded r]]
  from e ok show ?thesis by (auto simp: m Manager_CPUActive_def)
qed

definition sample_probe :: probe_os where
  "sample_probe =
     \<lparr>os_statfs = Inr cgroup2Magic, os_mkdir_base = None, os_subtree_cpu = None, os_subtree_plain = None,
      os_mkdir_probe = None, os_probe_subtree = (\<lambda>_. None), os_mkdir_leaf = None, os_memory_max = None,
      os_swap_max = None, os_stdin_pipe = None, os_start_hog = None, os_move_hog = None,
      os_wait_hog = None, os_memory_peak = Inr ''16777216'', os_cpu_stat = Inl ''unreadable''\<rparr>"

theorem active_means_enforced_witness:
  "Active (NewManager (\<lambda>_. []) sample_probe ''/sys/fs/cgroup'') \<and> memory_enforced sample_probe"
proof -
  have "TrimSpace ''16777216'' = ''16777216''" by code_simp
  moreover have "Atoi ''16777216'' = Some 16777216"
    by (simp add: Atoi_def parse_uint_def is_digit_def digit_val_def)
  ultimately have "Active (NewManager (\<lambda>_. []) sample_probe ''/sys/fs/cgroup'')"
    by (simp add: NewManager_def probe_def sample_probe_def verifyEnforcement_def verifyCPU_def
        CPUUsageUS_def Active_def Let_def)
  with active_means_enforced [OF refl, of "\<lambda>_. []" sample_probe "''/sys/fs/cgroup''"] show ?thesis by simp
qed

end
