(* ===== verification/Models.thy ===== *)
theory Models
  imports Prelude
begin

text \<open>
  The data of \<^verbatim>\<open>internal/models/models.go\<close>: requests, results and the two closed status
  vocabularies. A Go status is a string type whose only values are its constants and the zero
  value, the constructor \<open>ResultUnset\<close> (respectively \<open>BuildUnset\<close>). An optional pointer field is
  an \<open>option\<close>; a nil slice and an empty slice are both the empty list.
\<close>

section \<open>Requests\<close>

record mLimits =
  mWallTimeS :: "int option"
  mMemoryKB :: "int option"
  mMaxProcesses :: "int option"
  mCpuTimeS :: "int option"

record StageConfig =
  sLimits :: "mLimits option"
  sFlags :: "string list"

record TestCase =
  Stdin :: string
  ExpectedStdout :: string

record RunRequest =
  Language :: string
  Source :: string
  SourceFilename :: string
  ArtifactFilename :: string
  rBuild :: "StageConfig option"
  rRun :: "StageConfig option"
  Tests :: "TestCase list"
  MaxParallel :: "int option"
  MaxOutputBytes :: "int option"

section \<open>Statuses\<close>

datatype ResultStatus =
    ResultUnset
  | ResultAccepted
  | ResultBuildFailed
  | ResultInternalError
  | ResultRuntimeError
  | ResultTimeExceeded
  | ResultMemoryExceeded
  | ResultWrongOutput
  | ResultWhitespaceMismatch
  | ResultNotExecuted
  | ResultCancelled
  | ResultCPUTimeExceeded

fun rs_string :: "ResultStatus \<Rightarrow> string" where
  "rs_string ResultUnset = ''''"
| "rs_string ResultAccepted = ''accepted''"
| "rs_string ResultBuildFailed = ''build_failed''"
| "rs_string ResultInternalError = ''internal_error''"
| "rs_string ResultRuntimeError = ''runtime_error''"
| "rs_string ResultTimeExceeded = ''time_exceeded''"
| "rs_string ResultMemoryExceeded = ''memory_exceeded''"
| "rs_string ResultWrongOutput = ''wrong_output''"
| "rs_string ResultWhitespaceMismatch = ''output_whitespace_mismatch''"
| "rs_string ResultNotExecuted = ''not_executed''"
| "rs_string ResultCancelled = ''cancelled''"
| "rs_string ResultCPUTimeExceeded = ''cpu_time_exceeded''"

fun ResultStatus_Valid :: "ResultStatus \<Rightarrow> bool" where
  "ResultStatus_Valid ResultAccepted = True"
| "ResultStatus_Valid ResultBuildFailed = True"
| "ResultStatus_Valid ResultInternalError = True"
| "ResultStatus_Valid ResultRuntimeError = True"
| "ResultStatus_Valid ResultTimeExceeded = True"
| "ResultStatus_Valid ResultMemoryExceeded = True"
| "ResultStatus_Valid ResultWrongOutput = True"
| "ResultStatus_Valid ResultWhitespaceMismatch = True"
| "ResultStatus_Valid ResultNotExecuted = True"
| "ResultStatus_Valid ResultCancelled = True"
| "ResultStatus_Valid ResultCPUTimeExceeded = True"
| "ResultStatus_Valid _ = False"

text \<open>None of the constants needs an escape, so its JSON form is the text between quotes.\<close>

definition MarshalJSON :: "ResultStatus \<Rightarrow> string" where
  "MarshalJSON s =
     (if s = ResultUnset then dquote # ''not_executed'' @ [dquote] else dquote # rs_string s @ [dquote])"

datatype BuildStatus = BuildUnset | BuildOk | BuildFailed | BuildInternalError

fun bs_string :: "BuildStatus \<Rightarrow> string" where
  "bs_string BuildUnset = ''''"
| "bs_string BuildOk = ''ok''"
| "bs_string BuildFailed = ''failed''"
| "bs_string BuildInternalError = ''internal_error''"

fun BuildStatus_Valid :: "BuildStatus \<Rightarrow> bool" where
  "BuildStatus_Valid BuildOk = True"
| "BuildStatus_Valid BuildFailed = True"
| "BuildStatus_Valid BuildInternalError = True"
| "BuildStatus_Valid _ = False"

section \<open>Results\<close>

record BuildResult =
  bStatus :: BuildStatus
  bStdout :: string
  bStderr :: string
  bDurationMs :: int
  bCpuTimeMs :: int

record TestResult =
  tStatus :: ResultStatus
  tStdout :: string
  tStderr :: string
  tDurationMs :: int
  tCpuTimeMs :: int
  tMemoryPeakKB :: int
  tExitCode :: int
  tTerminationSignal :: int

text \<open>The zero value of the struct, what \<open>make([]models.TestResult, n)\<close> fills a slice with.\<close>

definition zero_TestResult :: TestResult where
  "zero_TestResult =
     \<lparr>tStatus = ResultUnset, tStdout = '''', tStderr = '''', tDurationMs = 0, tCpuTimeMs = 0,
      tMemoryPeakKB = 0, tExitCode = 0, tTerminationSignal = 0\<rparr>"

record RunResponse =
  respStatus :: string
  respBuild :: BuildResult
  respTests :: "TestResult list"

record ErrorDetail =
  Code :: string
  Message :: string

section \<open>Facts\<close>

lemma ResultStatus_Valid_iff [simp]: "ResultStatus_Valid s \<longleftrightarrow> s \<noteq> ResultUnset"
  by (cases s) simp_all

lemma BuildStatus_Valid_iff [simp]: "BuildStatus_Valid s \<longleftrightarrow> s \<noteq> BuildUnset"
  by (cases s) simp_all

lemma rs_string_inj: "rs_string s = rs_string t \<longleftrightarrow> s = t"
  by (cases s; cases t) simp_all

lemma rs_string_empty [simp]: "rs_string s = [] \<longleftrightarrow> s = ResultUnset"
  by (cases s) simp_all

end
