(* ===== verification/Config.thy ===== *)
theory Config
  imports Prelude
begin

text \<open>
  The language registry of \<^verbatim>\<open>internal/config/config.go\<close>. The YAML decoder is a third-party package:
  what it returns for the file's bytes is the argument \<open>unmarshal\<close> of \<open>LoadRegistry\<close>. The
  registry pointer is a \<open>registry option\<close>, \<open>None\<close> for the nil pointer before the first load.
\<close>

section \<open>Data\<close>

record Limits =
  WallTimeS :: int
  MemoryKB :: int
  MaxProcesses :: int
  CpuTimeS :: int

definition zero_Limits :: Limits where
  "zero_Limits = \<lparr>WallTimeS = 0, MemoryKB = 0, MaxProcesses = 0, CpuTimeS = 0\<rparr>"

record StageCmd =
  Cmd :: string
  Args :: "string list"
  stLimits :: Limits
  stCeiling :: Limits
  HasCeiling :: bool
  stFlagAllowlist :: "string list"

record LanguageYAML =
  yID :: string
  yName :: string
  ySourceFilename :: string
  yArtifact :: string
  yBuild :: "StageCmd option"
  yRun :: StageCmd
  ySmokeCmd :: string
  ySmokeArgs :: "string list"
  ySourceFilenameStrategy :: string
  ySeccomp :: string

record LanguageConfig =
  ID :: string
  Name :: string
  lcSourceFilename :: string
  lcArtifactFilename :: string
  BuildCmd :: "string list"
  RunCmd :: "string list"
  DefaultLimits :: Limits
  BuildLimits :: Limits
  RunLimits :: Limits
  BuildCeiling :: Limits
  RunCeiling :: Limits
  DefaultCeiling :: Limits
  FlagAllowlist :: "string list"
  SmokeCmd :: "string list"
  SourceFilenameStrategy :: string
  Seccomp :: string

type_synonym registry = "string \<rightharpoonup> LanguageConfig"

datatype registry_err =
    ReadErr string
  | ParseErr string
  | NoLanguages
  | EmptyId
  | DuplicateId string

section \<open>Decoding one stage\<close>

text \<open>
  \<open>UnmarshalYAML\<close>: the node's own decoding comes from the YAML package; the method then looks for
  the key \<open>ceiling\<close> among the even positions of the mapping node's content.
\<close>

fun has_ceiling_key :: "string list \<Rightarrow> bool" where
  "has_ceiling_key (k # v # rest) = (k = ''ceiling'' \<or> has_ceiling_key rest)"
| "has_ceiling_key _ = False"

definition UnmarshalYAML :: "StageCmd go_result \<Rightarrow> string list \<Rightarrow> StageCmd go_result" where
  "UnmarshalYAML decoded content =
     (case decoded of Inl err \<Rightarrow> Inl err
      | Inr raw \<Rightarrow> Inr (raw\<lparr>HasCeiling := has_ceiling_key content\<rparr>))"

section \<open>Building the registry\<close>

definition resolveCeiling :: "Limits \<Rightarrow> Limits \<Rightarrow> bool \<Rightarrow> Limits" where
  "resolveCeiling ceiling limits hasCeiling =
     (if \<not> hasCeiling then limits
      else \<lparr>WallTimeS = (if WallTimeS ceiling = 0 then WallTimeS limits else WallTimeS ceiling),
            MemoryKB = (if MemoryKB ceiling = 0 then MemoryKB limits else MemoryKB ceiling),
            MaxProcesses =
              (if MaxProcesses ceiling = 0 then MaxProcesses limits else MaxProcesses ceiling),
            CpuTimeS = (if CpuTimeS ceiling = 0 then CpuTimeS limits else CpuTimeS ceiling)\<rparr>)"

definition expandTemplate :: "string \<Rightarrow> string \<Rightarrow> string \<Rightarrow> string" where
  "expandTemplate srcName artifact a =
     replace_all (replace_all a ''{{source}}'' srcName) ''{{artifact}}'' artifact"

definition expandCmd :: "string \<Rightarrow> string list \<Rightarrow> string \<Rightarrow> string \<Rightarrow> string list" where
  "expandCmd cmd args srcName artifact =
     expandTemplate srcName artifact cmd # map (expandTemplate srcName artifact) args"

text \<open>The loop body of \<open>LoadRegistry\<close>: one YAML entry becomes one \<open>LanguageConfig\<close>.\<close>

definition resolve_language :: "LanguageYAML \<Rightarrow> LanguageConfig" where
  "resolve_language lang =
     (let run = yRun lang;
          runCeil = resolveCeiling (stCeiling run) (stLimits run) (HasCeiling run);
          base = \<lparr>ID = yID lang, Name = yName lang, lcSourceFilename = ySourceFilename lang,
                   lcArtifactFilename = '''', BuildCmd = [],
                   RunCmd = expandCmd (Cmd run) (Args run) (ySourceFilename lang) (yArtifact lang),
                   DefaultLimits = stLimits run, BuildLimits = zero_Limits, RunLimits = stLimits run,
                   BuildCeiling = zero_Limits, RunCeiling = runCeil, DefaultCeiling = runCeil,
                   FlagAllowlist = [],
                   SmokeCmd = (if ySmokeCmd lang \<noteq> [] then ySmokeCmd lang # ySmokeArgs lang else []),
                   SourceFilenameStrategy = ySourceFilenameStrategy lang, Seccomp = ySeccomp lang\<rparr>
      in case yBuild lang of
           None \<Rightarrow> base
         | Some b \<Rightarrow>
             (let buildCeil = resolveCeiling (stCeiling b) (stLimits b) (HasCeiling b)
              in base\<lparr>BuildCmd := expandCmd (Cmd b) (Args b) (ySourceFilename lang) (yArtifact lang),
                      lcArtifactFilename := yArtifact lang,
                      FlagAllowlist := stFlagAllowlist b,
                      BuildLimits := stLimits b, DefaultLimits := stLimits b,
                      BuildCeiling := buildCeil, DefaultCeiling := buildCeil\<rparr>))"

fun build_registry :: "LanguageYAML list \<Rightarrow> registry \<Rightarrow> registry_err + registry" where
  "build_registry [] reg = Inr reg"
| "build_registry (lang # langs) reg =
     (if yID lang = [] then Inl EmptyId
      else if reg (yID lang) \<noteq> None then Inl (DuplicateId (yID lang))
      else build_registry langs (reg(yID lang \<mapsto> resolve_language lang)))"

text \<open>The ids of a comma-separated list: each part trimmed, the empty ones dropped.\<close>

definition id_list :: "string \<Rightarrow> string list" where
  "id_list s = filter (\<lambda>p. p \<noteq> []) (map TrimSpace (split_char CHR '','' s))"

definition apply_filters :: "environ \<Rightarrow> registry \<Rightarrow> registry" where
  "apply_filters env reg =
     (let langs = env ''GOBOXD_LANGS'';
          kept = (if langs \<noteq> [] \<and> langs \<noteq> ''all'' then reg |` set (id_list langs) else reg);
          exclude = env ''GOBOXD_EXCLUDE_LANGS''
      in if exclude \<noteq> [] then kept |` (- set (id_list exclude)) else kept)"

definition LoadRegistry ::
  "environ \<Rightarrow> string go_result \<Rightarrow> (string \<Rightarrow> LanguageYAML list go_result) \<Rightarrow> registry option
   \<Rightarrow> registry_err option \<times> registry option" where
  "LoadRegistry env file unmarshal current =
     (case file of Inl e \<Rightarrow> (Some (ReadErr e), current)
      | Inr data \<Rightarrow>
          (case unmarshal data of Inl e \<Rightarrow> (Some (ParseErr e), current)
           | Inr langs \<Rightarrow>
               if langs = [] then (Some NoLanguages, current)
               else (case build_registry langs Map.empty of
                       Inl e \<Rightarrow> (Some e, current)
                     | Inr reg \<Rightarrow> (None, Some (apply_filters env reg)))))"

definition Registry :: "registry option \<Rightarrow> registry" where
  "Registry m = (case m of Some r \<Rightarrow> r | None \<Rightarrow> Map.empty)"

section \<open>Facts\<close>

lemma resolveCeiling_field:
  "WallTimeS (resolveCeiling c l h) = (if h \<and> WallTimeS c \<noteq> 0 then WallTimeS c else WallTimeS l)"
  "MemoryKB (resolveCeiling c l h) = (if h \<and> MemoryKB c \<noteq> 0 then MemoryKB c else MemoryKB l)"
  "MaxProcesses (resolveCeiling c l h) =
     (if h \<and> MaxProcesses c \<noteq> 0 then MaxProcesses c else MaxProcesses l)"
  "CpuTimeS (resolveCeiling c l h) = (if h \<and> CpuTimeS c \<noteq> 0 then CpuTimeS c else CpuTimeS l)"
  by (auto simp: resolveCeiling_def)

lemma build_registry_ok:
  "build_registry langs reg = Inr reg' \<Longrightarrow>
     distinct (map yID langs) \<and> [] \<notin> set (map yID langs) \<and>
     dom reg \<inter> set (map yID langs) = {} \<and>
     reg' = reg ++ map_of (map (\<lambda>l. (yID l, resolve_language l)) langs)"
proof (induction langs arbitrary: reg)
  case Nil
  then show ?case by simp
next
  case (Cons l langs)
  then have n: "yID l \<noteq> []" "reg (yID l) = None"
    and rest: "build_registry langs (reg(yID l \<mapsto> resolve_language l)) = Inr reg'"
    by (auto split: if_splits)
  let ?m = "map_of (map (\<lambda>l. (yID l, resolve_language l)) langs)"
  from Cons.IH [OF rest] have d: "distinct (map yID langs)" "[] \<notin> set (map yID langs)"
    and i: "dom (reg(yID l \<mapsto> resolve_language l)) \<inter> set (map yID langs) = {}"
    and r: "reg' = reg(yID l \<mapsto> resolve_language l) ++ ?m" by blast+
  from i have l: "yID l \<notin> set (map yID langs)" and i': "dom reg \<inter> set (map yID langs) = {}"
    by auto
  from l have "yID l \<notin> dom ?m" by (simp add: dom_map_of_conv_image_fst image_image)
  with r have "reg' = reg ++ map_of (map (\<lambda>l. (yID l, resolve_language l)) (l # langs))"
    by (simp add: map_add_upd_left)
  with d n l i' show ?case by (simp add: domIff del: map_of.simps)
qed

lemma build_registry_total:
  assumes "distinct (map yID langs)" and "[] \<notin> set (map yID langs)" and "dom reg \<inter> set (map yID langs) = {}"
  shows "\<exists>reg'. build_registry langs reg = Inr reg'"
  using assms
proof (induction langs arbitrary: reg)
  case (Cons l langs)
  then have "\<exists>reg'. build_registry langs (reg(yID l \<mapsto> resolve_language l)) = Inr reg'" by auto
  moreover have "yID l \<noteq> []" "reg (yID l) = None" using Cons.prems by auto
  ultimately show ?case by simp
qed simp

lemma resolve_language_ID [simp]: "ID (resolve_language l) = yID l"
  by (simp add: resolve_language_def Let_def split: option.splits)

lemma resolve_language_build:
  "BuildCmd (resolve_language l) = [] \<longleftrightarrow> yBuild l = None"
  by (simp add: resolve_language_def Let_def expandCmd_def split: option.splits)

lemma apply_filters_dom:
  "dom (apply_filters env reg) =
     {id \<in> dom reg.
       (env ''GOBOXD_LANGS'' \<in> {[], ''all''} \<or> id \<in> set (id_list (env ''GOBOXD_LANGS''))) \<and>
       (env ''GOBOXD_EXCLUDE_LANGS'' = [] \<or> id \<notin> set (id_list (env ''GOBOXD_EXCLUDE_LANGS'')))}"
  by (auto simp: apply_filters_def Let_def restrict_map_def split: if_splits)

lemma apply_filters_le: "apply_filters env reg \<subseteq>\<^sub>m reg"
  by (auto simp: apply_filters_def Let_def map_le_def restrict_map_def split: if_splits)

section \<open>Properties\<close>

text \<open>The languages the two environment variables leave in the registry.\<close>

definition kept :: "environ \<Rightarrow> string \<Rightarrow> bool" where
  "kept env k \<longleftrightarrow>
     (env ''GOBOXD_LANGS'' \<in> {[], ''all''} \<or> k \<in> set (id_list (env ''GOBOXD_LANGS''))) \<and>
     (env ''GOBOXD_EXCLUDE_LANGS'' = [] \<or> k \<notin> set (id_list (env ''GOBOXD_EXCLUDE_LANGS'')))"

lemma apply_filters_lookup: "apply_filters env reg k = (if kept env k then reg k else None)"
  by (auto simp: apply_filters_def kept_def Let_def restrict_map_def)

text \<open>
  C31. Loading the registry is atomic: it succeeds exactly when the file is readable, is valid YAML
  and lists at least one language, none with an empty or a repeated id; on any failure the published
  registry stays what it was, and on success it is replaced by exactly the resolved languages of the file that the environment keeps, each under its own id.
\<close>

theorem registry_reload_atomic:
  "(fst (LoadRegistry env file unmarshal current) = None \<longleftrightarrow>
     (\<exists>data langs. file = Inr data \<and> unmarshal data = Inr langs \<and> langs \<noteq> [] \<and>
        distinct (map yID langs) \<and> [] \<notin> set (map yID langs))) \<and>
   (case LoadRegistry env file unmarshal current of
     (Some e, new) \<Rightarrow> new = current
   | (None, new) \<Rightarrow> \<exists>data langs reg. file = Inr data \<and> unmarshal data = Inr langs \<and> new = Some reg \<and>
       (\<forall>k lc. reg k = Some lc \<longleftrightarrow>
          kept env k \<and> (\<exists>l \<in> set langs. yID l = k \<and> lc = resolve_language l \<and> ID lc = k)))"
proof (cases "fst (LoadRegistry env file unmarshal current)")
  case (Some e)
  have "\<exists>reg. build_registry langs Map.empty = Inr reg"
    if "distinct (map yID langs)" "[] \<notin> set (map yID langs)" for langs
    using build_registry_total [OF that] by simp
  with Some show ?thesis
    by (fastforce simp: LoadRegistry_def split: sum.splits if_splits)
next
  case None
  then obtain data langs reg where f: "file = Inr data" "unmarshal data = Inr langs" "langs \<noteq> []"
    and b: "build_registry langs Map.empty = Inr reg"
    and r: "LoadRegistry env file unmarshal current = (None, Some (apply_filters env reg))"
    by (auto simp: LoadRegistry_def split: sum.splits if_splits)
  note ok = build_registry_ok [OF b]
  have d: "distinct (map fst (map (\<lambda>l. (yID l, resolve_language l)) langs))"
    using ok by (simp add: comp_def)
  have "reg = map_of (map (\<lambda>l. (yID l, resolve_language l)) langs)" using ok by simp
  then have "reg k = Some lc \<longleftrightarrow> (\<exists>l \<in> set langs. yID l = k \<and> lc = resolve_language l \<and> ID lc = k)" for k lc
    using map_of_eq_Some_iff [OF d, of k lc] by auto
  then have l: "apply_filters env reg k = Some lc \<longleftrightarrow>
      kept env k \<and> (\<exists>l \<in> set langs. yID l = k \<and> lc = resolve_language l \<and> ID lc = k)" for k lc
    by (simp add: apply_filters_lookup)
  from f ok l show ?thesis unfolding r by auto
qed

definition py3_yaml :: LanguageYAML where
  "py3_yaml =
     \<lparr>yID = ''py3'', yName = ''Python 3'', ySourceFilename = ''solution.py'', yArtifact = [], yBuild = None,
      yRun = \<lparr>Cmd = ''/usr/bin/python3'', Args = [''{{source}}''],
        stLimits = \<lparr>WallTimeS = 9, MemoryKB = 1048576, MaxProcesses = 100, CpuTimeS = 11\<rparr>,
        stCeiling = zero_Limits, HasCeiling = False, stFlagAllowlist = []\<rparr>,
      ySmokeCmd = [], ySmokeArgs = [], ySourceFilenameStrategy = [], ySeccomp = []\<rparr>"

theorem registry_reload_atomic_witness:
  "\<exists>reg. LoadRegistry (\<lambda>_. []) (Inr []) (\<lambda>_. Inr [py3_yaml]) None = (None, Some reg) \<and>
     reg ''py3'' = Some (resolve_language py3_yaml) \<and> reg ''c'' = None"
proof -
  have p: "yID py3_yaml = ''py3''" by (simp add: py3_yaml_def)
  obtain e new where l: "LoadRegistry (\<lambda>_. []) (Inr []) (\<lambda>_. Inr [py3_yaml]) None = (e, new)" by fastforce
  note r = registry_reload_atomic [of "\<lambda>_. []" "Inr []" "\<lambda>_. Inr [py3_yaml]" None, unfolded l]
  from r p have "e = None" by simp
  with r obtain reg where n: "new = Some reg" and
    k: "\<And>k lc. reg k = Some lc \<longleftrightarrow> kept (\<lambda>_. []) k \<and> yID py3_yaml = k \<and> lc = resolve_language py3_yaml \<and> ID lc = k"
    by auto
  have "reg ''py3'' = Some (resolve_language py3_yaml)" using k p by (simp add: kept_def)
  moreover have "reg ''c'' = None" using k [of "''c''"] p by (cases "reg ''c''") auto
  ultimately
  show ?thesis using l n \<open>e = None\<close> by simp
qed

end
