(* ===== verification/Samples.thy ===== *)
theory Samples
  imports Models Config
begin

text \<open>
  Concrete inputs for the instances of the theorems: a request for two tests run in parallel and an
  interpreted language with a ceiling on each limit, as the registry file configures Python.
\<close>

definition sample_limits :: Limits where
  "sample_limits = \<lparr>WallTimeS = 5, MemoryKB = 262144, MaxProcesses = 32, CpuTimeS = 2\<rparr>"

definition sample_lang :: LanguageConfig where
  "sample_lang =
     \<lparr>ID = ''py3'', Name = ''Python 3'', lcSourceFilename = ''solution.py'', lcArtifactFilename = [],
      BuildCmd = [], RunCmd = [''/usr/bin/python3'', ''solution.py''], DefaultLimits = sample_limits,
      BuildLimits = zero_Limits, RunLimits = sample_limits, BuildCeiling = zero_Limits,
      RunCeiling = sample_limits, DefaultCeiling = sample_limits, FlagAllowlist = [],
      SmokeCmd = [''/usr/bin/python3'', ''--version''], SourceFilenameStrategy = ''fixed'', Seccomp = []\<rparr>"

definition sample_test :: TestCase where
  "sample_test = \<lparr>Stdin = ''1'', ExpectedStdout = ''1''\<rparr>"

definition sample_req :: RunRequest where
  "sample_req =
     \<lparr>Language = ''py3'', Source = ''print(input())'', SourceFilename = [], ArtifactFilename = [],
      rBuild = None, rRun = None, Tests = [sample_test, sample_test], MaxParallel = Some 2,
      MaxOutputBytes = None\<rparr>"

definition sample_registry :: registry where
  "sample_registry = [''py3'' \<mapsto> sample_lang]"

end
