(* ===== verification/Jail.thy ===== *)
theory Jail
  imports Uidpool Cgroup Samples
begin

text \<open>
  The jail lifecycle of \<^verbatim>\<open>internal/runner/jail.go\<close>, with the cache and sweep functions of
  \<^verbatim>\<open>internal/runner/runner.go\<close>. The world a jail lives in is the uid pool, the jail directories of
  the temp directory with their contents, and the cgroup directories. What the operating system
  answers to each call is the argument \<open>jail_os\<close>; \<open>None\<close> is success. A teardown runs under a
  \<open>sync.Once\<close>, so it is one atomic step guarded by the flag \<open>jonce\<close>.
\<close>

section \<open>Files\<close>

text \<open>
  A directory entry with its permission bits and owner; the group is always the same number as the
  owner. \<open>SpecialN\<close> stands for FIFOs, sockets and devices.
\<close>

datatype node =
    FileN (nperm: nat) (nowner: int) string
  | DirN (nperm: nat) (nowner: int) "(string \<times> node) list"
  | LinkN (nowner: int) string
  | SpecialN (nowner: int)

type_synonym entries = "(string \<times> node) list"

abbreviation perm_0700 :: nat where "perm_0700 \<equiv> 448"
abbreviation perm_0755 :: nat where "perm_0755 \<equiv> 493"
abbreviation perm_0644 :: nat where "perm_0644 \<equiv> 420"

fun chown_node :: "int \<Rightarrow> node \<Rightarrow> node" where
  "chown_node u (FileN p ow c) = FileN p u c"
| "chown_node u (DirN p ow es) = DirN p u es"
| "chown_node u (LinkN ow t) = LinkN u t"
| "chown_node u (SpecialN ow) = SpecialN u"

fun entry_put :: "string \<Rightarrow> node \<Rightarrow> entries \<Rightarrow> entries" where
  "entry_put n v [] = [(n, v)]"
| "entry_put n v ((m, x) # es) = (if m = n then (n, v) # es else (m, x) # entry_put n v es)"

definition entry_del :: "string \<Rightarrow> entries \<Rightarrow> entries" where
  "entry_del n es = filter (\<lambda>e. fst e \<noteq> n) es"

definition path_base :: "string \<Rightarrow> string" where
  "path_base s =
     (if s = [] then ''.''
      else let t = rev (dropWhile (\<lambda>c. c = CHR ''/'') (rev s))
           in if t = [] then ''/'' else last (split_char CHR ''/'' t))"

section \<open>The world\<close>

text \<open>\<open>wCaches\<close> counts the cache directories that belong to a uid; they outlive the jails.\<close>

record jail_world =
  wPool :: Pool
  wDirs :: "string \<rightharpoonup> node"
  wCgs :: "string set"
  wCaches :: "int \<Rightarrow> nat"

record jail_os =
  j_mkdtemp :: "string go_result"
  j_chown_dir :: "string option"
  j_cg_mkdir :: "string option"
  j_cg_write1 :: "string option"
  j_cg_write2 :: "string option"
  j_cg_remove :: bool
  j_mkdir_app :: "string option"
  j_chown_app :: "string option"
  j_open_src :: "string option"
  j_write_src :: "(string \<times> string) option"
  j_close_src :: "string option"
  j_chown_src :: "string option"
  j_umask :: "nat \<Rightarrow> nat"
  j_teardown :: "rm_result list"
  j_rmall :: bool

record jail =
  jdirp :: string
  juid :: int
  jcg :: "cgJail option"
  jseccomp :: string
  jonce :: bool

definition appDir :: "jail \<Rightarrow> string" where
  "appDir j = path_join [jdirp j, ''app'']"

section \<open>Teardown\<close>

definition teardown :: "jail_os \<Rightarrow> jail \<Rightarrow> jail_world \<Rightarrow> jail \<times> jail_world" where
  "teardown os j w =
     (if jonce j then (j, w)
      else
        (let w1 = w\<lparr>wPool := Release (juid j) (wPool w)\<rparr>;
             w2 = (case jcg j of
                     None \<Rightarrow> w1
                   | Some cg \<Rightarrow>
                       if snd (Teardown (j_teardown os)) then w1\<lparr>wCgs := wCgs w1 - {cgPath cg}\<rparr>
                       else w1);
             w3 = (if jdirp j \<noteq> [] \<and> j_rmall os then w2\<lparr>wDirs := (wDirs w2)(jdirp j := None)\<rparr>
                   else w2)
         in (j\<lparr>jonce := True\<rparr>, w3)))"

section \<open>Materialising a jail\<close>

text \<open>
  \<open>writeSource\<close> opens with \<open>O_EXCL|O_NOFOLLOW\<close>: an entry of that name, a link included, makes the
  open fail. A failed write may leave part of the data.
\<close>

definition writeSource :: "jail_os \<Rightarrow> string \<Rightarrow> string \<Rightarrow> entries \<Rightarrow> string option \<times> entries" where
  "writeSource os name data es =
     (if map_of es name \<noteq> None then (Some ''file exists'', es)
      else (case j_open_src os of
              Some e \<Rightarrow> (Some e, es)
            | None \<Rightarrow>
                (case j_write_src os of
                   Some (e, part) \<Rightarrow>
                     (Some e, entry_put name (FileN (j_umask os perm_0644) 0 part) es)
                 | None \<Rightarrow>
                     (j_close_src os,
                      entry_put name (FileN (j_umask os perm_0644) 0 data) es))))"

text \<open>The cgroup leaf of a new jail: any failure falls back to no cgroup.\<close>

definition cg_setup ::
  "Manager \<Rightarrow> jail_os \<Rightarrow> string \<Rightarrow> jail_world \<Rightarrow> cgJail option \<times> jail_world" where
  "cg_setup m os dir w =
     (if Active m then
        (let jid = path_base dir;
             p = path_join [base m, jid]
         in case NewJail m jid (j_cg_mkdir os) (j_cg_write1 os) (j_cg_write2 os) of
              (Inr cg, created) \<Rightarrow> (Some cg, w\<lparr>wCgs := insert p (wCgs w)\<rparr>)
            | (Inl e, created) \<Rightarrow>
                (let w1 = (if created then w\<lparr>wCgs := insert p (wCgs w)\<rparr> else w)
                 in (None, if j_cg_remove os then w1\<lparr>wCgs := wCgs w1 - {p}\<rparr> else w1)))
      else (None, w))"

text \<open>The app directory and the source file in it; every failure tears the jail down.\<close>

definition put_app :: "jail \<Rightarrow> node \<Rightarrow> jail_world \<Rightarrow> jail_world" where
  "put_app j app w =
     w\<lparr>wDirs := (wDirs w)(jdirp j \<mapsto> DirN perm_0700 (juid j) [(''app'', app)])\<rparr>"

definition fill_app ::
  "jail_os \<Rightarrow> RunRequest \<Rightarrow> string \<Rightarrow> jail \<Rightarrow> jail_world \<Rightarrow> jail go_result \<times> jail_world" where
  "fill_app os req srcName j w =
     (let fail = (\<lambda>msg w. (Inl msg, snd (teardown os j w)));
          uid = juid j;
          aperm = j_umask os perm_0755
      in case j_mkdir_app os of
           Some e \<Rightarrow> fail (''failed to create app dir: '' @ e) w
         | None \<Rightarrow>
             (case j_chown_app os of
                Some e \<Rightarrow> fail (''failed to chown app dir: '' @ e) (put_app j (DirN aperm 0 []) w)
              | None \<Rightarrow>
                  (case writeSource os srcName (Source req) [] of
                     (Some e, es) \<Rightarrow>
                       fail (''failed to write source: '' @ e) (put_app j (DirN aperm uid es) w)
                   | (None, es) \<Rightarrow>
                       (case j_chown_src os of
                          Some e \<Rightarrow>
                            fail (''failed to chown source: '' @ e) (put_app j (DirN aperm uid es) w)
                        | None \<Rightarrow>
                            (Inr j,
                             put_app j (DirN aperm uid (map (map_prod id (chown_node uid)) es)) w)))))"

definition newJail ::
  "Manager \<Rightarrow> jail_os \<Rightarrow> RunRequest \<Rightarrow> LanguageConfig \<Rightarrow> string \<Rightarrow> jail_world \<Rightarrow>
   jail go_result \<times> jail_world" where
  "newJail m os req lc srcName w =
     (case Alloc (wPool w) of
        (Inl e, p) \<Rightarrow> (Inl (''allocating jail uid: '' @ e), w\<lparr>wPool := p\<rparr>)
      | (Inr uid, p) \<Rightarrow>
          (case j_mkdtemp os of
             Inl e \<Rightarrow> (Inl (''failed to create jail dir: '' @ e), w\<lparr>wPool := Release uid p\<rparr>)
           | Inr dir \<Rightarrow>
               (case j_chown_dir os of
                  Some e \<Rightarrow>
                    (Inl (''failed to chown jail dir: '' @ e),
                     w\<lparr>wPool := Release uid p,
                       wDirs := (if j_rmall os then (wDirs w)(dir := None)
                                 else (wDirs w)(dir \<mapsto> DirN perm_0700 0 []))\<rparr>)
                | None \<Rightarrow>
                    (case cg_setup m os dir
                            (w\<lparr>wPool := p, wDirs := (wDirs w)(dir \<mapsto> DirN perm_0700 uid [])\<rparr>) of
                       (cg, w1) \<Rightarrow>
                         fill_app os req srcName
                           \<lparr>jdirp = dir, juid = uid, jcg = cg, jseccomp = Seccomp lc, jonce = False\<rparr>
                           w1))))"

section \<open>Lifecycle facts\<close>

text \<open>
  What the code relies on: \<open>os.MkdirTemp\<close> returns the name of a directory that did not exist, and
  so the cgroup of that name does not exist either; and the removals of the clean-up succeed.
\<close>

definition fresh_names :: "Manager \<Rightarrow> jail_os \<Rightarrow> jail_world \<Rightarrow> bool" where
  "fresh_names m os w \<longleftrightarrow>
     (\<forall>dir. j_mkdtemp os = Inr dir \<longrightarrow>
        dir \<noteq> [] \<and> wDirs w dir = None \<and> path_join [base m, path_base dir] \<notin> wCgs w)"

definition removals_work :: "jail_os \<Rightarrow> bool" where
  "removals_work os \<longleftrightarrow> j_rmall os \<and> j_cg_remove os \<and> snd (Teardown (j_teardown os))"

text \<open>Two worlds hold the same resources: uids in use, jail directories, cgroups.\<close>

definition same_resources :: "jail_world \<Rightarrow> jail_world \<Rightarrow> bool" where
  "same_resources w w' \<longleftrightarrow>
     inUse (wPool w') = inUse (wPool w) \<and> wDirs w' = wDirs w \<and> wCgs w' = wCgs w"

text \<open>A world in which exactly the resources of jail \<open>j\<close> were added to those of \<open>w\<close>.\<close>

definition holds_jail :: "jail_world \<Rightarrow> jail \<Rightarrow> jail_world \<Rightarrow> bool" where
  "holds_jail w j w' \<longleftrightarrow>
     pool_wf (wPool w') \<and>
     juid j \<notin> inUse (wPool w) \<and> inUse (wPool w') = insert (juid j) (inUse (wPool w)) \<and>
     jdirp j \<noteq> [] \<and> wDirs w (jdirp j) = None \<and> (\<exists>nd. wDirs w' = (wDirs w)(jdirp j \<mapsto> nd)) \<and>
     (case jcg j of
        None \<Rightarrow> wCgs w' = wCgs w
      | Some cg \<Rightarrow> cgPath cg \<notin> wCgs w \<and> wCgs w' = insert (cgPath cg) (wCgs w)) \<and>
     \<not> jonce j"

lemma teardown_once: "teardown os (fst (teardown os' j w)) w' = (fst (teardown os' j w), w')"
  by (simp add: teardown_def Let_def)

lemma teardown_releases:
  assumes "holds_jail w j w'" and "removals_work os"
  shows "same_resources w (snd (teardown os j w'))"
  using assms Release_inUse(1) [of "wPool w'" "juid j"]
  by (auto simp: holds_jail_def removals_work_def same_resources_def teardown_def Let_def
      split: option.splits)

lemma holds_jail_put:
  "holds_jail w j w' \<Longrightarrow> holds_jail w j (w'\<lparr>wDirs := (wDirs w')(jdirp j \<mapsto> nd)\<rparr>)"
  by (auto simp: holds_jail_def split: option.splits)

lemma NewJail_path:
  "NewJail m jid a b c = (Inr cg, cr) \<Longrightarrow> cgPath cg = path_join [base m, jid]"
  by (auto simp: NewJail_def Let_def split: option.splits if_splits)

lemma cg_setup_ok:
  assumes "cg_setup m os dir w = (cg, w')" and "j_cg_remove os"
    and "path_join [base m, path_base dir] \<notin> wCgs w"
  shows "wPool w' = wPool w \<and> wDirs w' = wDirs w \<and>
     (case cg of None \<Rightarrow> wCgs w' = wCgs w
      | Some c \<Rightarrow> cgPath c \<notin> wCgs w \<and> wCgs w' = insert (cgPath c) (wCgs w))"
  using assms
  by (auto simp: cg_setup_def Let_def NewJail_path split: if_splits prod.splits sum.splits)

lemma teardown_pool_wf: "pool_wf (wPool w) \<Longrightarrow> pool_wf (wPool (snd (teardown os j w)))"
  by (auto simp: teardown_def Let_def Release_inUse split: option.splits)

lemma holds_jail_wf: "holds_jail w j w' \<Longrightarrow> pool_wf (wPool w')"
  by (simp add: holds_jail_def)

lemma holds_jail_put_app: "holds_jail w j w' \<Longrightarrow> holds_jail w j (put_app j app w')"
  unfolding put_app_def by (rule holds_jail_put)

lemma put_app_dir [simp]:
  "wDirs (put_app j app w) (jdirp j) = Some (DirN perm_0700 (juid j) [(''app'', app)])"
  by (simp add: put_app_def)

text \<open>The tree of a jail that \<open>newJail\<close> returned: every entry belongs to the jail's uid.\<close>

definition jail_tree :: "jail_os \<Rightarrow> RunRequest \<Rightarrow> string \<Rightarrow> jail \<Rightarrow> node" where
  "jail_tree os req srcName j =
     DirN perm_0700 (juid j)
       [(''app'', DirN (j_umask os perm_0755) (juid j)
          [(srcName, FileN (j_umask os perm_0644) (juid j) (Source req))])]"

lemma fill_app_spec:
  assumes "holds_jail w j w1" and "removals_work os"
  shows "case fill_app os req s j w1 of
      (Inl e, w') \<Rightarrow> same_resources w w' \<and> pool_wf (wPool w')
    | (Inr j', w') \<Rightarrow> j' = j \<and> holds_jail w j w' \<and>
        wDirs w' (jdirp j) = Some (jail_tree os req s j)"
proof -
  have fail: "same_resources w (snd (teardown os j v)) \<and> pool_wf (wPool (snd (teardown os j v)))"
    if "holds_jail w j v" for v
    using that assms(2) teardown_releases teardown_pool_wf holds_jail_wf by blast
  note put = holds_jail_put_app [OF assms(1)]
  show ?thesis
    unfolding fill_app_def Let_def writeSource_def
    by (auto simp: fail [OF assms(1)] fail [OF put] put jail_tree_def split: option.splits)
qed


lemma newJail_spec:
  assumes wf: "pool_wf (wPool w)" and fresh: "fresh_names m os w" and rm: "removals_work os"
  shows "case newJail m os req lc s w of
      (Inl e, w') \<Rightarrow> same_resources w w' \<and> pool_wf (wPool w')
    | (Inr j, w') \<Rightarrow> holds_jail w j w' \<and> jseccomp j = Seccomp lc \<and>
        wDirs w' (jdirp j) = Some (jail_tree os req s j)"
proof (cases "Alloc (wPool w)")
  case (Pair r p)
  show ?thesis
  proof (cases r)
    case (Inl e)
    with Pair Alloc_fail have "p = wPool w" by blast
    with Pair Inl wf show ?thesis by (simp add: newJail_def same_resources_def)
  next
    case (Inr uid)
    note al = Alloc_ok [OF wf Pair [unfolded Inr]]
    have rel: "inUse (Release uid p) = inUse (wPool w)" "pool_wf (Release uid p)"
      using Release_inUse(1,2) [OF al(4)] al(2,3) by auto
    show ?thesis
    proof (cases "j_mkdtemp os")
      case (Inl e)
      with Pair Inr rel show ?thesis by (simp add: newJail_def same_resources_def)
    next
      case dir: (Inr dir)
      with fresh have f: "dir \<noteq> []" "wDirs w dir = None"
        "path_join [base m, path_base dir] \<notin> wCgs w" by (auto simp: fresh_names_def)
      show ?thesis
      proof (cases "j_chown_dir os")
        case (Some e)
        with Pair Inr dir rel f rm show ?thesis
          by (auto simp: newJail_def same_resources_def removals_work_def)
      next
        case None
        obtain cg w1 where cg: "cg_setup m os dir
            (w\<lparr>wPool := p, wDirs := (wDirs w)(dir \<mapsto> DirN perm_0700 uid [])\<rparr>) = (cg, w1)"
          by fastforce
        let ?j = "\<lparr>jdirp = dir, juid = uid, jcg = cg, jseccomp = Seccomp lc, jonce = False\<rparr>"
        have "holds_jail w ?j w1"
          using cg_setup_ok [OF cg] rm f al by (auto simp: holds_jail_def removals_work_def
              split: option.splits)
        from fill_app_spec [OF this rm, of req s] show ?thesis
          using Pair Inr dir None cg by (auto simp: newJail_def split: prod.splits sum.splits)
      qed
    qed
  qed
qed

text \<open>Where the directory and the cgroup of a jail come from.\<close>

lemma fill_app_jail: "fill_app os req s j w = (Inr j', w') \<Longrightarrow> j' = j"
  by (auto simp: fill_app_def Let_def split: option.splits prod.splits)

lemma newJail_names:
  assumes "newJail m os req lc s w = (Inr j, w')"
  shows "j_mkdtemp os = Inr (jdirp j)"
    and "jcg j = Some cg \<Longrightarrow> cgPath cg = path_join [base m, path_base (jdirp j)]"
proof -
  obtain dir uid c v v' where d: "j_mkdtemp os = Inr dir" and c: "cg_setup m os dir v = (c, v')"
    and j: "fill_app os req s
      \<lparr>jdirp = dir, juid = uid, jcg = c, jseccomp = Seccomp lc, jonce = False\<rparr> v' = (Inr j, w')"
    using assms by (auto simp: newJail_def split: prod.splits sum.splits option.splits)
  note j' = fill_app_jail [OF j]
  show "j_mkdtemp os = Inr (jdirp j)" using d j' by simp
  show "cgPath cg = path_join [base m, path_base (jdirp j)]" if "jcg j = Some cg"
    using c j' that NewJail_path
    by (auto simp: cg_setup_def Let_def split: if_splits prod.splits sum.splits)
qed

lemma newJail_cg_active:
  assumes "newJail m os req lc s w = (Inr j, w')" and "jcg j \<noteq> None"
  shows "Active m"
proof (rule ccontr)
  assume "\<not> Active m"
  then have c: "cg_setup m os dir v = (None, v)" for dir v by (simp add: cg_setup_def)
  have "jcg j = None"
    using assms(1) by (auto simp: newJail_def c dest: fill_app_jail split: prod.splits sum.splits option.splits)
  with assms(2) show False by simp
qed

section \<open>A sample world\<close>

text \<open>
  A pool of four uids, an empty temp directory, no cgroups, and an operating system that answers
  every call with success and gives jail \<open>n\<close> the directory of that number.
\<close>

definition sample_world :: jail_world where
  "sample_world =
     \<lparr>wPool = \<lparr>pmin = 10000, psize = 4, inUse = {}, pnext = 0\<rparr>, wDirs = Map.empty, wCgs = {},
      wCaches = (\<lambda>_. 0)\<rparr>"

definition sample_dir :: "nat \<Rightarrow> string" where
  "sample_dir n = ''/tmp/goboxd-'' @ nat_str n"

definition sample_jail_os :: "nat \<Rightarrow> jail_os" where
  "sample_jail_os n =
     \<lparr>j_mkdtemp = Inr (sample_dir n), j_chown_dir = None, j_cg_mkdir = None, j_cg_write1 = None,
      j_cg_write2 = None, j_cg_remove = True, j_mkdir_app = None, j_chown_app = None,
      j_open_src = None, j_write_src = None, j_close_src = None, j_chown_src = None, j_umask = id,
      j_teardown = [RmOk], j_rmall = True\<rparr>"

definition sample_manager :: Manager where
  "sample_manager = \<lparr>root = ''/sys/fs/cgroup'', base = ''/sys/fs/cgroup/goboxd'', active = False, cpuActive = False\<rparr>"

lemma sample_wf: "pool_wf (wPool sample_world)"
  by (simp add: sample_world_def pool_wf_def pool_range_def)

lemma sample_fresh: "fresh_names m (sample_jail_os n) sample_world"
  by (simp add: fresh_names_def sample_jail_os_def sample_world_def sample_dir_def)

lemma sample_removals: "removals_work (sample_jail_os n)"
  by (simp add: removals_work_def sample_jail_os_def Teardown_def eval_nat_numeral)

lemma sample_alloc:
  "fst (Alloc (wPool sample_world)) = Inr 10000"
  "fst (Alloc (snd (Alloc (wPool sample_world)))) = Inr 10001"
  by code_simp+

text \<open>Wherever a uid is left, the sample jail is made under the name of its number.\<close>

lemma sample_newJail:
  assumes "fst (Alloc (wPool w)) = Inr u"
  shows "\<exists>w'. newJail sample_manager (sample_jail_os n) sample_req sample_lang s w =
      (Inr \<lparr>jdirp = sample_dir n, juid = u, jcg = None, jseccomp = Seccomp sample_lang, jonce = False\<rparr>, w') \<and>
     wPool w' = snd (Alloc (wPool w)) \<and> (\<exists>nd. wDirs w' = (wDirs w)(sample_dir n \<mapsto> nd)) \<and> wCgs w' = wCgs w"
proof -
  obtain p where "Alloc (wPool w) = (Inr u, p)" using assms by (cases "Alloc (wPool w)") simp
  then show ?thesis
    by (simp add: newJail_def sample_jail_os_def cg_setup_def sample_manager_def Active_def
        fill_app_def writeSource_def Let_def put_app_def) blast
qed

section \<open>Properties\<close>

text \<open>
  C22. Making a jail is all or nothing: if \<open>newJail\<close> fails at any of its steps, every uid, directory
  and cgroup is as before; if it succeeds, exactly one unused uid, one new directory holding the
  source file under that uid and at most one new cgroup were added, and one \<open>teardown\<close> gives all of
  it back while a second one does nothing.
\<close>

theorem new_jail_all_or_nothing:
  assumes "pool_wf (wPool w)" and "fresh_names m os w" and "removals_work os"
  shows "case newJail m os req lc s w of
      (Inl e, w') \<Rightarrow> same_resources w w'
    | (Inr j, w') \<Rightarrow> holds_jail w j w' \<and> jseccomp j = Seccomp lc \<and>
        wDirs w' (jdirp j) = Some (jail_tree os req s j) \<and>
        same_resources w (snd (teardown os j w')) \<and>
        snd (teardown os (fst (teardown os j w')) v) = v"
  using newJail_spec [OF assms, of lc req s] teardown_releases [OF _ assms(3)] teardown_once
  by (auto split: prod.splits sum.splits)

theorem new_jail_all_or_nothing_witness:
  "case newJail sample_manager (sample_jail_os 1) sample_req sample_lang ''solution.py'' sample_world of
      (Inl e, w') \<Rightarrow> same_resources sample_world w'
    | (Inr j, w') \<Rightarrow> holds_jail sample_world j w' \<and> jseccomp j = Seccomp sample_lang \<and>
        wDirs w' (jdirp j) = Some (jail_tree (sample_jail_os 1) sample_req ''solution.py'' j) \<and>
        same_resources sample_world (snd (teardown (sample_jail_os 1) j w')) \<and>
        snd (teardown (sample_jail_os 1) (fst (teardown (sample_jail_os 1) j w')) sample_world) = sample_world"
  by (rule new_jail_all_or_nothing [OF sample_wf sample_fresh sample_removals])

end
