(* ===== verification/Copytree.thy ===== *)
theory Copytree
  imports Jail
begin

text \<open>
  The file-tree operations of the runner: \<open>copyTree\<close> and \<open>seedFrom\<close> of
  \<^verbatim>\<open>internal/runner/jail.go\<close>, and \<open>ensureCacheDirs\<close>, \<open>SweepCaches\<close> and \<open>sweepJails\<close> of
  \<^verbatim>\<open>internal/runner/runner.go\<close>. Every system call may fail: \<open>io_err\<close> gives the error of a call on a
  path, \<open>None\<close> for success.
\<close>

section \<open>Copying a tree\<close>

datatype fsop =
    OpReadDir | OpInfo | OpMkdir | OpChown | OpReadlink | OpRemove | OpSymlink | OpLchown
  | OpOpenSrc | OpOpenDst | OpCopy | OpCloseIn | OpCloseOut | OpChmod

record copy_io =
  io_err :: "fsop \<Rightarrow> string list \<Rightarrow> string option"
  io_part :: "string list \<Rightarrow> string"
  io_umask :: "nat \<Rightarrow> nat"

text \<open>
  \<open>os.Remove\<close> with its error discarded: a non-empty directory stays, and so does an entry whose
  removal fails.
\<close>

definition remove_entry :: "copy_io \<Rightarrow> string list \<Rightarrow> string \<Rightarrow> entries \<Rightarrow> entries" where
  "remove_entry io p n dst =
     (if io_err io OpRemove p \<noteq> None then dst
      else (case map_of dst n of
              Some (DirN pm ow (e # es)) \<Rightarrow> dst
            | _ \<Rightarrow> entry_del n dst))"

text \<open>The symlink case: the link itself is read and made again, its target is never opened.\<close>

definition copy_link ::
  "copy_io \<Rightarrow> string list \<Rightarrow> int \<Rightarrow> string \<Rightarrow> string \<Rightarrow> entries \<Rightarrow> string option \<times> entries" where
  "copy_link io p uid n target dst =
     (case io_err io OpReadlink p of
        Some e \<Rightarrow> (Some e, dst)
      | None \<Rightarrow>
          (let d1 = remove_entry io p n dst
           in if map_of d1 n \<noteq> None then (Some ''file exists'', d1)
              else (case io_err io OpSymlink p of
                      Some e \<Rightarrow> (Some e, d1)
                    | None \<Rightarrow>
                        (case io_err io OpLchown p of
                           Some e \<Rightarrow> (Some e, entry_put n (LinkN 0 target) d1)
                         | None \<Rightarrow> (None, entry_put n (LinkN uid target) d1)))))"

text \<open>
  The regular-file case: the new file is opened with \<open>O_EXCL|O_NOFOLLOW\<close>, so an entry that is still
  there fails the copy. Both descriptors are closed before the first of the three errors returns.
\<close>

definition copy_file ::
  "copy_io \<Rightarrow> string list \<Rightarrow> int \<Rightarrow> string \<Rightarrow> nat \<Rightarrow> string \<Rightarrow> entries \<Rightarrow> string option \<times> entries" where
  "copy_file io p uid n perm data dst =
     (case io_err io OpInfo p of
        Some e \<Rightarrow> (Some e, dst)
      | None \<Rightarrow>
          (let d1 = remove_entry io p n dst
           in case io_err io OpOpenSrc p of
                Some e \<Rightarrow> (Some e, d1)
              | None \<Rightarrow>
                  if map_of d1 n \<noteq> None then (Some ''file exists'', d1)
                  else (case io_err io OpOpenDst p of
                          Some e \<Rightarrow> (Some e, d1)
                        | None \<Rightarrow>
                            (let put = (\<lambda>pm ow c. entry_put n (FileN pm ow c) d1);
                                 pm0 = io_umask io perm
                             in case io_err io OpCopy p of
                                  Some e \<Rightarrow> (Some e, put pm0 0 (io_part io p))
                                | None \<Rightarrow>
                                    (case io_err io OpCloseIn p of
                                       Some e \<Rightarrow> (Some e, put pm0 0 data)
                                     | None \<Rightarrow>
                                         (case io_err io OpCloseOut p of
                                            Some e \<Rightarrow> (Some e, put pm0 0 data)
                                          | None \<Rightarrow>
                                              (case io_err io OpChown p of
                                                 Some e \<Rightarrow> (Some e, put pm0 0 data)
                                               | None \<Rightarrow>
                                                   (case io_err io OpChmod p of
                                                      Some e \<Rightarrow> (Some e, put pm0 uid data)
                                                    | None \<Rightarrow> (None, put perm uid data)))))))))"

text \<open>
  \<open>os.MkdirAll\<close> on the destination directory: an existing directory is kept with its permission
  bits, anything else there is an error, and then the chown. The directory before the chown is
  what an error leaves.
\<close>

definition copy_mkdir ::
  "copy_io \<Rightarrow> string list \<Rightarrow> int \<Rightarrow> string \<Rightarrow> nat \<Rightarrow> entries \<Rightarrow>
   (string + nat \<times> entries) \<times> entries" where
  "copy_mkdir io p uid n perm dst =
     (case io_err io OpInfo p of
        Some e \<Rightarrow> (Inl e, dst)
      | None \<Rightarrow>
          (case io_err io OpMkdir p of
             Some e \<Rightarrow> (Inl e, dst)
           | None \<Rightarrow>
               (case map_of dst n of
                  None \<Rightarrow>
                    (case io_err io OpChown p of
                       Some e \<Rightarrow> (Inl e, entry_put n (DirN (io_umask io perm) 0 []) dst)
                     | None \<Rightarrow> (Inr (io_umask io perm, []), dst))
                | Some (DirN pm ow es) \<Rightarrow>
                    (case io_err io OpChown p of
                       Some e \<Rightarrow> (Inl e, dst)
                     | None \<Rightarrow> (Inr (pm, es), dst))
                | Some nd \<Rightarrow> (Inl ''not a directory'', dst))))"

text \<open>The loop over the entries; the first error ends it.\<close>

fun copy_entries ::
  "copy_io \<Rightarrow> string list \<Rightarrow> int \<Rightarrow> entries \<Rightarrow> entries \<Rightarrow> string option \<times> entries" where
  "copy_entries io p uid [] dst = (None, dst)"
| "copy_entries io p uid ((n, FileN pm ow data) # rest) dst =
     (case copy_file io (p @ [n]) uid n pm data dst of
        (Some e, d) \<Rightarrow> (Some e, d)
      | (None, d) \<Rightarrow> copy_entries io p uid rest d)"
| "copy_entries io p uid ((n, LinkN ow target) # rest) dst =
     (case copy_link io (p @ [n]) uid n target dst of
        (Some e, d) \<Rightarrow> (Some e, d)
      | (None, d) \<Rightarrow> copy_entries io p uid rest d)"
| "copy_entries io p uid ((n, SpecialN ow) # rest) dst = copy_entries io p uid rest dst"
| "copy_entries io p uid ((n, DirN pm ow es) # rest) dst =
     (case copy_mkdir io (p @ [n]) uid n pm dst of
        (Inl e, d) \<Rightarrow> (Some e, d)
      | (Inr (pm', sub), d) \<Rightarrow>
          (case (case io_err io OpReadDir (p @ [n]) of
                   Some e \<Rightarrow> (Some e, sub)
                 | None \<Rightarrow> copy_entries io (p @ [n]) uid es sub) of
             (Some e, sub') \<Rightarrow> (Some e, entry_put n (DirN pm' uid sub') d)
           | (None, sub') \<Rightarrow> copy_entries io p uid rest (entry_put n (DirN pm' uid sub') d)))"

definition copyTree ::
  "copy_io \<Rightarrow> string list \<Rightarrow> int \<Rightarrow> entries \<Rightarrow> entries \<Rightarrow> string option \<times> entries" where
  "copyTree io p uid src dst =
     (case io_err io OpReadDir p of
        Some e \<Rightarrow> (Some e, dst)
      | None \<Rightarrow> copy_entries io p uid src dst)"

section \<open>Seeding a jail\<close>

text \<open>The entries of a jail's app directory.\<close>

fun app_of :: "node option \<Rightarrow> (nat \<times> int \<times> entries) option" where
  "app_of (Some (DirN pm ow es)) =
     (case map_of es ''app'' of Some (DirN apm aow aes) \<Rightarrow> Some (apm, aow, aes) | _ \<Rightarrow> None)"
| "app_of _ = None"

definition seedFrom :: "copy_io \<Rightarrow> jail \<Rightarrow> jail \<Rightarrow> jail_world \<Rightarrow> string option \<times> jail_world" where
  "seedFrom io t j w =
     (case app_of (wDirs w (jdirp t)) of
        None \<Rightarrow> (Some ''no such file or directory'', w)
      | Some (_, _, src) \<Rightarrow>
          (case app_of (wDirs w (jdirp j)) of
             None \<Rightarrow> (if src = [] then None else Some ''no such file or directory'', w)
           | Some (apm, aow, dst) \<Rightarrow>
               (case copyTree io [] (juid j) src dst of
                  (r, dst') \<Rightarrow> (r, put_app j (DirN apm aow dst') w))))"

section \<open>Caches and sweeps\<close>

definition cacheBaseDir :: string where
  "cacheBaseDir = ''/var/cache/goboxd''"

datatype mkdir_result = MkOk | MkPermission | MkNotExist | MkOther string

text \<open>
  The result, and the cache directories that belong to the uid afterwards: 0 none, 1 the Go cache,
  2 both.
\<close>

definition ensureCacheDirs ::
  "mkdir_result \<Rightarrow> string option \<Rightarrow> mkdir_result \<Rightarrow> string option \<Rightarrow> string option \<times> nat" where
  "ensureCacheDirs mk1 chown1 mk2 chown2 =
     (case mk1 of
        MkPermission \<Rightarrow> (None, 0)
      | MkNotExist \<Rightarrow> (None, 0)
      | MkOther e \<Rightarrow> (Some (''creating gocache dir: '' @ e), 0)
      | MkOk \<Rightarrow>
          (case chown1 of
             Some e \<Rightarrow> (Some (''chown gocache dir: '' @ e), 0)
           | None \<Rightarrow>
               (case mk2 of
                  MkPermission \<Rightarrow> (None, 1)
                | MkNotExist \<Rightarrow> (None, 1)
                | MkOther e \<Rightarrow> (Some (''creating ccache dir: '' @ e), 1)
                | MkOk \<Rightarrow>
                    (case chown2 of
                       Some e \<Rightarrow> (Some (''chown ccache dir: '' @ e), 1)
                     | None \<Rightarrow> (None, 2)))))"

text \<open>
  A directory listing with each entry's modification time in nanoseconds, \<open>None\<close> when \<open>Info\<close>
  fails. The result lists the entries handed to \<open>os.RemoveAll\<close>; an unreadable directory is \<open>None\<close>.
\<close>

type_synonym listing = "(string \<times> int option) list"

definition minute :: int where
  "minute = 60000000000"

definition SweepCaches :: "int \<Rightarrow> int \<Rightarrow> listing option \<Rightarrow> string list" where
  "SweepCaches maxAge now entries =
     (case entries of None \<Rightarrow> []
      | Some es \<Rightarrow>
          map fst (filter (\<lambda>(n, mt). has_prefix n ''uid-'' \<and>
            (case mt of None \<Rightarrow> False | Some t \<Rightarrow> maxAge = 0 \<or> now - t > maxAge)) es))"

definition sweepJails :: "int \<Rightarrow> int \<Rightarrow> listing option \<Rightarrow> string list" where
  "sweepJails minAge now entries =
     (case entries of None \<Rightarrow> []
      | Some es \<Rightarrow>
          map fst (filter (\<lambda>(n, mt). has_prefix n ''goboxd-jail-'' \<and>
            (case mt of None \<Rightarrow> False | Some t \<Rightarrow> now - t > minAge)) es))"

definition SweepOrphans :: "int \<Rightarrow> listing option \<Rightarrow> string list" where
  "SweepOrphans now entries = sweepJails (30 * minute) now entries"

definition SweepAllJails :: "int \<Rightarrow> listing option \<Rightarrow> string list" where
  "SweepAllJails now entries = sweepJails 0 now entries"

section \<open>What a copy is\<close>

text \<open>
  The reference: the copy of a tree under a new owner drops special entries and keeps the rest,
  links with their target text and files with their permission bits.
\<close>

fun copied :: "(nat \<Rightarrow> nat) \<Rightarrow> int \<Rightarrow> entries \<Rightarrow> entries" where
  "copied um uid [] = []"
| "copied um uid ((n, FileN pm ow data) # rest) = (n, FileN pm uid data) # copied um uid rest"
| "copied um uid ((n, LinkN ow target) # rest) = (n, LinkN uid target) # copied um uid rest"
| "copied um uid ((n, SpecialN ow) # rest) = copied um uid rest"
| "copied um uid ((n, DirN pm ow es) # rest) =
     (n, DirN (um pm) uid (copied um uid es)) # copied um uid rest"

definition no_errors :: "copy_io \<Rightarrow> bool" where
  "no_errors io \<longleftrightarrow> (\<forall>op p. io_err io op p = None)"

fun names_ok :: "entries \<Rightarrow> bool" where
  "names_ok [] = True"
| "names_ok ((n, DirN pm ow es) # rest) = (n \<notin> fst ` set rest \<and> names_ok es \<and> names_ok rest)"
| "names_ok ((n, nd) # rest) = (n \<notin> fst ` set rest \<and> names_ok rest)"

lemma map_of_entry_put: "map_of (entry_put n v es) = (map_of es)(n \<mapsto> v)"
  by (induction n v es rule: entry_put.induct) (auto simp: fun_eq_iff)

lemma map_of_entry_del: "map_of (entry_del n es) = (map_of es)(n := None)"
  unfolding entry_del_def by (induction es) (auto simp: fun_eq_iff)

lemma entry_put_fresh: "n \<notin> fst ` set es \<Longrightarrow> entry_put n v es = es @ [(n, v)]"
  by (induction n v es rule: entry_put.induct) auto

lemma entry_del_fresh: "n \<notin> fst ` set es \<Longrightarrow> entry_del n es = es"
  unfolding entry_del_def by (rule filter_True) auto

lemma map_of_fresh: "n \<notin> fst ` set es \<Longrightarrow> map_of es n = None"
  by (simp add: map_of_eq_None_iff)

lemma copied_names: "fst ` set (copied um uid es) \<subseteq> fst ` set es"
  by (induction um uid es rule: copied.induct) auto

text \<open>Into names that the destination does not have, the loop appends the copy.\<close>

lemma copy_entries_fresh:
  "no_errors io \<Longrightarrow> names_ok src \<Longrightarrow> fst ` set src \<inter> fst ` set dst = {} \<Longrightarrow>
   copy_entries io p uid src dst = (None, dst @ copied (io_umask io) uid src)"
proof (induction io p uid src dst rule: copy_entries.induct)
  case (1 io p uid dst)
  then show ?case by simp
next
  case (2 io p uid n pm ow data rest dst)
  then show ?case
    by (simp add: copy_file_def no_errors_def remove_entry_def entry_put_fresh entry_del_fresh
        map_of_fresh)
next
  case (3 io p uid n ow target rest dst)
  then show ?case
    by (simp add: copy_link_def no_errors_def remove_entry_def entry_put_fresh entry_del_fresh
        map_of_fresh Let_def)
next
  case (4 io p uid n ow rest dst)
  then show ?case by simp
next
  case (5 io p uid n pm ow es rest dst)
  have m: "copy_mkdir io (p @ [n]) uid n pm dst = (Inr (io_umask io pm, []), dst)"
    using 5 by (simp add: copy_mkdir_def no_errors_def map_of_fresh)
  have "copy_entries io (p @ [n]) uid es [] = (None, copied (io_umask io) uid es)"
    using 5 m by (simp add: no_errors_def)
  then show ?case
    using 5 m by (simp add: no_errors_def entry_put_fresh)
qed

text \<open>
  With files already there, as the source file of a new jail is, every copied entry replaces the
  one of its name and every other entry stays.
\<close>

definition mergeable :: "entries \<Rightarrow> entries \<Rightarrow> bool" where
  "mergeable src dst \<longleftrightarrow>
     (\<forall>(n, nd) \<in> set src.
        (case map_of dst n of
           None \<Rightarrow> True
         | Some (DirN pm ow es) \<Rightarrow> False
         | Some _ \<Rightarrow> (case nd of DirN pm ow es \<Rightarrow> False | _ \<Rightarrow> True)))"

lemma mergeable_put:
  assumes "mergeable ((n, nd) # rest) dst" and "n \<notin> fst ` set rest"
  shows "mergeable rest (entry_put n v dst)" and "mergeable rest (entry_put n v (entry_del n dst))"
  using assms unfolding mergeable_def
  by (auto simp: map_of_entry_put map_of_entry_del image_iff split: prod.splits)

lemma merge_put:
  assumes "n \<notin> fst ` set cs"
  shows "map_of (entry_put n v dst) ++ map_of cs = map_of dst ++ map_of ((n, v) # cs)"
    and "map_of (entry_put n v (entry_del n dst)) ++ map_of cs = map_of dst ++ map_of ((n, v) # cs)"
  using map_of_fresh [OF assms]
  by (auto simp: map_of_entry_put map_of_entry_del map_add_def fun_eq_iff split: option.splits)

lemma copy_entries_merge:
  "no_errors io \<Longrightarrow> names_ok src \<Longrightarrow> mergeable src dst \<Longrightarrow>
   \<exists>d. copy_entries io p uid src dst = (None, d) \<and>
       map_of d = map_of dst ++ map_of (copied (io_umask io) uid src)"
proof (induction io p uid src dst rule: copy_entries.induct)
  case (1 io p uid dst)
  then show ?case by simp
next
  case (2 io p uid n pm ow data rest dst)
  let ?d = "entry_put n (FileN pm uid data) (entry_del n dst)"
  have c: "copy_file io (p @ [n]) uid n pm data dst = (None, ?d)"
    using 2(2-) by (auto simp: copy_file_def no_errors_def remove_entry_def mergeable_def
        map_of_entry_del split: option.splits node.splits list.splits)
  have "n \<notin> fst ` set (copied (io_umask io) uid rest)"
    using 2(3) copied_names [of "io_umask io" uid rest] by auto
  moreover have "mergeable rest ?d"
    using 2(3,4) by (intro mergeable_put(2)) auto
  ultimately show ?case
    using 2(1) [OF c [symmetric] refl] 2(2,3) c
    by (simp add: merge_put(2) del: map_of.simps)
next
  case (3 io p uid n ow target rest dst)
  let ?d = "entry_put n (LinkN uid target) (entry_del n dst)"
  have c: "copy_link io (p @ [n]) uid n target dst = (None, ?d)"
    using 3(2-) by (auto simp: copy_link_def no_errors_def remove_entry_def mergeable_def Let_def
        map_of_entry_del split: option.splits node.splits list.splits)
  have "n \<notin> fst ` set (copied (io_umask io) uid rest)"
    using 3(3) copied_names [of "io_umask io" uid rest] by auto
  moreover have "mergeable rest ?d"
    using 3(3,4) by (intro mergeable_put(2)) auto
  ultimately show ?case
    using 3(1) [OF c [symmetric] refl] 3(2,3) c
    by (simp add: merge_put(2) del: map_of.simps)
next
  case (4 io p uid n ow rest dst)
  then show ?case by (simp add: mergeable_def)
next
  case (5 io p uid n pm ow es rest dst)
  have fresh: "map_of dst n = None"
    using 5(5) by (auto simp: mergeable_def split: option.splits node.splits)
  have m: "copy_mkdir io (p @ [n]) uid n pm dst = (Inr (io_umask io pm, []), dst)"
    using 5(3) fresh by (simp add: copy_mkdir_def no_errors_def)
  have s: "copy_entries io (p @ [n]) uid es [] = (None, copied (io_umask io) uid es)"
    using 5(3,4) copy_entries_fresh [of io es "[]"] by simp
  have "n \<notin> fst ` set (copied (io_umask io) uid rest)"
    using 5(4) copied_names [of "io_umask io" uid rest] by auto
  moreover have "mergeable rest (entry_put n (DirN (io_umask io pm) uid (copied (io_umask io) uid es)) dst)"
    using 5(4,5) by (intro mergeable_put(1)) auto
  ultimately show ?case
    using 5(2-4) m s
    by (simp add: no_errors_def merge_put(1) del: map_of.simps)
qed

text \<open>No FIFO, socket or device is ever created by a copy, whatever fails on the way.\<close>

fun plain_node :: "node \<Rightarrow> bool"
  and no_special :: "entries \<Rightarrow> bool" where
  "plain_node (FileN pm ow c) = True"
| "plain_node (LinkN ow t) = True"
| "plain_node (SpecialN ow) = False"
| "plain_node (DirN pm ow es) = no_special es"
| "no_special [] = True"
| "no_special ((n, nd) # es) = (plain_node nd \<and> no_special es)"

lemma no_special_iff: "no_special es \<longleftrightarrow> (\<forall>e \<in> set es. plain_node (snd e))"
  by (induction es) auto

lemma no_special_put: "no_special es \<Longrightarrow> plain_node v \<Longrightarrow> no_special (entry_put n v es)"
  by (induction n v es rule: entry_put.induct) auto

lemma no_special_del: "no_special es \<Longrightarrow> no_special (entry_del n es)"
  by (simp add: no_special_iff entry_del_def)

lemma no_special_remove: "no_special es \<Longrightarrow> no_special (remove_entry io p n es)"
  by (simp add: remove_entry_def no_special_del split: option.splits node.splits list.splits)

lemma no_special_lookup: "no_special es \<Longrightarrow> map_of es n = Some v \<Longrightarrow> plain_node v"
  using map_of_SomeD [of es n v] by (fastforce simp: no_special_iff)

lemmas no_special_intros = no_special_put no_special_remove

lemma copy_file_no_special:
  "no_special dst \<Longrightarrow> copy_file io p uid n pm data dst = (r, d) \<Longrightarrow> no_special d"
  by (auto simp: copy_file_def Let_def no_special_intros split: option.splits if_splits)

lemma copy_link_no_special:
  "no_special dst \<Longrightarrow> copy_link io p uid n t dst = (r, d) \<Longrightarrow> no_special d"
  by (auto simp: copy_link_def Let_def no_special_intros split: option.splits if_splits)

lemma copy_mkdir_no_special:
  assumes "no_special dst" and "copy_mkdir io p uid n pm dst = (r, d)"
  shows "no_special d" and "r = Inr (pm', sub) \<Longrightarrow> no_special sub"
  using assms no_special_lookup [of dst n]
  by (auto simp: copy_mkdir_def no_special_intros split: option.splits node.splits)

lemma copy_entries_no_special:
  "no_special dst \<Longrightarrow> no_special (snd (copy_entries io p uid src dst))"
proof (induction io p uid src dst rule: copy_entries.induct)
  case (5 io p uid n pm ow es rest dst)
  obtain r d where m: "copy_mkdir io (p @ [n]) uid n pm dst = (r, d)" by fastforce
  note ok = copy_mkdir_no_special [OF 5(3) m]
  with 5 m show ?case
    by (fastforce simp: no_special_put split: prod.splits sum.splits option.splits)
qed (auto split: prod.splits option.splits dest: copy_file_no_special copy_link_no_special)

section \<open>Properties\<close>

text \<open>
  C23. Seeding copies the template: when no system call fails, the app directory of the test's jail
  afterwards holds every entry of the template's app directory under the jail's uid, links as links
  and files with their permission bits, in place of an entry of the same name, and keeps its other
  entries; the template is not touched.
\<close>

theorem seed_copies_template:
  assumes "app_of (wDirs w (jdirp t)) = Some (tpm, tow, src)"
    and "app_of (wDirs w (jdirp j)) = Some (apm, aow, dst)"
    and "no_errors io" and "names_ok src" and "mergeable src dst" and "jdirp t \<noteq> jdirp j"
  shows "\<exists>w' d. seedFrom io t j w = (None, w') \<and> app_of (wDirs w' (jdirp j)) = Some (apm, aow, d) \<and>
    map_of d = map_of dst ++ map_of (copied (io_umask io) (juid j) src) \<and>
    wDirs w' (jdirp t) = wDirs w (jdirp t)"
proof -
  obtain d where c: "copy_entries io [] (juid j) src dst = (None, d)"
    and d: "map_of d = map_of dst ++ map_of (copied (io_umask io) (juid j) src)"
    using copy_entries_merge [OF assms(3-5)] by blast
  have "seedFrom io t j w = (None, put_app j (DirN apm aow d) w)"
    using assms(1-3) c by (simp add: seedFrom_def copyTree_def no_errors_def)
  with d assms(6) show ?thesis by (auto simp: put_app_def)
qed

definition seed_world :: jail_world where
  "seed_world = sample_world\<lparr>wDirs := [
     ''/tmp/a'' \<mapsto> DirN perm_0700 10000 [(''app'', DirN perm_0755 10000
       [(''main.c'', FileN perm_0644 10000 ''int main(){}''), (''main'', FileN perm_0755 10000 ''elf''),
        (''link'', LinkN 10000 ''/etc/passwd''), (''pipe'', SpecialN 10000)])],
     ''/tmp/b'' \<mapsto> DirN perm_0700 10001 [(''app'', DirN perm_0755 10001
       [(''main.c'', FileN perm_0644 10001 ''int main(){}'')])]]\<rparr>"

theorem seed_copies_template_witness:
  "\<exists>w' d. seedFrom \<lparr>io_err = (\<lambda>_ _. None), io_part = (\<lambda>_. []), io_umask = id\<rparr>
       \<lparr>jdirp = ''/tmp/a'', juid = 10000, jcg = None, jseccomp = [], jonce = False\<rparr>
       \<lparr>jdirp = ''/tmp/b'', juid = 10001, jcg = None, jseccomp = [], jonce = False\<rparr> seed_world = (None, w') \<and>
     app_of (wDirs w' ''/tmp/b'') = Some (perm_0755, 10001, d) \<and>
     map_of d ''main'' = Some (FileN perm_0755 10001 ''elf'') \<and>
     map_of d ''link'' = Some (LinkN 10001 ''/etc/passwd'') \<and> map_of d ''pipe'' = None"
proof -
  let ?io = "\<lparr>io_err = (\<lambda>_ _. None), io_part = (\<lambda>_. []), io_umask = id\<rparr> :: copy_io"
  let ?t = "\<lparr>jdirp = ''/tmp/a'', juid = 10000, jcg = None, jseccomp = [], jonce = False\<rparr>"
  let ?j = "\<lparr>jdirp = ''/tmp/b'', juid = 10001, jcg = None, jseccomp = [], jonce = False\<rparr>"
  let ?src = "[(''main.c'', FileN perm_0644 10000 ''int main(){}''), (''main'', FileN perm_0755 10000 ''elf''),
        (''link'', LinkN 10000 ''/etc/passwd''), (''pipe'', SpecialN 10000)]"
  let ?dst = "[(''main.c'', FileN perm_0644 10001 ''int main(){}'')]"
  have "\<exists>w' d. seedFrom ?io ?t ?j seed_world = (None, w') \<and>
      app_of (wDirs w' (jdirp ?j)) = Some (perm_0755, 10001, d) \<and>
      map_of d = map_of ?dst ++ map_of (copied (io_umask ?io) (juid ?j) ?src) \<and>
      wDirs w' (jdirp ?t) = wDirs seed_world (jdirp ?t)"
    by (rule seed_copies_template [of _ _ perm_0755 10000])
       (simp_all add: seed_world_def no_errors_def mergeable_def)
  then obtain w' d where r: "seedFrom ?io ?t ?j seed_world = (None, w')"
      "app_of (wDirs w' ''/tmp/b'') = Some (perm_0755, 10001, d)"
    and m: "map_of d = map_of ?dst ++ map_of (copied (io_umask ?io) (juid ?j) ?src)" by auto
  have "map_of d ''main'' = Some (FileN perm_0755 10001 ''elf'')"
    "map_of d ''link'' = Some (LinkN 10001 ''/etc/passwd'')" "map_of d ''pipe'' = None"
    unfolding m by simp_all
  with r show ?thesis by blast
qed

text \<open>
  C24. No FIFO, socket or device is ever created by a copy, whatever the source tree holds and
  whichever system call fails.
\<close>

theorem copy_creates_no_special:
  assumes "no_special dst"
  shows "no_special (snd (copyTree io p uid src dst))"
  using copy_entries_no_special [OF assms] assms by (auto simp: copyTree_def split: option.splits)

theorem copy_creates_no_special_witness:
  "no_special (snd (copyTree \<lparr>io_err = (\<lambda>_ _. None), io_part = (\<lambda>_. []), io_umask = id\<rparr> [] 10001
     [(''pipe'', SpecialN 10000), (''d'', DirN perm_0755 10000 [(''dev'', SpecialN 10000)])] []))"
  by (rule copy_creates_no_special) simp

end
