(* ===== verification/Seccomp.thy ===== *)
theory Seccomp
  imports Prelude
begin

text \<open>
  The seccomp policy of \<^verbatim>\<open>internal/seccomp/\<close>: the embedded kafel deny-list, its parser, and the
  additive merge that builds a per-language policy. The generated syscall table is data. The
  one-time materialisation of the policy file is the generic \<open>once_file\<close> of this theory, which the
  masked host files of the runner use too.
\<close>

section \<open>Files written once per process\<close>

text \<open>
  The state behind a \<open>sync.Once\<close>: whether it ran, and the path and error it left. The operating
  system's answers are the argument: the temp file's name, and the results of writing, closing
  and chmod (\<open>None\<close> is success).
\<close>

record once_file =
  once_done :: bool
  once_path :: string
  once_err :: "string option"

definition once_init :: once_file where
  "once_init = \<lparr>once_done = False, once_path = [], once_err = None\<rparr>"

record temp_os =
  os_create :: "string go_result"
  os_write :: "string option"
  os_close :: "string option"
  os_chmod :: "string option"

definition once_result :: "once_file \<Rightarrow> string go_result" where
  "once_result f = (case once_err f of Some e \<Rightarrow> Inl e | None \<Rightarrow> Inr (once_path f))"

definition PolicyPath :: "temp_os \<Rightarrow> once_file \<Rightarrow> once_file" where
  "PolicyPath os f =
     (if once_done f then f
      else (case os_create os of
              Inl e \<Rightarrow> f\<lparr>once_done := True,
                         once_err := Some (''creating seccomp policy temp file: '' @ e)\<rparr>
            | Inr p \<Rightarrow>
                (case os_write os of
                   Some e \<Rightarrow> f\<lparr>once_done := True, once_path := p,
                              once_err := Some (''writing seccomp policy: '' @ e)\<rparr>
                 | None \<Rightarrow>
                     (case os_close os of
                        Some e \<Rightarrow> f\<lparr>once_done := True, once_path := p,
                                   once_err := Some (''closing seccomp policy: '' @ e)\<rparr>
                      | None \<Rightarrow> f\<lparr>once_done := True, once_path := p\<rparr>))))"

section \<open>Syscall names\<close>

definition validSyscalls :: "string list" where
  "validSyscalls =
     [''accept'', ''accept4'', ''access'', ''acct'', ''add_key'', ''adjtimex'', ''afs_syscall'',
      ''alarm'', ''arch_prctl'', ''bind'', ''bpf'', ''brk'', ''cachestat'', ''capget'',
      ''capset'', ''chdir'', ''chmod'', ''chown'', ''chroot'', ''clock_adjtime'',
      ''clock_getres'', ''clock_gettime'', ''clock_nanosleep'', ''clock_settime'', ''clone'',
      ''clone3'', ''close'', ''close_range'', ''connect'', ''copy_file_range'', ''creat'',
      ''create_module'', ''delete_module'', ''dup'', ''dup2'', ''dup3'', ''epoll_create'',
      ''epoll_create1'', ''epoll_ctl'', ''epoll_ctl_old'', ''epoll_pwait'', ''epoll_pwait2'',
      ''epoll_wait'', ''epoll_wait_old'', ''eventfd'', ''eventfd2'', ''execve'', ''execveat'',
      ''exit'', ''exit_group'', ''faccessat'', ''faccessat2'', ''fadvise64'', ''fallocate'',
      ''fanotify_init'', ''fanotify_mark'', ''fchdir'', ''fchmod'', ''fchmodat'', ''fchmodat2'',
      ''fchown'', ''fchownat'', ''fcntl'', ''fdatasync'', ''fgetxattr'', ''file_getattr'',
      ''file_setattr'', ''finit_module'', ''flistxattr'', ''flock'', ''fork'', ''fremovexattr'',
      ''fsconfig'', ''fsetxattr'', ''fsmount'', ''fsopen'', ''fspick'', ''fstatfs'', ''fsync'',
      ''ftruncate'', ''futex'', ''futex_requeue'', ''futex_wait'', ''futex_waitv'',
      ''futex_wake'', ''futimesat'', ''get_kernel_syms'', ''get_mempolicy'', ''get_robust_list'',
      ''get_thread_area'', ''getcpu'', ''getcwd'', ''getdents'', ''getdents64'', ''getegid'',
      ''geteuid'', ''getgid'', ''getgroups'', ''getitimer'', ''getpeername'', ''getpgid'',
      ''getpgrp'', ''getpid'', ''getpmsg'', ''getppid'', ''getpriority'', ''getrandom'',
      ''getresgid'', ''getresuid'', ''getrlimit'', ''getrusage'', ''getsid'', ''getsockname'',
      ''getsockopt'', ''gettid'', ''gettimeofday'', ''getuid'', ''getxattr'', ''getxattrat'',
      ''init_module'', ''inotify_add_watch'', ''inotify_init'', ''inotify_init1'',
      ''inotify_rm_watch'', ''io_cancel'', ''io_destroy'', ''io_getevents'', ''io_pgetevents'',
      ''io_setup'', ''io_submit'', ''io_uring_enter'', ''io_uring_register'', ''io_uring_setup'',
      ''ioctl'', ''ioperm'', ''iopl'', ''ioprio_get'', ''ioprio_set'', ''kcmp'',
      ''kexec_file_load'', ''kexec_load'', ''keyctl'', ''kill'', ''landlock_add_rule'',
      ''landlock_create_ruleset'', ''landlock_restrict_self'', ''lchown'', ''lgetxattr'',
      ''link'', ''linkat'', ''listen'', ''listmount'', ''listxattr'', ''listxattrat'',
      ''llistxattr'', ''lookup_dcookie'', ''lremovexattr'', ''lseek'', ''lsetxattr'',
      ''lsm_get_self_attr'', ''lsm_list_modules'', ''lsm_set_self_attr'', ''madvise'',
      ''map_shadow_stack'', ''mbind'', ''membarrier'', ''memfd_create'', ''memfd_secret'',
      ''migrate_pages'', ''mincore'', ''mkdir'', ''mkdirat'', ''mknod'', ''mknodat'', ''mlock'',
      ''mlock2'', ''mlockall'', ''mmap'', ''modify_ldt'', ''mount'', ''mount_setattr'',
      ''move_mount'', ''move_pages'', ''mprotect'', ''mq_getsetattr'', ''mq_notify'',
      ''mq_open'', ''mq_timedreceive'', ''mq_timedsend'', ''mq_unlink'', ''mremap'', ''mseal'',
      ''msgctl'', ''msgget'', ''msgrcv'', ''msgsnd'', ''msync'', ''munlock'', ''munlockall'',
      ''munmap'', ''name_to_handle_at'', ''nanosleep'', ''newfstat'', ''newfstatat'',
      ''newlstat'', ''newstat'', ''newuname'', ''nfsservctl'', ''open'', ''open_by_handle_at'',
      ''open_tree'', ''open_tree_attr'', ''openat'', ''openat2'', ''pause'', ''perf_event_open'',
      ''personality'', ''pidfd_getfd'', ''pidfd_open'', ''pidfd_send_signal'', ''pipe'',
      ''pipe2'', ''pivot_root'', ''pkey_alloc'', ''pkey_free'', ''pkey_mprotect'', ''poll'',
      ''ppoll'', ''prctl'', ''pread64'', ''preadv'', ''preadv2'', ''prlimit64'',
      ''process_madvise'', ''process_mrelease'', ''process_vm_readv'', ''process_vm_writev'',
      ''pselect6'', ''ptrace'', ''putpmsg'', ''pwrite64'', ''pwritev'', ''pwritev2'',
      ''query_module'', ''quotactl'', ''quotactl_fd'', ''read'', ''readahead'', ''readlink'',
      ''readlinkat'', ''readv'', ''reboot'', ''recvfrom'', ''recvmmsg'', ''recvmsg'',
      ''remap_file_pages'', ''removexattr'', ''removexattrat'', ''rename'', ''renameat'',
      ''renameat2'', ''request_key'', ''restart_syscall'', ''rmdir'', ''rseq'', ''rt_sigaction'',
      ''rt_sigpending'', ''rt_sigprocmask'', ''rt_sigqueueinfo'', ''rt_sigreturn'',
      ''rt_sigsuspend'', ''rt_sigtimedwait'', ''rt_tgsigqueueinfo'', ''sched_get_priority_max'',
      ''sched_get_priority_min'', ''sched_getaffinity'', ''sched_getattr'', ''sched_getparam'',
      ''sched_getscheduler'', ''sched_rr_get_interval'', ''sched_setaffinity'',
      ''sched_setattr'', ''sched_setparam'', ''sched_setscheduler'', ''sched_yield'',
      ''seccomp'', ''security'', ''select'', ''semctl'', ''semget'', ''semop'', ''semtimedop'',
      ''sendfile64'', ''sendmmsg'', ''sendmsg'', ''sendto'', ''set_mempolicy'',
      ''set_mempolicy_home_node'', ''set_robust_list'', ''set_thread_area'', ''set_tid_address'',
      ''setdomainname'', ''setfsgid'', ''setfsuid'', ''setgid'', ''setgroups'', ''sethostname'',
      ''setitimer'', ''setns'', ''setpgid'', ''setpriority'', ''setregid'', ''setresgid'',
      ''setresuid'', ''setreuid'', ''setrlimit'', ''setsid'', ''setsockopt'', ''settimeofday'',
      ''setuid'', ''setxattr'', ''setxattrat'', ''shmat'', ''shmctl'', ''shmdt'', ''shmget'',
      ''shutdown'', ''sigaltstack'', ''signalfd'', ''signalfd4'', ''socket'', ''socketpair'',
      ''splice'', ''statfs'', ''statmount'', ''statx'', ''swapoff'', ''swapon'', ''symlink'',
      ''symlinkat'', ''sync'', ''sync_file_range'', ''syncfs'', ''sysctl'', ''sysfs'',
      ''sysinfo'', ''syslog'', ''tee'', ''tgkill'', ''time'', ''timer_create'', ''timer_delete'',
      ''timer_getoverrun'', ''timer_gettime'', ''timer_settime'', ''timerfd_create'',
      ''timerfd_gettime'', ''timerfd_settime'', ''times'', ''tkill'', ''truncate'', ''tuxcall'',
      ''umask'', ''umount'', ''unlink'', ''unlinkat'', ''unshare'', ''uretprobe'', ''uselib'',
      ''userfaultfd'', ''ustat'', ''utime'', ''utimensat'', ''utimes'', ''vfork'', ''vhangup'',
      ''vmsplice'', ''vserver'', ''wait4'', ''waitid'', ''write'', ''writev'']"

definition is_numeric_syscall :: "string \<Rightarrow> bool" where
  "is_numeric_syscall s =
     (has_prefix s ''SYSCALL['' \<and> has_suffix s '']'' \<and> 9 < length s \<and>
      list_all is_digit (take (length s - 9) (drop 8 s)))"

definition validSyscall :: "string \<Rightarrow> bool" where
  "validSyscall name = (name \<in> set validSyscalls \<or> is_numeric_syscall name)"

definition ParseSyscallNames :: "string \<Rightarrow> string list" where
  "ParseSyscallNames s =
     (if TrimSpace s = [] then []
      else fields_by (\<lambda>u. if has_prefix u '','' then 1 else lead_seq space_seqs u) [] s)"

section \<open>The policy text\<close>

definition tab_line :: "nat \<times> string \<Rightarrow> string" where
  "tab_line l = replicate (fst l) (CHR 0x09) @ snd l @ newline"

definition policy_header :: string where
  "policy_header = concat (map tab_line
     [(0, ''// goboxd seccomp policy''),
      (0, ''// Blocks syscalls that could be used for sandbox escape or kernel tampering.''),
      (0, ''// All other syscalls are allowed (DEFAULT ALLOW) so normal code execution works.''),
      (0, ''//''),
      (0, ''// NOTE: kafel (nsjail's bundled seccomp policy language) is frozen upstream''),
      (0, ''// and its amd64 syscall table is missing umount2. SYSCALL[166] is umount2''),
      (0, ''// (and umount) on x86_64, which is the only architecture goboxd targets.'')])"

definition policy_deny_lines :: "(nat \<times> string) list" where
  "policy_deny_lines =
     [(2, ''// Filesystem escape''),
      (2, ''mount,''),
      (2, ''umount,''),
      (2, ''SYSCALL[166],''),
      (2, ''pivot_root,''),
      (2, ''chroot,''),
      (2, ''// Process debugging / injection''),
      (2, ''ptrace,''),
      (2, ''// Kernel module tampering''),
      (2, ''create_module,''),
      (2, ''init_module,''),
      (2, ''finit_module,''),
      (2, ''delete_module,''),
      (2, ''// Kernel execution tampering''),
      (2, ''kexec_load,''),
      (2, ''kexec_file_load,''),
      (2, ''reboot,''),
      (2, ''acct,''),
      (2, ''// System identity tampering''),
      (2, ''sethostname,''),
      (2, ''setdomainname,''),
      (2, ''// I/O port manipulation''),
      (2, ''ioperm,''),
      (2, ''iopl,''),
      (2, ''// Swapping''),
      (2, ''swapon,''),
      (2, ''swapoff,''),
      (2, ''// BPF programming''),
      (2, ''bpf'')]"

text \<open>The embedded file \<^verbatim>\<open>seccomp.policy\<close>.\<close>

definition policy :: string where
  "policy =
     policy_header @ concat (map tab_line [(0, ''POLICY goboxd {''), (1, ''DENY {'')]) @
     concat (map tab_line policy_deny_lines) @
     concat (map tab_line [(1, ''}''), (0, ''}''), (0, []), (0, ''USE goboxd DEFAULT ALLOW'')])"

fun last_str_index :: "string \<Rightarrow> string \<Rightarrow> nat option" where
  "last_str_index [] p = (if p = [] then Some 0 else None)"
| "last_str_index (c # s) p =
     (case last_str_index s p of
        Some i \<Rightarrow> Some (Suc i)
      | None \<Rightarrow> if has_prefix (c # s) p then Some 0 else None)"

definition strip_comment :: "string \<Rightarrow> string" where
  "strip_comment ln = (case str_index ln ''//'' of Some i \<Rightarrow> take i ln | None \<Rightarrow> ln)"

text \<open>The entries of the deny block: comments cut, parts trimmed, empty parts dropped.\<close>

definition deny_names :: "string \<Rightarrow> string list" where
  "deny_names body =
     filter (\<lambda>n. n \<noteq> [])
       (map TrimSpace
         (split_char CHR '',''
           (join_char newline (map strip_comment (split_char CHR 0x0A body)))))"

record parsed_policy =
  pp_names :: "string list"
  pp_header :: string
  pp_name :: string
  pp_action :: string

definition parseGlobalPolicyBytes :: "string \<Rightarrow> parsed_policy go_result" where
  "parseGlobalPolicyBytes s =
     (case str_index s ''POLICY '' of
        None \<Rightarrow> Inl ''global seccomp policy: missing POLICY declaration''
      | Some polIdx \<Rightarrow>
          (let afterPol = drop (polIdx + 7) s
           in case index_any afterPol [CHR '' '', CHR 0x09, CHR ''{''] of
                None \<Rightarrow> Inl ''global seccomp policy: malformed POLICY declaration''
              | Some nameEnd \<Rightarrow>
                  (let name = TrimSpace (take nameEnd afterPol)
                   in case str_index (drop polIdx s) ''DENY {'' of
                        None \<Rightarrow> Inl ''global seccomp policy: missing DENY block''
                      | Some blockIdx \<Rightarrow>
                          (let rest = drop (polIdx + blockIdx + 6) s
                           in case str_index rest ''}'' of
                                None \<Rightarrow> Inl ''global seccomp policy: DENY block not closed''
                              | Some bodyEnd \<Rightarrow>
                                  (let tail = ''USE '' @ name @ '' DEFAULT '';
                                       act = (case last_str_index s tail of
                                                Some ui \<Rightarrow> TrimSpace (drop (ui + length tail) s)
                                              | None \<Rightarrow> [])
                                   in if act = [] then
                                        Inl (''global seccomp policy: missing USE '' @ name @
                                             '' DEFAULT <action> tail'')
                                      else Inr \<lparr>pp_names = deny_names (take bodyEnd rest),
                                                pp_header = take polIdx s, pp_name = name,
                                                pp_action = act\<rparr>)))))"

definition parseGlobalPolicy :: "parsed_policy go_result" where
  "parseGlobalPolicy = parseGlobalPolicyBytes policy"

section \<open>Merging\<close>

text \<open>The loop that appends the extras not seen yet; the names so far are the set \<open>seen\<close>.\<close>

fun merge_names :: "string list \<Rightarrow> string list \<Rightarrow> string list" where
  "merge_names names [] = names"
| "merge_names names (e # es) =
     (let e' = TrimSpace e
      in if e' = [] \<or> e' \<in> set names then merge_names names es
         else merge_names (names @ [e']) es)"

fun print_names :: "string list \<Rightarrow> string" where
  "print_names [] = []"
| "print_names [n] = [CHR 0x09, CHR 0x09] @ n @ newline"
| "print_names (n # m # ns) = [CHR 0x09, CHR 0x09] @ n @ '','' @ newline @ print_names (m # ns)"

definition print_policy :: "parsed_policy \<Rightarrow> string" where
  "print_policy p =
     pp_header p @ ''POLICY '' @ pp_name p @ '' {'' @ newline @ [CHR 0x09] @ ''DENY {'' @ newline @
     print_names (pp_names p) @
     [CHR 0x09] @ ''}'' @ newline @ ''}'' @ newline @ newline @
     ''USE '' @ pp_name p @ '' DEFAULT '' @ pp_action p @ newline"

definition CombinedWith :: "string list \<Rightarrow> string go_result" where
  "CombinedWith extras =
     (case find (\<lambda>e. TrimSpace e \<noteq> [] \<and> \<not> validSyscall (TrimSpace e)) extras of
        Some e \<Rightarrow>
          Inl (''seccomp: unknown syscall '' @ [dquote] @ TrimSpace e @ [dquote] @
               '' (not in kafel amd64 table; numeric SYSCALL[n] form is accepted)'')
      | None \<Rightarrow>
          (case parseGlobalPolicy of
             Inl err \<Rightarrow> Inl err
           | Inr p \<Rightarrow> Inr (print_policy (p\<lparr>pp_names := merge_names (pp_names p) extras\<rparr>))))"

section \<open>Trimming and indexing\<close>

text \<open>Printable ASCII, and the ASCII white space that occurs in a policy.\<close>

definition plain_char :: "char \<Rightarrow> bool" where
  "plain_char c \<longleftrightarrow> (33::nat) \<le> of_char c \<and> of_char c \<le> (126::nat)"

definition blank :: "string \<Rightarrow> bool" where
  "blank w \<longleftrightarrow> set w \<subseteq> {CHR 0x09, CHR 0x0A, CHR '' ''}"

definition clean_name :: "string \<Rightarrow> bool" where
  "clean_name n \<longleftrightarrow>
     n \<noteq> [] \<and> (\<forall>c \<in> set n. plain_char c) \<and> set n \<inter> {CHR '','', CHR ''/'', CHR ''}''} = {}"

lemma lead_seq_hd:
  "(\<forall>w \<in> set ws. w = [] \<or> hd w \<noteq> c) \<Longrightarrow> lead_seq ws (c # s) = 0"
  by (induction ws) (auto simp: neq_Nil_conv)

lemma lead_seq_plain:
  assumes "plain_char c"
  shows "lead_seq space_seqs (c # s) = 0" and "lead_seq (map rev space_seqs) (c # s) = 0"
proof -
  from assms have "c \<notin> set (map hd space_seqs)" and "c \<notin> set (map (hd \<circ> rev) space_seqs)"
    by (auto simp: plain_char_def space_seqs_def)
  then show "lead_seq space_seqs (c # s) = 0" "lead_seq (map rev space_seqs) (c # s) = 0"
    by (auto intro!: lead_seq_hd)
qed

lemma strip_front_plain:
  assumes "s = [] \<or> plain_char (hd s)"
  shows "strip_front space_seqs s = s" and "strip_front (map rev space_seqs) s = s"
  using assms
  by (cases s; subst strip_front.simps; simp add: lead_seq_plain)+

lemma lead_seq_blank:
  assumes "c = CHR 0x09 \<or> c = CHR 0x0A \<or> c = CHR '' ''"
  shows "lead_seq space_seqs (c # s) = 1" and "lead_seq (map rev space_seqs) (c # s) = 1"
proof -
  show "lead_seq space_seqs (c # s) = 1"
    using assms by (elim disjE) (simp_all add: space_seqs_def)
  show "lead_seq (map rev space_seqs) (c # s) = 1"
    using assms by (elim disjE) (simp_all add: space_seqs_def)
qed

lemma strip_front_blank:
  assumes "blank w"
  shows "strip_front space_seqs (w @ s) = strip_front space_seqs s"
    and "strip_front (map rev space_seqs) (w @ s) = strip_front (map rev space_seqs) s"
proof -
  show "strip_front space_seqs (w @ s) = strip_front space_seqs s"
    using assms
    by (induction w) (simp, subst strip_front.simps, simp add: blank_def lead_seq_blank)
  show "strip_front (map rev space_seqs) (w @ s) = strip_front (map rev space_seqs) s"
    using assms
    by (induction w) (simp, subst strip_front.simps, simp add: blank_def lead_seq_blank)
qed

lemma TrimSpace_pad:
  assumes "blank w" and "blank w'" and "n \<noteq> []" and "plain_char (hd n)" and "plain_char (last n)"
  shows "TrimSpace (w @ n @ w') = n"
proof -
  have "strip_front space_seqs (w @ n @ w') = n @ w'"
    using assms by (simp add: strip_front_blank strip_front_plain)
  moreover have "blank (rev w')" using assms(2) by (simp add: blank_def)
  moreover have "strip_front (map rev space_seqs) (rev n) = rev n"
    using assms(3,5) by (intro strip_front_plain) (simp add: hd_rev)
  ultimately show ?thesis
    by (simp add: TrimSpace_def strip_front_blank)
qed

lemma clean_name_trim: "clean_name n \<Longrightarrow> blank w \<Longrightarrow> blank w' \<Longrightarrow> TrimSpace (w @ n @ w') = n"
  by (rule TrimSpace_pad) (auto simp: clean_name_def)

lemma str_index_skip:
  assumes "p \<noteq> []" and "hd p \<notin> set a"
  shows "str_index (a @ p @ b) p = Some (length a)"
  using assms
proof (induction a)
  case Nil
  then show ?case by (cases p) (simp_all add: has_prefix_iff prefix_def)
next
  case (Cons c a)
  then show ?case by (cases p) auto
qed

lemma index_any_skip:
  "set a \<inter> set cs = {} \<Longrightarrow> c \<in> set cs \<Longrightarrow> index_any (a @ c # b) cs = Some (length a)"
  by (induction a) auto

lemma last_str_index_skip:
  "last_str_index s p = Some i \<Longrightarrow> last_str_index (a @ s) p = Some (length a + i)"
  by (induction a) auto

section \<open>Parsing what was printed\<close>

text \<open>A list of entries, each after its own blank text, separated by commas.\<close>

fun pad_print :: "(string \<times> string) list \<Rightarrow> string \<Rightarrow> string" where
  "pad_print [] e = e"
| "pad_print [(w, n)] e = w @ n @ e"
| "pad_print ((w, n) # q # ps) e = w @ n @ CHR '','' # pad_print (q # ps) e"

lemma blank_no_comma: "blank w \<Longrightarrow> CHR '','' \<notin> set w"
  by (auto simp: blank_def)

lemma pad_print_entries:
  assumes "ps \<noteq> []" and "\<forall>(w, n) \<in> set ps. blank w \<and> clean_name n" and "blank e"
  shows "filter (\<lambda>n. n \<noteq> []) (map TrimSpace (split_char CHR '','' (pad_print ps e))) = map snd ps"
  using assms
proof (induction ps e rule: pad_print.induct)
  case (2 w n e)
  then have "CHR '','' \<notin> set (w @ n @ e)" and "n \<noteq> []"
    by (auto simp: clean_name_def dest: blank_no_comma)
  with 2 clean_name_trim [of n w e] show ?case by simp
next
  case (3 w n q ps e)
  then have "CHR '','' \<notin> set (w @ n)" and n: "n \<noteq> []"
    by (auto simp: clean_name_def dest: blank_no_comma)
  then have "split_char CHR '','' ((w @ n) @ CHR '','' # pad_print (q # ps) e) =
      (w @ n) # split_char CHR '','' (pad_print (q # ps) e)"
    by (intro split_char_append)
  with 3 n clean_name_trim [of n w "[]"] show ?case by (simp add: blank_def)
qed simp

text \<open>Without a slash there is no comment to strip.\<close>

lemma strip_comment_none: "CHR ''/'' \<notin> set ln \<Longrightarrow> strip_comment ln = ln"
  by (induction ln) (auto simp: strip_comment_def split: option.splits)

lemma deny_names_no_comment:
  assumes "CHR ''/'' \<notin> set body"
  shows "deny_names body =
    filter (\<lambda>n. n \<noteq> []) (map TrimSpace (split_char CHR '','' body))"
proof -
  have "map strip_comment (split_char CHR 0x0A body) = split_char CHR 0x0A body"
  proof (rule map_idI)
    fix ln assume "ln \<in> set (split_char CHR 0x0A body)"
    then have "set ln \<subseteq> set body" by (rule split_char_subset)
    with assms show "strip_comment ln = ln" by (intro strip_comment_none) auto
  qed
  then show ?thesis by (simp add: deny_names_def)
qed

text \<open>The shape of a policy text: whatever stands in the deny block is what the parser sees.\<close>

definition policy_text :: "string \<Rightarrow> string \<Rightarrow> string" where
  "policy_text header body =
     header @ ''POLICY goboxd {'' @ newline @ [CHR 0x09] @ ''DENY {'' @ body @
     ''}'' @ newline @ ''}'' @ newline @ newline @ ''USE goboxd DEFAULT ALLOW'' @ newline"

lemma use_tail:
  "last_str_index (''USE goboxd DEFAULT ALLOW'' @ newline) ''USE goboxd DEFAULT '' = Some 0"
  by code_simp

lemma parse_policy_text:
  assumes "CHR ''P'' \<notin> set header" and "CHR ''}'' \<notin> set body"
  shows "parseGlobalPolicyBytes (policy_text header body) =
    Inr \<lparr>pp_names = deny_names body, pp_header = header, pp_name = ''goboxd'', pp_action = ''ALLOW''\<rparr>"
proof -
  let ?s = "policy_text header body"
  let ?tail = "''USE goboxd DEFAULT ALLOW'' @ newline"
  let ?mid = "newline @ ''}'' @ newline @ newline @ ?tail"
  let ?after = "''goboxd'' @ '' {'' @ newline @ [CHR 0x09] @ ''DENY {'' @ body @ ''}'' @ ?mid"
  have s: "?s = header @ ''POLICY '' @ ?after" by (simp add: policy_text_def)
  have i1: "str_index ?s ''POLICY '' = Some (length header)"
    unfolding s by (rule str_index_skip) (use assms(1) in simp_all)
  have d1: "drop (length header + 7) ?s = ?after"
    unfolding s by simp
  have i2: "index_any ?after [CHR '' '', CHR 0x09, CHR ''{''] = Some 6"
    by simp
  have t: "TrimSpace ''goboxd'' = ''goboxd''" by code_simp
  have d2: "drop (length header) ?s =
      (''POLICY goboxd {'' @ newline @ [CHR 0x09]) @ ''DENY {'' @ body @ ''}'' @ ?mid"
    unfolding s by simp
  have i3: "str_index (drop (length header) ?s) ''DENY {'' = Some 17"
    unfolding d2 by (subst str_index_skip) simp_all
  have d3: "drop (length header + 17 + 6) ?s = body @ ''}'' @ ?mid"
    unfolding s by simp
  have i4: "str_index (body @ ''}'' @ ?mid) ''}'' = Some (length body)"
    by (rule str_index_skip) (use assms(2) in simp_all)
  let ?pre = "header @ ''POLICY goboxd {'' @ newline @ [CHR 0x09] @ ''DENY {'' @ body @
     ''}'' @ newline @ ''}'' @ newline @ newline"
  have s2: "?s = ?pre @ ?tail" by (simp add: policy_text_def)
  have i5: "last_str_index ?s ''USE goboxd DEFAULT '' = Some (length ?pre)"
    unfolding s2 using last_str_index_skip [OF use_tail, of ?pre] by simp
  have d5: "drop (length ?pre + length ''USE goboxd DEFAULT '') ?s = ''ALLOW'' @ newline"
    unfolding s2 by (subst drop_length_add) simp
  have a: "TrimSpace (''ALLOW'' @ newline) = ''ALLOW''" by code_simp
  have "take 6 ?after = ''goboxd''" by simp
  with t have n: "TrimSpace (take 6 ?after) = ''goboxd''" by simp
  have u: "''USE '' @ ''goboxd'' @ '' DEFAULT '' = ''USE goboxd DEFAULT ''" by simp
  have b: "take (length body) (body @ ''}'' @ ?mid) = body" by simp
  have h: "take (length header) ?s = header" unfolding s by simp
  show ?thesis
    unfolding parseGlobalPolicyBytes_def Let_def i1 option.case d1 i2 n i3 d3 i4 u i5 d5 a b h
    by simp
qed

section \<open>The embedded policy\<close>

definition global_names :: "string list" where
  "global_names =
     [''mount'', ''umount'', ''SYSCALL[166]'', ''pivot_root'', ''chroot'', ''ptrace'', ''create_module'',
      ''init_module'', ''finit_module'', ''delete_module'', ''kexec_load'', ''kexec_file_load'',
      ''reboot'', ''acct'', ''sethostname'', ''setdomainname'', ''ioperm'', ''iopl'', ''swapon'',
      ''swapoff'', ''bpf'']"

lemma split_lines:
  assumes "\<forall>l \<in> set ls. CHR 0x0A \<notin> set (snd l)" and "CHR 0x0A \<notin> set e"
  shows "split_char CHR 0x0A (concat (map tab_line ls) @ e) =
    map (\<lambda>l. replicate (fst l) (CHR 0x09) @ snd l) ls @ [e]"
  using assms
proof (induction ls)
  case (Cons l ls)
  let ?p = "replicate (fst l) (CHR 0x09) @ snd l"
  have eq: "concat (map tab_line (l # ls)) @ e = ?p @ CHR 0x0A # (concat (map tab_line ls) @ e)"
    by (simp add: tab_line_def)
  have nt: "CHR 0x0A \<notin> set ?p" using Cons.prems by auto
  have "split_char CHR 0x0A (concat (map tab_line (l # ls)) @ e) =
      ?p # split_char CHR 0x0A (concat (map tab_line ls) @ e)"
    by (simp only: eq split_char_append [OF nt])
  with Cons show ?case by simp
qed simp

lemma strip_comment_tabs:
  "strip_comment (replicate k (CHR 0x09) @ w) = replicate k (CHR 0x09) @ strip_comment w"
  by (induction k) (auto simp: strip_comment_def split: option.splits)

definition stripped_lines :: "string list" where
  "stripped_lines =
     [[], ''mount,'', ''umount,'', ''SYSCALL[166],'', ''pivot_root,'', ''chroot,'', [], ''ptrace,'', [],
      ''create_module,'', ''init_module,'', ''finit_module,'', ''delete_module,'', [], ''kexec_load,'',
      ''kexec_file_load,'', ''reboot,'', ''acct,'', [], ''sethostname,'', ''setdomainname,'', [],
      ''ioperm,'', ''iopl,'', [], ''swapon,'', ''swapoff,'', [], ''bpf'']"

lemma stripped: "map (strip_comment \<circ> snd) policy_deny_lines = stripped_lines"
  by code_simp

lemma deny_two_tabs: "\<forall>l \<in> set policy_deny_lines. fst l = 2 \<and> CHR 0x0A \<notin> set (snd l)"
  by (simp add: policy_deny_lines_def)

definition policy_body :: string where
  "policy_body = newline @ concat (map tab_line policy_deny_lines) @ [CHR 0x09]"

lemma policy_shape: "policy = policy_text policy_header policy_body"
  by (simp add: policy_def policy_text_def policy_body_def tab_line_def)

lemma body_stripped:
  "map strip_comment (split_char CHR 0x0A policy_body) =
     [] # map (\<lambda>w. [CHR 0x09, CHR 0x09] @ w) stripped_lines @ [[CHR 0x09]]"
proof -
  have "split_char CHR 0x0A policy_body =
      [] # split_char CHR 0x0A (concat (map tab_line policy_deny_lines) @ [CHR 0x09])"
    by (simp add: policy_body_def)
  also have "split_char CHR 0x0A (concat (map tab_line policy_deny_lines) @ [CHR 0x09]) =
      map (\<lambda>l. replicate (fst l) (CHR 0x09) @ snd l) policy_deny_lines @ [[CHR 0x09]]"
    by (rule split_lines) (use deny_two_tabs in simp_all)
  finally have "map strip_comment (split_char CHR 0x0A policy_body) =
      strip_comment [] # map (strip_comment \<circ> (\<lambda>l. replicate (fst l) (CHR 0x09) @ snd l))
        policy_deny_lines @ [strip_comment [CHR 0x09]]"
    by simp
  also have "map (strip_comment \<circ> (\<lambda>l. replicate (fst l) (CHR 0x09) @ snd l)) policy_deny_lines =
      map (\<lambda>w. [CHR 0x09, CHR 0x09] @ w) (map (strip_comment \<circ> snd) policy_deny_lines)"
    using deny_two_tabs strip_comment_tabs [of 2] by (auto simp: numeral_2_eq_2)
  finally have r: "map strip_comment (split_char CHR 0x0A policy_body) =
      strip_comment [] # map (\<lambda>w. [CHR 0x09, CHR 0x09] @ w) stripped_lines @
        [strip_comment [CHR 0x09]]"
    unfolding stripped .
  have "strip_comment [] = []" and "strip_comment [CHR 0x09] = [CHR 0x09]"
    by (simp_all add: strip_comment_def)
  with r show ?thesis by simp
qed

definition body_pads :: "(string \<times> string) list" where
  "body_pads =
     (let i = newline @ [CHR 0x09, CHR 0x09]; ii = i @ i
      in [(ii, ''mount''), (i, ''umount''), (i, ''SYSCALL[166]''), (i, ''pivot_root''), (i, ''chroot''),
          (ii, ''ptrace''), (ii, ''create_module''), (i, ''init_module''), (i, ''finit_module''),
          (i, ''delete_module''), (ii, ''kexec_load''), (i, ''kexec_file_load''), (i, ''reboot''),
          (i, ''acct''), (ii, ''sethostname''), (i, ''setdomainname''), (ii, ''ioperm''), (i, ''iopl''),
          (ii, ''swapon''), (i, ''swapoff''), (ii, ''bpf'')])"

lemma body_joined:
  "join_char newline ([] # map (\<lambda>w. [CHR 0x09, CHR 0x09] @ w) stripped_lines @ [[CHR 0x09]]) =
     pad_print body_pads (newline @ [CHR 0x09])"
  by (simp add: stripped_lines_def body_pads_def Let_def)

lemma global_clean: "\<forall>n \<in> set global_names. clean_name n"
  by (simp add: global_names_def clean_name_def plain_char_def)

lemma body_pads_names: "map snd body_pads = global_names"
  by (simp add: body_pads_def global_names_def Let_def)

lemma body_pads_blank: "\<forall>(w, n) \<in> set body_pads. blank w"
  by (simp add: body_pads_def Let_def blank_def)

lemma deny_names_policy: "deny_names policy_body = global_names"
proof -
  have "clean_name n" if "(w, n) \<in> set body_pads" for w n
    using that global_clean body_pads_names by (metis image_eqI list.set_map snd_conv)
  with body_pads_blank have "\<forall>(w, n) \<in> set body_pads. blank w \<and> clean_name n" by blast
  moreover have "body_pads \<noteq> []" by (simp add: body_pads_def Let_def)
  ultimately have "filter (\<lambda>n. n \<noteq> []) (map TrimSpace (split_char CHR '',''
      (pad_print body_pads (newline @ [CHR 0x09])))) = map snd body_pads"
    by (intro pad_print_entries) (simp_all add: blank_def)
  then show ?thesis
    unfolding deny_names_def body_stripped body_joined body_pads_names .
qed

lemma parse_global:
  "parseGlobalPolicy =
     Inr \<lparr>pp_names = global_names, pp_header = policy_header, pp_name = ''goboxd'', pp_action = ''ALLOW''\<rparr>"
proof -
  have "CHR ''P'' \<notin> set policy_header" by (simp add: policy_header_def tab_line_def)
  moreover have "CHR ''}'' \<notin> set policy_body"
    by (simp add: policy_body_def policy_deny_lines_def tab_line_def)
  ultimately show ?thesis
    by (simp add: parseGlobalPolicy_def policy_shape parse_policy_text deny_names_policy)
qed

section \<open>The merge is additive\<close>

lemma merge_names_prefix: "prefix names (merge_names names es)"
proof (induction names es rule: merge_names.induct)
  case (2 names e es)
  then show ?case by (auto simp: Let_def dest: append_prefixD)
qed simp

lemma merge_names_set:
  "set (merge_names names es) = set names \<union> (TrimSpace ` set es - {[]})"
  by (induction names es rule: merge_names.induct) (auto simp: Let_def)

lemma merge_names_distinct: "distinct names \<Longrightarrow> distinct (merge_names names es)"
  by (induction names es rule: merge_names.induct) (auto simp: Let_def)

lemma CombinedWith_ok:
  assumes "CombinedWith extras = Inr out"
  shows "\<forall>e \<in> set extras. TrimSpace e = [] \<or> validSyscall (TrimSpace e)"
    and "out = policy_text policy_header
      (newline @ print_names (merge_names global_names extras) @ [CHR 0x09])"
proof -
  have f: "find (\<lambda>e. TrimSpace e \<noteq> [] \<and> \<not> validSyscall (TrimSpace e)) extras = None"
    using assms unfolding CombinedWith_def by (simp split: option.splits)
  then show "\<forall>e \<in> set extras. TrimSpace e = [] \<or> validSyscall (TrimSpace e)"
    unfolding find_None_iff by blast
  show "out = policy_text policy_header
      (newline @ print_names (merge_names global_names extras) @ [CHR 0x09])"
    using assms unfolding CombinedWith_def f option.case parse_global sum.case sum.inject
    by (simp add: print_policy_def policy_text_def del: merge_names.simps)
qed

lemma print_names_pad:
  "ns \<noteq> [] \<Longrightarrow> newline @ print_names ns @ [CHR 0x09] =
     pad_print (map (\<lambda>n. (newline @ [CHR 0x09, CHR 0x09], n)) ns) (newline @ [CHR 0x09])"
  by (induction ns rule: print_names.induct) auto

lemma print_names_chars: "set (print_names ns) \<subseteq> {CHR 0x09, CHR 0x0A, CHR '',''} \<union> \<Union> (set ` set ns)"
  by (induction ns rule: print_names.induct) auto

lemma deny_names_printed:
  assumes "ns \<noteq> []" and "\<forall>n \<in> set ns. clean_name n"
  shows "deny_names (newline @ print_names ns @ [CHR 0x09]) = ns"
    and "CHR ''}'' \<notin> set (newline @ print_names ns @ [CHR 0x09])"
proof -
  have no: "x \<notin> set (newline @ print_names ns @ [CHR 0x09])" if x: "x = CHR ''/'' \<or> x = CHR ''}''" for x
  proof -
    have "x \<notin> set n" if "n \<in> set ns" for n
      using assms(2) that x unfolding clean_name_def by blast
    moreover have "x \<notin> {CHR 0x09, CHR 0x0A, CHR '',''}" using x by (elim disjE) simp_all
    ultimately have "x \<notin> set (print_names ns)" using print_names_chars [of ns] by blast
    moreover have "x \<noteq> CHR 0x0A" "x \<noteq> CHR 0x09" using x by (elim disjE; simp)+
    ultimately show ?thesis by simp
  qed
  then show "CHR ''}'' \<notin> set (newline @ print_names ns @ [CHR 0x09])" by blast
  have "CHR ''/'' \<notin> set (newline @ print_names ns @ [CHR 0x09])" using no by blast
  then have "deny_names (newline @ print_names ns @ [CHR 0x09]) =
      filter (\<lambda>n. n \<noteq> []) (map TrimSpace (split_char CHR '','' (newline @ print_names ns @ [CHR 0x09])))"
    by (rule deny_names_no_comment)
  also have "\<dots> = map snd (map (\<lambda>n. (newline @ [CHR 0x09, CHR 0x09], n)) ns)"
    unfolding print_names_pad [OF assms(1)]
    by (rule pad_print_entries) (use assms in \<open>auto simp: blank_def\<close>)
  finally show "deny_names (newline @ print_names ns @ [CHR 0x09]) = ns"
    by (simp add: comp_def)
qed

lemma is_digit_clean: "is_digit c \<Longrightarrow> plain_char c \<and> c \<notin> {CHR '','', CHR ''/'', CHR ''}''}"
  by (auto simp: is_digit_def plain_char_def)

lemma numeric_clean:
  assumes "is_numeric_syscall s"
  shows "clean_name s"
proof -
  obtain r where r: "s = ''SYSCALL['' @ r"
    using assms by (auto simp: is_numeric_syscall_def has_prefix_iff prefix_def)
  obtain d where d: "r = d @ '']''"
    using assms unfolding r
    by (cases r rule: rev_cases) (auto simp: is_numeric_syscall_def has_suffix_iff suffix_def)
  have "\<forall>c \<in> set d. is_digit c"
    using assms unfolding r d by (simp add: is_numeric_syscall_def list_all_iff)
  then have "\<forall>c \<in> set d. plain_char c \<and> c \<notin> {CHR '','', CHR ''/'', CHR ''}''}"
    using is_digit_clean by blast
  then show ?thesis
    unfolding r d by (auto simp: clean_name_def plain_char_def)
qed

definition clean_chars :: "string \<Rightarrow> bool" where
  "clean_chars n =
     list_all (\<lambda>c. plain_char c \<and> c \<noteq> CHR '','' \<and> c \<noteq> CHR ''/'' \<and> c \<noteq> CHR ''}'') n"

lemma clean_name_chars: "n \<noteq> [] \<Longrightarrow> clean_chars n \<Longrightarrow> clean_name n"
  by (auto simp: clean_name_def clean_chars_def list_all_iff)

text \<open>Every table entry is made of lower-case letters, digits and underscores.\<close>

definition name_char :: "char \<Rightarrow> bool" where
  "name_char c \<longleftrightarrow> c \<in> set ''abcdefghijklmnopqrstuvwxyz0123456789_''"

lemma name_char_simps:
  "name_char CHR ''a''"
  "name_char CHR ''b''"
  "name_char CHR ''c''"
  "name_char CHR ''d''"
  "name_char CHR ''e''"
  "name_char CHR ''f''"
  "name_char CHR ''g''"
  "name_char CHR ''h''"
  "name_char CHR ''i''"
  "name_char CHR ''j''"
  "name_char CHR ''k''"
  "name_char CHR ''l''"
  "name_char CHR ''m''"
  "name_char CHR ''n''"
  "name_char CHR ''o''"
  "name_char CHR ''p''"
  "name_char CHR ''q''"
  "name_char CHR ''r''"
  "name_char CHR ''s''"
  "name_char CHR ''t''"
  "name_char CHR ''u''"
  "name_char CHR ''v''"
  "name_char CHR ''w''"
  "name_char CHR ''x''"
  "name_char CHR ''y''"
  "name_char CHR ''z''"
  "name_char CHR ''0''"
  "name_char CHR ''1''"
  "name_char CHR ''2''"
  "name_char CHR ''3''"
  "name_char CHR ''4''"
  "name_char CHR ''5''"
  "name_char CHR ''6''"
  "name_char CHR ''7''"
  "name_char CHR ''8''"
  "name_char CHR ''9''"
  "name_char CHR ''_''"
  by (simp_all add: name_char_def)

lemma table_names: "list_all (\<lambda>n. n \<noteq> [] \<and> list_all name_char n) validSyscalls"
  by (simp only: validSyscalls_def list.pred_inject name_char_simps list.distinct simp_thms)

lemma name_char_clean:
  "name_char c \<Longrightarrow> plain_char c \<and> c \<noteq> CHR '','' \<and> c \<noteq> CHR ''/'' \<and> c \<noteq> CHR ''}''"
  by (auto simp: name_char_def plain_char_def)

lemma table_clean: "list_all (\<lambda>n. n \<noteq> [] \<and> clean_chars n) validSyscalls"
  using table_names name_char_clean unfolding list_all_iff clean_chars_def by blast

lemma validSyscall_clean:
  assumes "validSyscall n"
  shows "clean_name n"
proof (cases "is_numeric_syscall n")
  case True
  then show ?thesis by (rule numeric_clean)
next
  case False
  with assms have "n \<in> set validSyscalls" by (simp add: validSyscall_def)
  with table_clean have "n \<noteq> []" and "clean_chars n" unfolding list_all_iff by blast+
  then show ?thesis by (rule clean_name_chars)
qed

lemma merged_clean:
  assumes "\<forall>e \<in> set extras. TrimSpace e = [] \<or> validSyscall (TrimSpace e)"
  shows "\<forall>n \<in> set (merge_names global_names extras). clean_name n"
proof
  fix n
  assume "n \<in> set (merge_names global_names extras)"
  then consider "n \<in> set global_names" | e where "e \<in> set extras" "n = TrimSpace e" "n \<noteq> []"
    unfolding merge_names_set by blast
  then show "clean_name n"
  proof cases
    case 1
    with global_clean show ?thesis by blast
  next
    case 2
    with assms validSyscall_clean show ?thesis by blast
  qed
qed

lemma merged_nonempty: "merge_names global_names extras \<noteq> []"
proof -
  have "global_names \<noteq> []" by (simp add: global_names_def)
  with merge_names_prefix [of global_names extras] show ?thesis by auto
qed

text \<open>A combined policy parses back to the merged deny-list under the same header, name and action.\<close>

lemma CombinedWith_parses:
  assumes "CombinedWith extras = Inr out"
  shows "parseGlobalPolicyBytes out =
    Inr \<lparr>pp_names = merge_names global_names extras, pp_header = policy_header,
         pp_name = ''goboxd'', pp_action = ''ALLOW''\<rparr>"
proof -
  note ok = CombinedWith_ok [OF assms]
  have "CHR ''P'' \<notin> set policy_header" by (simp add: policy_header_def tab_line_def)
  from parse_policy_text [OF this deny_names_printed(2) [OF merged_nonempty merged_clean [OF ok(1)]]]
  show ?thesis
    unfolding ok(2) deny_names_printed(1) [OF merged_nonempty merged_clean [OF ok(1)]] .
qed

lemma CombinedWith_total:
  assumes "\<forall>e \<in> set extras. TrimSpace e = [] \<or> validSyscall (TrimSpace e)"
  shows "\<exists>out. CombinedWith extras = Inr out"
proof -
  have "find (\<lambda>e. TrimSpace e \<noteq> [] \<and> \<not> validSyscall (TrimSpace e)) extras = None"
    unfolding find_None_iff using assms by blast
  then show ?thesis unfolding CombinedWith_def by (simp add: parse_global)
qed

lemma CombinedWith_rejects:
  assumes "e \<in> set extras" and "TrimSpace e \<noteq> []" and "\<not> validSyscall (TrimSpace e)"
  shows "\<exists>msg. CombinedWith extras = Inl msg"
  using assms CombinedWith_ok(1) [of extras] by (cases "CombinedWith extras") blast+

section \<open>Materialising the policy file once\<close>

lemma PolicyPath_done: "once_done (PolicyPath os f)"
  by (simp add: PolicyPath_def split: sum.splits option.splits)

lemma PolicyPath_stable: "PolicyPath os' (PolicyPath os f) = PolicyPath os f"
  by (simp add: PolicyPath_def [of os'] PolicyPath_done)

section \<open>The contract of a file written once\<close>

locale once_cell =
  fixes call :: "temp_os \<Rightarrow> once_file \<Rightarrow> once_file"
  assumes ran_once: "once_done (call os f)"
    and no_rerun: "once_done f \<Longrightarrow> call os f = f"
begin

text \<open>However often and with whatever answers it is called again, the first result stays.\<close>

lemma first_wins: "fold call oss (call os f) = call os f"
  by (induction oss) (simp_all add: no_rerun ran_once)

end

interpretation policy_once: once_cell PolicyPath
  by unfold_locales (rule PolicyPath_done, simp add: PolicyPath_def)

section \<open>Properties\<close>

lemma global_distinct: "distinct global_names"
  by (simp add: global_names_def)

lemma CombinedWith_extends:
  assumes "CombinedWith extras = Inr out"
  shows "\<exists>p q. parseGlobalPolicy = Inr p \<and> parseGlobalPolicyBytes out = Inr q \<and>
       pp_header q = pp_header p \<and> pp_name q = pp_name p \<and> pp_action q = pp_action p \<and>
       prefix (pp_names p) (pp_names q) \<and> distinct (pp_names q) \<and>
       set (pp_names q) = set (pp_names p) \<union> (TrimSpace ` set extras - {[]})"
proof -
  let ?n = "merge_names global_names extras"
  let ?p = "\<lparr>pp_names = global_names, pp_header = policy_header, pp_name = ''goboxd'', pp_action = ''ALLOW''\<rparr>"
  let ?q = "?p\<lparr>pp_names := ?n\<rparr>"
  have "pp_names ?p = global_names" "pp_names ?q = ?n" by simp_all
  moreover have "parseGlobalPolicyBytes out = Inr ?q" using CombinedWith_parses [OF assms] by simp
  moreover have "pp_header ?q = pp_header ?p" "pp_name ?q = pp_name ?p" "pp_action ?q = pp_action ?p" by simp_all
  ultimately show ?thesis
    using parse_global merge_names_prefix [of global_names extras]
      merge_names_distinct [OF global_distinct, of extras] merge_names_set [of global_names extras]
    by metis
qed

text \<open>
  C15. A language can only add to the global deny-list: \<open>CombinedWith\<close> succeeds exactly when every
  non-blank entry is a known system call, and the policy it prints parses back to the global
  policy's names, in order and unchanged, followed by the new ones, each name once, under the same
  header and default action.
\<close>

theorem combined_policy_extends_global:
  "((\<exists>out. CombinedWith extras = Inr out) \<longleftrightarrow>
     (\<forall>e \<in> set extras. TrimSpace e = [] \<or> validSyscall (TrimSpace e))) \<and>
   (\<forall>out. CombinedWith extras = Inr out \<longrightarrow>
     (\<exists>p q. parseGlobalPolicy = Inr p \<and> parseGlobalPolicyBytes out = Inr q \<and>
       pp_header q = pp_header p \<and> pp_name q = pp_name p \<and> pp_action q = pp_action p \<and>
       prefix (pp_names p) (pp_names q) \<and> distinct (pp_names q) \<and>
       set (pp_names q) = set (pp_names p) \<union> (TrimSpace ` set extras - {[]})))"
proof (intro conjI allI impI)
  show "(\<exists>out. CombinedWith extras = Inr out) \<longleftrightarrow>
     (\<forall>e \<in> set extras. TrimSpace e = [] \<or> validSyscall (TrimSpace e))"
    using CombinedWith_total CombinedWith_ok(1) by blast
qed (rule CombinedWith_extends)

lemma socket_valid: "validSyscall ''socket'' \<and> TrimSpace '' socket'' = ''socket''"
proof
  show "validSyscall ''socket''" by (simp add: validSyscall_def validSyscalls_def)
  show "TrimSpace '' socket'' = ''socket''" by code_simp
qed

theorem combined_policy_extends_global_witness:
  "\<exists>out p q. CombinedWith ['' socket''] = Inr out \<and> parseGlobalPolicy = Inr p \<and>
     parseGlobalPolicyBytes out = Inr q \<and> prefix (pp_names p) (pp_names q) \<and>
     set (pp_names q) = set (pp_names p) \<union> (TrimSpace ` set ['' socket''] - {[]})"
proof -
  have "\<forall>e \<in> set ['' socket'']. TrimSpace e = [] \<or> validSyscall (TrimSpace e)"
    using socket_valid by simp
  then obtain out where o: "CombinedWith ['' socket''] = Inr out"
    using conjunct1 [OF combined_policy_extends_global [of "['' socket'']"]] by blast
  obtain p q where "parseGlobalPolicy = Inr p \<and> parseGlobalPolicyBytes out = Inr q \<and>
      prefix (pp_names p) (pp_names q) \<and>
      set (pp_names q) = set (pp_names p) \<union> (TrimSpace ` set ['' socket''] - {[]})"
    using conjunct2 [OF combined_policy_extends_global [of "['' socket'']"], rule_format, OF o] by blast
  with o show ?thesis by (intro exI conjI) (elim conjE; assumption)+
qed

end
