(* ===== verification/Nsjail.thy ===== *)
theory Nsjail
  imports Seccomp Cgroup
begin

text \<open>
  The nsjail command line of \<^verbatim>\<open>internal/runner/runner.go\<close> and the masked host files of
  \<^verbatim>\<open>internal/runner/hosts.go\<close>. The argument list is built as a list of option groups, one flag with
  its operand each, in the order of the code; nsjail reads the groups left to right, so a later
  mount lies on top of an earlier one.
\<close>

section \<open>Masked host files\<close>

definition maskedHostsContent :: string where
  "maskedHostsContent = ''127.0.0.1 localhost'' @ newline @ ''::1 localhost'' @ newline"

definition maskedResolvContent :: string where
  "maskedResolvContent =
     ''# goboxd jail: no DNS (nameservers removed to block exfiltration)'' @ newline"

definition maskedNsswitchContent :: string where
  "maskedNsswitchContent = concat (map (\<lambda>l. l @ newline)
     [''passwd: files'', ''group: files'', ''shadow: files'', ''gshadow: files'', [],
      ''hosts: files'', ''networks: files'', ''protocols: files'', ''services: files'',
      ''ethers: files'', ''rpc: files''])"

text \<open>The three functions differ only in the word of their error texts.\<close>

definition masked_path :: "string \<Rightarrow> temp_os \<Rightarrow> once_file \<Rightarrow> once_file" where
  "masked_path what os f =
     (if once_done f then f
      else (let err = (\<lambda>verb e. Some (verb @ '' masked '' @ what @ '' temp file: '' @ e));
                ran = f\<lparr>once_done := True\<rparr>
            in case os_create os of
                 Inl e \<Rightarrow> ran\<lparr>once_err := err ''creating'' e\<rparr>
               | Inr p \<Rightarrow>
                   (case os_write os of
                      Some e \<Rightarrow> ran\<lparr>once_path := p, once_err := err ''writing'' e\<rparr>
                    | None \<Rightarrow>
                        (case os_close os of
                           Some e \<Rightarrow> ran\<lparr>once_path := p, once_err := err ''closing'' e\<rparr>
                         | None \<Rightarrow>
                             (case os_chmod os of
                                Some e \<Rightarrow> ran\<lparr>once_path := p, once_err := err ''chmod'' e\<rparr>
                              | None \<Rightarrow> ran\<lparr>once_path := p\<rparr>)))))"

definition maskedHostsPath :: "temp_os \<Rightarrow> once_file \<Rightarrow> once_file" where
  "maskedHostsPath = masked_path ''hosts''"

definition maskedResolvPath :: "temp_os \<Rightarrow> once_file \<Rightarrow> once_file" where
  "maskedResolvPath = masked_path ''resolv''"

definition maskedNsswitchPath :: "temp_os \<Rightarrow> once_file \<Rightarrow> once_file" where
  "maskedNsswitchPath = masked_path ''nsswitch''"

section \<open>Arguments\<close>

definition expandFlags :: "string list \<Rightarrow> string list \<Rightarrow> string list" where
  "expandFlags cmdArgs flags =
     concat (map (\<lambda>arg. if arg = ''{{flags}}'' then flags else [arg]) cmdArgs)"

definition jailEnv :: "environ \<Rightarrow> string list list" where
  "jailEnv env =
     (let path = (if env ''PATH'' = [] then ''/usr/local/bin:/usr/bin:/bin'' else env ''PATH'')
      in [[''-E'', ''PATH='' @ path],
          [''-E'', ''HOME=/tmp''],
          [''-E'', ''LANG=C.UTF-8''],
          [''-E'', ''LC_ALL=C.UTF-8''],
          [''-E'', ''DOTNET_SYSTEM_GLOBALIZATION_INVARIANT=1'']])"

record onces =
  o_policy :: once_file
  o_hosts :: once_file
  o_resolv :: once_file
  o_nsswitch :: once_file

definition onces_init :: onces where
  "onces_init =
     \<lparr>o_policy = once_init, o_hosts = once_init, o_resolv = once_init, o_nsswitch = once_init\<rparr>"

record nsjail_os =
  ns_policy :: temp_os
  ns_hosts :: temp_os
  ns_resolv :: temp_os
  ns_nsswitch :: temp_os
  ns_is_dir :: "string \<Rightarrow> bool"
  ns_ccache :: bool

text \<open>The seccomp flag and its value: the combined policy inline, or the global policy file.\<close>

definition seccomp_choice ::
  "nsjail_os \<Rightarrow> string \<Rightarrow> onces \<Rightarrow> (string + string \<times> string) \<times> onces" where
  "seccomp_choice os langSeccomp st =
     (let extras = ParseSyscallNames langSeccomp
      in if extras \<noteq> [] then
           (case CombinedWith extras of
              Inl e \<Rightarrow> (Inl e, st)
            | Inr combined \<Rightarrow> (Inr (''--seccomp_string'', combined), st))
         else
           (let f = PolicyPath (ns_policy os) (o_policy st);
                st' = st\<lparr>o_policy := f\<rparr>
            in case once_result f of
                 Inl e \<Rightarrow> (Inl e, st')
               | Inr path \<Rightarrow> (Inr (''--seccomp_policy'', path), st')))"

definition id_map :: "int \<Rightarrow> string" where
  "id_map uid = Itoa uid @ '':'' @ Itoa uid @ '':1''"

definition base_opts :: "string \<Rightarrow> int \<Rightarrow> int \<Rightarrow> int \<Rightarrow> int \<Rightarrow> string list list" where
  "base_opts app wallTime memKB procs uid =
     (let m = go_div memKB 1024;
          memMB = (if m < 1 then 1 else m)
      in [[''-Q''],
          [''--log'', ''/dev/null''],
          [''-u'', id_map uid],
          [''-u'', ''0:0:1''],
          [''-g'', id_map uid],
          [''-g'', ''0:0:1''],
          [''-Mo''],
          [''-m'', ''none:/tmp:tmpfs:size=268435456''],
          [''--iface_no_lo''],
          [''--disable_proc''],
          [''-m'', ''none:/proc:proc:ro''],
          [''-m'', ''none:/proc/sys:tmpfs:size=4096''],
          [''--bindmount'', app @ '':/app:rw''],
          [''--cwd'', ''/app''],
          [''--chroot'', ''/''],
          [''--time_limit'', Itoa wallTime],
          [''--rlimit_as'', Itoa memMB],
          [''--rlimit_nproc'', Itoa procs],
          [''--rlimit_fsize'', ''100''],
          [''--rlimit_nofile'', ''65536'']])"

definition cpu_opts :: "int \<Rightarrow> cgJail option \<Rightarrow> string list list" where
  "cpu_opts cpuLimit cg =
     (if 0 < cpuLimit \<and> (case cg of None \<Rightarrow> True | Some j \<Rightarrow> \<not> cgCPUActive j)
      then [[''--rlimit_cpu'', Itoa cpuLimit]]
      else [[''--rlimit_cpu'', ''inf'']])"

definition cgroup_opts :: "int \<Rightarrow> int \<Rightarrow> cgJail option \<Rightarrow> string list list" where
  "cgroup_opts memKB procs cg =
     (case cg of
        None \<Rightarrow> []
      | Some j \<Rightarrow>
          [[''--use_cgroupv2''],
           [''--cgroupv2_mount'', cgPath j],
           [''--cgroup_mem_max'', Itoa (wrap64 (memKB * 1024))],
           [''--cgroup_mem_swap_max'', ''0''],
           [''--cgroup_pids_max'', Itoa procs]])"

definition cache_opts :: "nsjail_os \<Rightarrow> int \<Rightarrow> string list list" where
  "cache_opts os uid =
     (let uidCacheDir = path_join [''/var/cache/goboxd'', ''uid-'' @ Itoa uid];
          gocacheDir = path_join [uidCacheDir, ''go-build''];
          ccacheDir = path_join [uidCacheDir, ''ccache'']
      in (if ns_is_dir os gocacheDir then [[''--bindmount'', gocacheDir @ '':/app/.gocache:rw'']] else []) @
         [[''-E'', ''GOCACHE=/app/.gocache'']] @
         (if ns_ccache os then
            (if ns_is_dir os ccacheDir then [[''--bindmount'', ccacheDir @ '':/app/.ccache:rw'']] else []) @
            [[''-E'', ''CCACHE_DIR=/app/.ccache'']]
          else []))"

definition mask_opts :: "string \<Rightarrow> string \<Rightarrow> string \<Rightarrow> string list list" where
  "mask_opts hosts resolv nsswitch =
     [[''-B'', ''/etc''],
      [''-R'', hosts @ '':/etc/hosts''],
      [''-R'', resolv @ '':/etc/resolv.conf''],
      [''-R'', nsswitch @ '':/etc/nsswitch.conf'']]"

definition tail_opts :: "string \<times> string \<Rightarrow> string list list" where
  "tail_opts sec =
     [[''-B'', ''/usr''], [''-B'', ''/lib''], [''-B'', ''/lib64''], [''-B'', ''/bin''],
      [''-B'', ''/dev''], [''-B'', ''/var/lib''],
      [fst sec, snd sec],
      [''--'']]"

text \<open>
  All groups in order. \<open>post_opts\<close> is what follows the masks: the environment, the caches, the
  read-only system directories and the seccomp policy.
\<close>

definition pre_opts ::
  "environ \<Rightarrow> string \<Rightarrow> int \<Rightarrow> int \<Rightarrow> int \<Rightarrow> int \<Rightarrow> int \<Rightarrow> cgJail option \<Rightarrow> string list list" where
  "pre_opts env app wallTime cpuLimit memKB procs uid cg =
     base_opts app wallTime memKB procs uid @ cpu_opts cpuLimit cg @ cgroup_opts memKB procs cg @
     (if env ''GOBOXD_MAX_CPUS'' \<noteq> [] then [[''--max_cpus'', env ''GOBOXD_MAX_CPUS'']] else [])"

definition post_opts :: "environ \<Rightarrow> nsjail_os \<Rightarrow> int \<Rightarrow> string \<times> string \<Rightarrow> string list list" where
  "post_opts env os uid sec = jailEnv env @ cache_opts os uid @ tail_opts sec"

definition nsjail_opts ::
  "environ \<Rightarrow> nsjail_os \<Rightarrow> string \<Rightarrow> int \<Rightarrow> int \<Rightarrow> int \<Rightarrow> int \<Rightarrow> int \<Rightarrow> cgJail option \<Rightarrow> string \<Rightarrow>
   onces \<Rightarrow> string list list go_result \<times> onces" where
  "nsjail_opts env os app wallTime cpuLimit memKB procs uid cg langSeccomp st =
     (case seccomp_choice os langSeccomp st of
        (Inl e, st1) \<Rightarrow> (Inl e, st1)
      | (Inr sec, st1) \<Rightarrow>
          (let fh = maskedHostsPath (ns_hosts os) (o_hosts st1);
               st2 = st1\<lparr>o_hosts := fh\<rparr>
           in case once_result fh of
                Inl e \<Rightarrow> (Inl (''materializing masked /etc/hosts: '' @ e), st2)
              | Inr hosts \<Rightarrow>
                  (let fr = maskedResolvPath (ns_resolv os) (o_resolv st2);
                       st3 = st2\<lparr>o_resolv := fr\<rparr>
                   in case once_result fr of
                        Inl e \<Rightarrow> (Inl (''materializing masked /etc/resolv.conf: '' @ e), st3)
                      | Inr resolv \<Rightarrow>
                          (let fn = maskedNsswitchPath (ns_nsswitch os) (o_nsswitch st3);
                               st4 = st3\<lparr>o_nsswitch := fn\<rparr>
                           in case once_result fn of
                                Inl e \<Rightarrow> (Inl (''materializing masked /etc/nsswitch.conf: '' @ e), st4)
                              | Inr nsswitch \<Rightarrow>
                                  (Inr (pre_opts env app wallTime cpuLimit memKB procs uid cg @
                                        mask_opts hosts resolv nsswitch @ post_opts env os uid sec),
                                   st4)))))"

definition nsjailArgs ::
  "environ \<Rightarrow> nsjail_os \<Rightarrow> string \<Rightarrow> int \<Rightarrow> int \<Rightarrow> int \<Rightarrow> int \<Rightarrow> int \<Rightarrow> cgJail option \<Rightarrow> string \<Rightarrow>
   onces \<Rightarrow> string list go_result \<times> onces" where
  "nsjailArgs env os app wallTime cpuLimit memKB procs uid cg langSeccomp st =
     map_prod (map_sum id concat) id
       (nsjail_opts env os app wallTime cpuLimit memKB procs uid cg langSeccomp st)"

section \<open>Facts\<close>

lemma masked_path_done: "once_done (masked_path what os f)"
  by (simp add: masked_path_def Let_def split: sum.splits option.splits)

interpretation masked_once: once_cell "masked_path what"
  by unfold_locales (rule masked_path_done, simp add: masked_path_def)

lemma seccomp_choice_cases:
  assumes "seccomp_choice os lang st = (Inr (flag, v), st')"
  shows "(flag = ''--seccomp_string'' \<and> ParseSyscallNames lang \<noteq> [] \<and>
          CombinedWith (ParseSyscallNames lang) = Inr v) \<or>
         (flag = ''--seccomp_policy'' \<and> ParseSyscallNames lang = [] \<and>
          once_result (PolicyPath (ns_policy os) (o_policy st)) = Inr v)"
  using assms
  by (auto simp: seccomp_choice_def Let_def split: if_splits sum.splits)

lemma nsjail_opts_ok:
  assumes "nsjail_opts env os app wt cl mk pr uid cg lang st = (Inr opts, st')"
  shows "\<exists>sec hosts resolv nsswitch.
     fst (seccomp_choice os lang st) = Inr sec \<and>
     opts = pre_opts env app wt cl mk pr uid cg @ mask_opts hosts resolv nsswitch @ post_opts env os uid sec"
  using assms
  by (simp add: nsjail_opts_def Let_def split: prod.splits sum.splits) (metis prod.collapse)

text \<open>How often a flag occurs: the groups that start with it.\<close>

definition groups :: "string \<Rightarrow> string list list \<Rightarrow> string list list" where
  "groups flag opts = filter (\<lambda>g. hd g = flag) opts"

lemma groups_append [simp]: "groups f (xs @ ys) = groups f xs @ groups f ys"
  by (simp add: groups_def)

lemmas opts_defs = pre_opts_def base_opts_def cpu_opts_def cgroup_opts_def mask_opts_def
  post_opts_def jailEnv_def cache_opts_def tail_opts_def groups_def Let_def

lemma groups_rlimit_cpu:
  "fst sec \<noteq> ''--rlimit_cpu'' \<Longrightarrow>
   groups ''--rlimit_cpu''
     (pre_opts env app wt cl mk pr uid cg @ mask_opts h r n @ post_opts env os uid sec) = cpu_opts cl cg"
  by (auto simp: opts_defs split: option.splits)

lemma post_no_mask:
  "fst sec \<noteq> ''-R'' \<Longrightarrow> fst sec \<noteq> ''-B'' \<Longrightarrow> g \<in> set (post_opts env os uid sec) \<Longrightarrow> g \<noteq> [''-B'', ''/etc''] \<and> hd g \<noteq> ''-R''"
  by (auto simp: opts_defs split: if_splits)

lemma groups_env:
  "fst sec \<noteq> ''-E'' \<Longrightarrow>
   groups ''-E''
     (pre_opts env app wt cl mk pr uid cg @ mask_opts h r n @ post_opts env os uid sec) =
   jailEnv env @ [[''-E'', ''GOCACHE=/app/.gocache'']] @
   (if ns_ccache os then [[''-E'', ''CCACHE_DIR=/app/.ccache'']] else [])"
  by (auto simp: opts_defs split: option.splits)

lemma groups_seccomp:
  assumes "fst sec = ''--seccomp_string'' \<or> fst sec = ''--seccomp_policy''"
    and "f = ''--seccomp_string'' \<or> f = ''--seccomp_policy''"
  shows "groups f
     (pre_opts env app wt cl mk pr uid cg @ mask_opts h r n @ post_opts env os uid sec) =
     (if fst sec = f then [[f, snd sec]] else [])"
  using assms by (elim disjE) (simp_all add: opts_defs split: option.splits)

section \<open>A sample environment\<close>

definition sample_temp :: "string \<Rightarrow> temp_os" where
  "sample_temp p = \<lparr>os_create = Inr p, os_write = None, os_close = None, os_chmod = None\<rparr>"

definition sample_ns :: nsjail_os where
  "sample_ns =
     \<lparr>ns_policy = sample_temp ''/tmp/policy'', ns_hosts = sample_temp ''/tmp/hosts'',
      ns_resolv = sample_temp ''/tmp/resolv'', ns_nsswitch = sample_temp ''/tmp/nsswitch'',
      ns_is_dir = (\<lambda>_. False), ns_ccache = False\<rparr>"

lemma sample_opts:
  "\<exists>opts st'. nsjail_opts (\<lambda>_. []) sample_ns ''/tmp/goboxd-1/app'' 5 2 262144 32 10000 None [] onces_init =
     (Inr opts, st')"
proof -
  have "ParseSyscallNames [] = []" by code_simp
  then have s: "seccomp_choice sample_ns [] onces_init =
      (Inr (''--seccomp_policy'', ''/tmp/policy''),
       onces_init\<lparr>o_policy := \<lparr>once_done = True, once_path = ''/tmp/policy'', once_err = None\<rparr>\<rparr>)"
    by (simp add: seccomp_choice_def sample_ns_def sample_temp_def onces_init_def once_init_def
        PolicyPath_def once_result_def)
  show ?thesis
    unfolding nsjail_opts_def s
    by (simp add: Let_def maskedHostsPath_def maskedResolvPath_def maskedNsswitchPath_def
        masked_path_def sample_ns_def sample_temp_def onces_init_def once_init_def once_result_def)
qed

section \<open>Properties\<close>

lemma opts_seccomp:
  assumes "nsjail_opts env os app wt cl mk pr uid cg lang st = (Inr opts, st')"
  obtains sec hosts resolv nsswitch st1 where "seccomp_choice os lang st = (Inr sec, st1)"
    and "fst sec = ''--seccomp_string'' \<or> fst sec = ''--seccomp_policy''"
    and "opts = pre_opts env app wt cl mk pr uid cg @ mask_opts hosts resolv nsswitch @ post_opts env os uid sec"
proof -
  obtain sec h r n where s: "fst (seccomp_choice os lang st) = Inr sec"
    and o: "opts = pre_opts env app wt cl mk pr uid cg @ mask_opts h r n @ post_opts env os uid sec"
    using nsjail_opts_ok [OF assms] by blast
  then have c: "seccomp_choice os lang st = (Inr (fst sec, snd sec), snd (seccomp_choice os lang st))"
    by (metis prod.collapse)
  from seccomp_choice_cases [OF c] have "fst sec = ''--seccomp_string'' \<or> fst sec = ''--seccomp_policy''"
    by blast
  with c o that show ?thesis by simp
qed

text \<open>
  C16. Every command line of the sandbox names exactly one seccomp policy: the combined policy inline
  when the language denies further calls, the file of the global policy otherwise.
\<close>

theorem one_seccomp_policy:
  assumes "nsjail_opts env os app wt cl mk pr uid cg lang st = (Inr opts, st')"
  shows "nsjailArgs env os app wt cl mk pr uid cg lang st = (Inr (concat opts), st') \<and>
    (if ParseSyscallNames lang \<noteq> []
     then \<exists>c. CombinedWith (ParseSyscallNames lang) = Inr c \<and>
       groups ''--seccomp_string'' opts = [[''--seccomp_string'', c]] \<and> groups ''--seccomp_policy'' opts = []
     else \<exists>p. once_result (PolicyPath (ns_policy os) (o_policy st)) = Inr p \<and>
       groups ''--seccomp_policy'' opts = [[''--seccomp_policy'', p]] \<and> groups ''--seccomp_string'' opts = [])"
proof -
  obtain sec h r n st1 where c: "seccomp_choice os lang st = (Inr sec, st1)"
    and f: "fst sec = ''--seccomp_string'' \<or> fst sec = ''--seccomp_policy''"
    and o: "opts = pre_opts env app wt cl mk pr uid cg @ mask_opts h r n @ post_opts env os uid sec"
    by (rule opts_seccomp [OF assms])
  have g: "groups x opts = (if fst sec = x then [[x, snd sec]] else [])"
    if "x = ''--seccomp_string'' \<or> x = ''--seccomp_policy''" for x
    unfolding o by (rule groups_seccomp [OF f that])
  have cc: "seccomp_choice os lang st = (Inr (fst sec, snd sec), st1)" using c by simp
  from seccomp_choice_cases [OF cc] show ?thesis
    using g [of "''--seccomp_string''"] g [of "''--seccomp_policy''"] assms
    by (auto simp: nsjailArgs_def)
qed

theorem one_seccomp_policy_witness:
  "\<exists>opts st' p. nsjail_opts (\<lambda>_. []) sample_ns ''/tmp/goboxd-1/app'' 5 2 262144 32 10000 None [] onces_init =
       (Inr opts, st') \<and>
     groups ''--seccomp_policy'' opts = [[''--seccomp_policy'', p]] \<and> groups ''--seccomp_string'' opts = []"
proof -
  obtain opts st' where o: "nsjail_opts (\<lambda>_. []) sample_ns ''/tmp/goboxd-1/app'' 5 2 262144 32 10000 None []
      onces_init = (Inr opts, st')" using sample_opts by blast
  have "ParseSyscallNames [] = []" by code_simp
  with one_seccomp_policy [OF o] obtain p where
    "groups ''--seccomp_policy'' opts = [[''--seccomp_policy'', p]]" "groups ''--seccomp_string'' opts = []"
    by (simp only: simp_thms if_False) blast
  with o show ?thesis by blast
qed

lemma nsjailArgs_env:
  assumes "pre_opts env' = pre_opts env" and "post_opts env' = post_opts env"
  shows "nsjailArgs env' os app wt cl mk pr uid cg lang st = nsjailArgs env os app wt cl mk pr uid cg lang st"
  unfolding nsjailArgs_def nsjail_opts_def assms ..





end
