(* ===== verification/Runner.thy ===== *)
theory Runner
  imports Copytree Nsjail
begin

text \<open>
  Running a request: \<^verbatim>\<open>internal/runner/exec.go\<close> and the build, test and orchestration functions of
  \<^verbatim>\<open>internal/runner/runner.go\<close>. One execution of nsjail is described by the record \<open>exec_os\<close>: the
  answers of every system call and of the kernel's counters, the bytes the program writes, and how
  it ends. The poll goroutine is a fold over the states it samples. The parallel branch of
  \<open>ExecuteRun\<close> is a step relation whose steps are those of its goroutines.
\<close>

section \<open>Exit status\<close>

datatype wait_status = Exited int | Signaled int

definition SIGABRT :: int where "SIGABRT = 6"
definition SIGKILL :: int where "SIGKILL = 9"
definition SIGSEGV :: int where "SIGSEGV = 11"
definition SIGXCPU :: int where "SIGXCPU = 24"

definition exitFacts :: "wait_status option \<Rightarrow> int \<times> int" where
  "exitFacts ps =
     (case ps of
        None \<Rightarrow> (0, 0)
      | Some (Signaled s) \<Rightarrow> (- 1, s)
      | Some (Exited code) \<Rightarrow>
          if 129 \<le> code \<and> code \<le> 192 then (code, code - 128) else (code, 0))"

fun signalReasonFromStatus :: "wait_status \<Rightarrow> ResultStatus" where
  "signalReasonFromStatus (Exited code) =
     (if code = 128 + SIGXCPU then ResultCPUTimeExceeded else ResultUnset)"
| "signalReasonFromStatus (Signaled s) =
     (if s = SIGKILL then ResultTimeExceeded
      else if s = SIGSEGV \<or> s = SIGABRT then ResultMemoryExceeded
      else if s = SIGXCPU then ResultCPUTimeExceeded
      else ResultRuntimeError)"

definition signalKillReason :: "wait_status option \<Rightarrow> ResultStatus" where
  "signalKillReason ps = (case ps of None \<Rightarrow> ResultUnset | Some s \<Rightarrow> signalReasonFromStatus s)"

datatype ctx_err = CtxOk | CtxCanceled | CtxDeadline

record cpuOutcome =
  limitUS :: int
  timeUS :: int
  cpu_killed :: bool

definition computeTestStatus ::
  "ctx_err \<Rightarrow> string option \<Rightarrow> string \<Rightarrow> string \<Rightarrow> wait_status option \<Rightarrow> bool \<Rightarrow> cpuOutcome \<Rightarrow>
   ResultStatus" where
  "computeTestStatus ctx err stdout expected ps oomKilled cpu =
     (if ctx = CtxCanceled then ResultCancelled
      else if oomKilled then ResultMemoryExceeded
      else if cpu_killed cpu \<or> (err \<noteq> None \<and> signalKillReason ps = ResultCPUTimeExceeded)
        then ResultCPUTimeExceeded
      else if ctx = CtxDeadline then ResultTimeExceeded
      else
        (case err of
           Some e \<Rightarrow>
             if signalKillReason ps \<noteq> ResultUnset then signalKillReason ps
             else if str_contains e ''exit status 137'' then
               (if limitUS cpu > 0 \<and> timeUS cpu \<ge> limitUS cpu then ResultCPUTimeExceeded
                else ResultTimeExceeded)
             else ResultRuntimeError
         | None \<Rightarrow>
             if expected = [] then ResultAccepted
             else if stdout = expected then ResultAccepted
             else if TrimSpace stdout = TrimSpace expected then ResultWhitespaceMismatch
             else ResultWrongOutput))"

section \<open>Output\<close>

definition maxOutputBytes :: int where
  "maxOutputBytes = 64 * 1024"

definition truncation_marker :: string where
  "truncation_marker = newline @ ''... [output truncated]''"

text \<open>
  \<open>io.LimitReader\<close> yields at most \<open>limit + 1\<close> bytes of what the child writes, none when that
  number is not positive. The slice \<open>raw[:limit]\<close> panics for a negative limit; the panic is
  recovered and the reading goroutine never answers, which the model does not follow: \<open>limit\<close> is
  never negative (\<open>outputCap_pos\<close>).
\<close>

definition readCapped :: "string \<Rightarrow> int \<Rightarrow> string" where
  "readCapped data limit =
     (let raw = take (nat (wrap64 (limit + 1))) data
      in if int (length raw) > limit then take (nat limit) raw @ truncation_marker else raw)"

definition outputCapOf :: "RunRequest \<Rightarrow> int" where
  "outputCapOf req =
     (case MaxOutputBytes req of
        Some n \<Rightarrow> if n > 0 then n else maxOutputBytes
      | None \<Rightarrow> maxOutputBytes)"

section \<open>Accounting\<close>

record rusage =
  utime_sec :: int
  utime_usec :: int
  stime_sec :: int
  stime_usec :: int

definition timevalUS :: "int \<Rightarrow> int \<Rightarrow> int" where
  "timevalUS sec usec = wrap64 (wrap64 (sec * 1000000) + usec)"

definition rusage_us :: "rusage \<Rightarrow> int" where
  "rusage_us r =
     wrap64 (timevalUS (utime_sec r) (utime_usec r) + timevalUS (stime_sec r) (stime_usec r))"

text \<open>The baseline of one execution, from the \<open>cpu.stat\<close> content read after the reset attempt.\<close>

definition cpuBaseline :: "cgJail option \<Rightarrow> string go_result \<Rightarrow> int \<times> bool" where
  "cpuBaseline cg cpu_stat =
     (case cg of
        None \<Rightarrow> (0, False)
      | Some j \<Rightarrow>
          if cgCPUActive j then
            (case CPUUsageUS cpu_stat of Inr us \<Rightarrow> (us, True) | Inl e \<Rightarrow> (0, False))
          else (0, False))"

definition oomBaseline :: "cgJail option \<Rightarrow> (string \<times> string option) list option \<Rightarrow> nat" where
  "oomBaseline cg leaves =
     (case cg of
        None \<Rightarrow> 0
      | Some j \<Rightarrow> (case OOMKills leaves of Inl e \<Rightarrow> 0 | Inr n \<Rightarrow> n))"

definition cpuTimeUS ::
  "cgJail option \<Rightarrow> int \<Rightarrow> bool \<Rightarrow> string go_result \<Rightarrow> rusage \<Rightarrow> rusage \<Rightarrow> int" where
  "cpuTimeUS cg baselineUS baselineOK cpu_stat before after =
     (let fallback = (let b = rusage_us before; a = rusage_us after
                      in if a \<ge> b then wrap64 (a - b) else 0)
      in case cg of
           None \<Rightarrow> fallback
         | Some j \<Rightarrow>
             if cgCPUActive j \<and> baselineOK then
               (case CPUUsageUS cpu_stat of
                  Inr final \<Rightarrow> if final \<ge> baselineUS then wrap64 (final - baselineUS) else fallback
                | Inl e \<Rightarrow> fallback)
             else fallback)"

section \<open>The poller\<close>

text \<open>What one tick of the 50 ms ticker reads, and the flags it works on.\<close>

record tick =
  tk_leaves :: "(string \<times> string option) list option"
  tk_cpu :: "string go_result"

record poll_state =
  p_oom :: bool
  p_cpu :: bool
  p_kills :: nat

definition poll_init :: poll_state where
  "poll_init = \<lparr>p_oom = False, p_cpu = False, p_kills = 0\<rparr>"

definition poll_tick ::
  "nat \<Rightarrow> int \<Rightarrow> int \<Rightarrow> bool \<Rightarrow> tick \<Rightarrow> poll_state \<Rightarrow> poll_state" where
  "poll_tick oomBase cpuLimitUS baselineUS baselineOK tk s =
     (let s1 = (if OOMKillsSince oomBase (tk_leaves tk) = Inr True then s\<lparr>p_oom := True\<rparr> else s)
      in if cpuLimitUS \<le> 0 \<or> \<not> baselineOK then s1
         else (case CPUUsageUS (tk_cpu tk) of
                 Inl e \<Rightarrow> s1
               | Inr us \<Rightarrow>
                   if wrap64 (us - baselineUS) < cpuLimitUS then s1
                   else if p_cpu s1 then s1
                   else s1\<lparr>p_cpu := True, p_kills := Suc (p_kills s1)\<rparr>))"

definition startJailPoller ::
  "nat \<Rightarrow> int \<Rightarrow> int \<Rightarrow> bool \<Rightarrow> tick list \<Rightarrow> poll_state" where
  "startJailPoller oomBase cpuLimitUS baselineUS baselineOK ticks =
     fold (poll_tick oomBase cpuLimitUS baselineUS baselineOK) ticks poll_init"

section \<open>One execution\<close>

record execLimits =
  wallTime :: int
  cpuLimit :: int
  memKB :: int
  procs :: int

record ExecOutcome =
  xStdout :: string
  xStderr :: string
  OOMKilled :: bool
  CPUKilled :: bool
  CPUTimeUS :: int
  ExitCode :: int
  TermSignal :: int
  Infra :: bool
  xErr :: "string option"
  xps :: "wait_status option"

definition zero_outcome :: ExecOutcome where
  "zero_outcome =
     \<lparr>xStdout = [], xStderr = [], OOMKilled = False, CPUKilled = False, CPUTimeUS = 0, ExitCode = 0,
      TermSignal = 0, Infra = False, xErr = None, xps = None\<rparr>"

text \<open>
  \<open>ex_program\<close> is what the started command does, given its arguments and its standard input: the
  bytes of its two output streams, the error of \<open>cmd.Wait\<close>, and the process state.
\<close>

record program_run =
  pr_stdout :: string
  pr_stderr :: string
  pr_err :: "string option"
  pr_ps :: "wait_status option"

record exec_os =
  ex_mkdir :: "string option"
  ex_ns :: nsjail_os
  ex_stdout_pipe :: "string option"
  ex_stderr_pipe :: "string option"
  ex_cpu_before :: "string go_result"
  ex_ru_before :: rusage
  ex_leaves_before :: "(string \<times> string option) list option"
  ex_start :: "string option"
  ex_ticks :: "tick list"
  ex_program :: "string list \<Rightarrow> string \<Rightarrow> program_run"
  ex_leaves_after :: "(string \<times> string option) list option"
  ex_cpu_after :: "string go_result"
  ex_ru_after :: rusage

definition execJail ::
  "environ \<Rightarrow> exec_os \<Rightarrow> jail \<Rightarrow> string list \<Rightarrow> execLimits \<Rightarrow> string \<Rightarrow> int \<Rightarrow> onces \<Rightarrow>
   ExecOutcome \<times> onces" where
  "execJail env os j cmdArgs lim stdin outputCap st =
     (case ex_mkdir os of
        Some e \<Rightarrow> (zero_outcome\<lparr>xErr := Some (''app dir: '' @ e)\<rparr>, st)
      | None \<Rightarrow>
          (case nsjailArgs env (ex_ns os) (appDir j) (wallTime lim) (cpuLimit lim) (memKB lim)
                  (procs lim) (juid j) (jcg j) (jseccomp j) st of
             (Inl e, st') \<Rightarrow> (zero_outcome\<lparr>xErr := Some (''start: '' @ e), Infra := True\<rparr>, st')
           | (Inr args, st') \<Rightarrow>
               (case ex_stdout_pipe os of
                  Some e \<Rightarrow> (zero_outcome\<lparr>xErr := Some (''stdout pipe: '' @ e), Infra := True\<rparr>, st')
                | None \<Rightarrow>
                    (case ex_stderr_pipe os of
                       Some e \<Rightarrow>
                         (zero_outcome\<lparr>xErr := Some (''stderr pipe: '' @ e), Infra := True\<rparr>, st')
                     | None \<Rightarrow>
                         (case ex_start os of
                            Some e \<Rightarrow>
                              (zero_outcome\<lparr>xErr := Some (''start: '' @ e), Infra := True\<rparr>, st')
                          | None \<Rightarrow>
                              (let (baseUS, baseOK) = cpuBaseline (jcg j) (ex_cpu_before os);
                                   oomBase = oomBaseline (jcg j) (ex_leaves_before os);
                                   poll = (if jcg j = None then poll_init
                                           else startJailPoller oomBase (wrap64 (cpuLimit lim * 1000000))
                                                  baseUS baseOK (ex_ticks os));
                                   pr = ex_program os (args @ cmdArgs) stdin;
                                   oom = (p_oom poll \<or>
                                          (jcg j \<noteq> None \<and>
                                           OOMKillsSince oomBase (ex_leaves_after os) = Inr True));
                                   (code, sig) = exitFacts (pr_ps pr)
                               in (\<lparr>xStdout = readCapped (pr_stdout pr) outputCap,
                                    xStderr = readCapped (pr_stderr pr) outputCap,
                                    OOMKilled = oom,
                                    CPUKilled = p_cpu poll,
                                    CPUTimeUS = cpuTimeUS (jcg j) baseUS baseOK (ex_cpu_after os)
                                      (ex_ru_before os) (ex_ru_after os),
                                    ExitCode = code, TermSignal = sig, Infra = False,
                                    xErr = pr_err pr, xps = pr_ps pr\<rparr>,
                                   st')))))))"

section \<open>Limits of a stage\<close>

definition override :: "int \<Rightarrow> (mLimits \<Rightarrow> int option) \<Rightarrow> StageConfig option \<Rightarrow> int" where
  "override dflt sel st =
     (case st of None \<Rightarrow> dflt
      | Some s \<Rightarrow>
          (case sLimits s of None \<Rightarrow> dflt
           | Some l \<Rightarrow> (case sel l of None \<Rightarrow> dflt | Some v \<Rightarrow> v)))"

definition stage_limits :: "Limits \<Rightarrow> StageConfig option \<Rightarrow> execLimits" where
  "stage_limits dflt st =
     \<lparr>wallTime = override (WallTimeS dflt) mWallTimeS st,
      cpuLimit = override (CpuTimeS dflt) mCpuTimeS st,
      memKB = override (MemoryKB dflt) mMemoryKB st,
      procs = override (MaxProcesses dflt) mMaxProcesses st\<rparr>"

definition stage_flag_list :: "StageConfig option \<Rightarrow> string list" where
  "stage_flag_list st = (case st of None \<Rightarrow> [] | Some s \<Rightarrow> sFlags s)"

section \<open>Build\<close>

definition build_marker :: string where
  "build_marker = newline @ ''... [build timed out]''"

text \<open>\<open>ctx\<close> is the error of the stage's context after the execution.\<close>

definition runBuild ::
  "environ \<Rightarrow> exec_os \<Rightarrow> ctx_err \<Rightarrow> jail \<Rightarrow> RunRequest \<Rightarrow> LanguageConfig \<Rightarrow> onces \<Rightarrow>
   (BuildResult \<times> string option) \<times> onces" where
  "runBuild env os ctx j req lc st =
     (let lim = stage_limits (BuildLimits lc) (rBuild req);
          cmdArgs = expandFlags (BuildCmd lc) (stage_flag_list (rBuild req))
      in case execJail env os j cmdArgs lim [] (outputCapOf req) st of
           (out, st') \<Rightarrow>
             (let res = \<lparr>bStatus = BuildOk, bStdout = xStdout out, bStderr = xStderr out,
                         bDurationMs = 0, bCpuTimeMs = go_div (CPUTimeUS out) 1000\<rparr>;
                  timed_out = res\<lparr>bStderr := bStderr res @ build_marker, bStatus := BuildFailed\<rparr>
              in (if xErr out \<noteq> None then
                    (if ctx = CtxDeadline then (timed_out, None)
                     else if Infra out then (res\<lparr>bStatus := BuildInternalError\<rparr>, xErr out)
                     else (res\<lparr>bStatus := BuildFailed\<rparr>, None))
                  else if ctx = CtxDeadline then (timed_out, None)
                  else (res, None), st')))"

section \<open>One test\<close>

record test_os =
  t_ctx_before :: ctx_err
  t_exec :: exec_os
  t_ctx_after :: ctx_err
  t_duration :: int
  t_peak :: "string option"
  t_maxrss :: "int option"

definition failResult :: "ResultStatus \<Rightarrow> string \<Rightarrow> int \<Rightarrow> TestResult" where
  "failResult status stderr dur =
     zero_TestResult\<lparr>tStatus := status, tStderr := stderr, tDurationMs := dur\<rparr>"

definition readMemoryPeakKB :: "int option \<Rightarrow> int" where
  "readMemoryPeakKB maxrss = (case maxrss of Some n \<Rightarrow> if n > 0 then n else 0 | None \<Rightarrow> 0)"

text \<open>
  \<open>ResetPeak\<close> before the execution only changes what \<open>memory.peak\<close> holds afterwards, which is the
  argument \<open>t_peak\<close>; its own failure is logged and ignored.
\<close>

definition runSingleTest ::
  "environ \<Rightarrow> test_os \<Rightarrow> TestCase \<Rightarrow> LanguageConfig \<Rightarrow> jail \<Rightarrow> StageConfig option \<Rightarrow> int \<Rightarrow> onces \<Rightarrow>
   TestResult \<times> onces" where
  "runSingleTest env os tc lc j runOpts outputCap st =
     (if t_ctx_before os \<noteq> CtxOk then (failResult ResultCancelled [] (t_duration os), st)
      else
        (let lim = stage_limits (RunLimits lc) runOpts;
             cmdArgs = expandFlags (RunCmd lc) (stage_flag_list runOpts)
         in case execJail env (t_exec os) j cmdArgs lim (Stdin tc) outputCap st of
              (out, st') \<Rightarrow>
                (if Infra out then
                   zero_TestResult\<lparr>tStatus := ResultInternalError, tStdout := xStdout out,
                     tStderr := (if xStderr out = []
                                 then (case xErr out of Some e \<Rightarrow> e | None \<Rightarrow> [])
                                 else xStderr out),
                     tDurationMs := t_duration os\<rparr>
                 else
                   \<lparr>tStatus = computeTestStatus (t_ctx_after os) (xErr out) (xStdout out)
                       (ExpectedStdout tc) (xps out) (OOMKilled out)
                       \<lparr>limitUS = wrap64 (cpuLimit lim * 1000000), timeUS = CPUTimeUS out,
                        cpu_killed = CPUKilled out\<rparr>,
                    tStdout = xStdout out, tStderr = xStderr out, tDurationMs = t_duration os,
                    tCpuTimeMs = go_div (CPUTimeUS out) 1000,
                    tMemoryPeakKB = (if jcg j \<noteq> None then PeakKB (t_peak os)
                                     else readMemoryPeakKB (t_maxrss os)),
                    tExitCode = ExitCode out, tTerminationSignal = TermSignal out\<rparr>,
                 st')))"

section \<open>A sample execution\<close>

definition sample_rusage :: rusage where
  "sample_rusage = \<lparr>utime_sec = 0, utime_usec = 0, stime_sec = 0, stime_usec = 0\<rparr>"

definition sample_exec :: exec_os where
  "sample_exec =
     \<lparr>ex_mkdir = None,
      ex_ns = sample_ns, ex_stdout_pipe = None, ex_stderr_pipe = None, ex_cpu_before = Inl ''no cgroup'',
      ex_ru_before = sample_rusage, ex_leaves_before = None, ex_start = None, ex_ticks = [],
      ex_program = (\<lambda>args input. \<lparr>pr_stdout = input, pr_stderr = [], pr_err = None, pr_ps = None\<rparr>),
      ex_leaves_after = None, ex_cpu_after = Inl ''no cgroup'', ex_ru_after = sample_rusage\<rparr>"

section \<open>Facts\<close>

lemma outputCap_pos: "0 < outputCapOf req"
  by (simp add: outputCapOf_def maxOutputBytes_def split: option.splits)

lemma readCapped_eq:
  assumes "0 \<le> limit" and "limit < max_int"
  shows "readCapped data limit =
    (if int (length data) \<le> limit then data else take (nat limit) data @ truncation_marker)"
proof -
  have "wrap64 (limit + 1) = limit + 1" using assms by (intro wrap64_id) (simp add: in_int64_def)
  moreover have "nat (limit + 1) = Suc (nat limit)" using assms by simp
  ultimately show ?thesis using assms by (auto simp: readCapped_def Let_def min_def)
qed

lemma readCapped_length:
  assumes "0 \<le> limit" and "limit < max_int"
  shows "int (length (readCapped data limit)) \<le> limit + int (length truncation_marker)"
  using assms by (auto simp: readCapped_eq)

text \<open>What an execution returns is capped, whichever way it goes.\<close>

lemma execJail_capped:
  assumes "execJail env os j args lim input cap st = (out, st')" and "0 \<le> cap" and "cap < max_int"
  shows "int (length (xStdout out)) \<le> cap + int (length truncation_marker)"
    and "int (length (xStderr out)) \<le> cap + int (length truncation_marker)"
  using assms readCapped_length [OF assms(2,3)]
  by (auto simp: execJail_def zero_outcome_def Let_def split: option.splits prod.splits sum.splits)

text \<open>The poller: it kills when some tick saw the budget spent, and at most once.\<close>

definition over_budget :: "int \<Rightarrow> int \<Rightarrow> bool \<Rightarrow> tick \<Rightarrow> bool" where
  "over_budget cpuLimitUS baselineUS baselineOK tk \<longleftrightarrow>
     0 < cpuLimitUS \<and> baselineOK \<and>
     (\<exists>us. CPUUsageUS (tk_cpu tk) = Inr us \<and> cpuLimitUS \<le> wrap64 (us - baselineUS))"

lemma poll_tick_cpu:
  "p_cpu (poll_tick ob l bu ok tk s) \<longleftrightarrow> p_cpu s \<or> over_budget l bu ok tk"
  "p_kills (poll_tick ob l bu ok tk s) = p_kills s + (if \<not> p_cpu s \<and> over_budget l bu ok tk then 1 else 0)"
  by (auto simp: poll_tick_def over_budget_def Let_def split: sum.splits)

lemma poller_fold:
  "p_cpu (fold (poll_tick ob l bu ok) ticks s) \<longleftrightarrow> p_cpu s \<or> list_ex (over_budget l bu ok) ticks"
  "p_kills (fold (poll_tick ob l bu ok) ticks s) =
     p_kills s + (if \<not> p_cpu s \<and> list_ex (over_budget l bu ok) ticks then 1 else 0)"
  by (induction ticks arbitrary: s) (auto simp: poll_tick_cpu)

lemma poller_cpu:
  "p_cpu (startJailPoller ob l bu ok ticks) \<longleftrightarrow> list_ex (over_budget l bu ok) ticks"
  "p_kills (startJailPoller ob l bu ok ticks) = (if list_ex (over_budget l bu ok) ticks then 1 else 0)"
  by (simp_all add: startJailPoller_def poller_fold poll_init_def)

lemma cpuBaseline_ok: "cpuBaseline cg stat = (bu, True) \<Longrightarrow> \<exists>j. cg = Some j \<and> cgCPUActive j"
  by (auto simp: cpuBaseline_def split: option.splits if_splits)

text \<open>
  The gap between the two mechanisms: with the cpu controller active and an unreadable baseline,
  the resource limit is infinite and the poller never kills.
\<close>

lemma cpu_unlimited:
  assumes "cgCPUActive j" and "CPUUsageUS stat = Inl e" and "cpuBaseline (Some j) stat = (bu, ok)"
  shows "cpu_opts cl (Some j) = [[''--rlimit_cpu'', ''inf'']] \<and> \<not> p_cpu (startJailPoller ob l bu ok ticks)"
proof -
  have "\<not> ok" using assms by (simp add: cpuBaseline_def)
  then show ?thesis using assms(1) by (auto simp: cpu_opts_def poller_cpu over_budget_def list_ex_iff)
qed

section \<open>Properties\<close>

text \<open>
  C19. With a CPU limit of \<open>cl\<close> seconds the kernel's resource limit and the poller never both guard
  an execution: the command line carries the limit exactly when the jail has no cpu controller, and
  the poller, which then never kills, otherwise kills exactly when some tick reads a usage at least
  \<open>cl\<close> seconds above a baseline that was read.
\<close>

theorem cpu_authority:
  assumes "nsjail_opts env os app wt cl mk pr uid cg lang st = (Inr opts, st')"
    and "0 < cl" and "cl \<le> 9223372036854" and "cpuBaseline cg stat = (bu, ok)"
  shows "let cpu_cg = (\<exists>j. cg = Some j \<and> cgCPUActive j);
      killed = p_cpu (startJailPoller ob (wrap64 (cl * 1000000)) bu ok ticks)
    in groups ''--rlimit_cpu'' opts = [[''--rlimit_cpu'', if cpu_cg then ''inf'' else Itoa cl]] \<and>
       (\<not> cpu_cg \<longrightarrow> \<not> killed) \<and>
       (killed \<longleftrightarrow> ok \<and> (\<exists>tk \<in> set ticks. \<exists>us. CPUUsageUS (tk_cpu tk) = Inr us \<and>
          cl * 1000000 \<le> wrap64 (us - bu)))"
proof -
  obtain sec h r n st1 where "seccomp_choice os lang st = (Inr sec, st1)"
    and f: "fst sec = ''--seccomp_string'' \<or> fst sec = ''--seccomp_policy''"
    and o: "opts = pre_opts env app wt cl mk pr uid cg @ mask_opts h r n @ post_opts env os uid sec"
    by (rule opts_seccomp [OF assms(1)])
  have "fst sec \<noteq> ''--rlimit_cpu''" using f by auto
  then have g: "groups ''--rlimit_cpu'' opts = cpu_opts cl cg" unfolding o by (rule groups_rlimit_cpu)
  have w: "wrap64 (cl * 1000000) = cl * 1000000"
    using assms(2,3) by (intro wrap64_id) (simp add: in_int64_def)
  have k: "list_ex (over_budget (cl * 1000000) bu ok) ticks \<longleftrightarrow>
      ok \<and> (\<exists>tk \<in> set ticks. \<exists>us. CPUUsageUS (tk_cpu tk) = Inr us \<and> cl * 1000000 \<le> wrap64 (us - bu))"
    using assms(2) by (auto simp: list_ex_iff over_budget_def)
  have "groups ''--rlimit_cpu'' opts =
      [[''--rlimit_cpu'', if \<exists>j. cg = Some j \<and> cgCPUActive j then ''inf'' else Itoa cl]]"
    unfolding g using assms(2) by (auto simp: cpu_opts_def split: option.splits)
  moreover have "ok \<longrightarrow> (\<exists>j. cg = Some j \<and> cgCPUActive j)" using cpuBaseline_ok [of cg stat bu] assms(4) by (cases ok) simp_all
  ultimately show ?thesis unfolding Let_def poller_cpu w k by blast
qed

theorem cpu_authority_witness:
  "\<exists>opts st'. nsjail_opts (\<lambda>_. []) sample_ns ''/tmp/goboxd-1/app'' 5 2 262144 32 10000 None [] onces_init =
       (Inr opts, st') \<and>
     groups ''--rlimit_cpu'' opts = [[''--rlimit_cpu'', Itoa 2]] \<and>
     \<not> p_cpu (startJailPoller 0 (wrap64 (2 * 1000000)) 0 False [])"
proof -
  obtain opts st' where o: "nsjail_opts (\<lambda>_. []) sample_ns ''/tmp/goboxd-1/app'' 5 2 262144 32 10000 None []
      onces_init = (Inr opts, st')" using sample_opts by blast
  have "cpuBaseline None (Inl []) = (0, False)" by (simp add: cpuBaseline_def)
  from cpu_authority [OF o _ _ this, of 0 "[]"] o show ?thesis by (simp add: Let_def)
qed

text \<open>
  C20. A test is accepted exactly when its context is alive, nothing killed it, the program exited
  successfully, and the test expects no output or exactly the output that was produced.
\<close>

theorem test_accepted_iff:
  "computeTestStatus ctx err stdout expected ps oom cpu = ResultAccepted \<longleftrightarrow>
     ctx = CtxOk \<and> \<not> oom \<and> \<not> cpu_killed cpu \<and> err = None \<and> (expected = [] \<or> stdout = expected)"
proof -
  have "signalReasonFromStatus w \<noteq> ResultAccepted" for w by (cases w) simp_all
  then have "signalKillReason ps \<noteq> ResultAccepted"
    by (simp add: signalKillReason_def split: option.splits)
  then show ?thesis by (cases ctx; cases err) (simp_all add: computeTestStatus_def)
qed

text \<open>
  C21. The output of a test is bounded: it is what the program wrote if that fits the cap, and
  otherwise the first \<open>cap\<close> bytes with the truncation marker; so the standard output of a result is
  never longer than the cap and the marker, and neither is its standard error unless the sandbox
  itself failed.
\<close>

theorem output_bounded:
  assumes "runSingleTest env os tc lc j ro cap st = (r, st')" and "0 \<le> cap" and "cap < max_int"
  shows "int (length (tStdout r)) \<le> cap + int (length truncation_marker) \<and>
    (tStatus r \<noteq> ResultInternalError \<longrightarrow> int (length (tStderr r)) \<le> cap + int (length truncation_marker)) \<and>
    readCapped data cap = (if int (length data) \<le> cap then data else take (nat cap) data @ truncation_marker)"
proof (intro conjI impI)
  obtain out st1 where x: "execJail env (t_exec os) j (expandFlags (RunCmd lc) (stage_flag_list ro))
      (stage_limits (RunLimits lc) ro) (Stdin tc) cap st = (out, st1)" by fastforce
  show "int (length (tStdout r)) \<le> cap + int (length truncation_marker)"
    using assms x execJail_capped(1) [OF x assms(2,3)]
    by (auto simp: runSingleTest_def failResult_def zero_TestResult_def Let_def split: if_splits)
  show "int (length (tStderr r)) \<le> cap + int (length truncation_marker)" if "tStatus r \<noteq> ResultInternalError"
    using that assms x execJail_capped(2) [OF x assms(2,3)]
    by (auto simp: runSingleTest_def failResult_def zero_TestResult_def Let_def split: if_splits)
  show "readCapped data cap =
      (if int (length data) \<le> cap then data else take (nat cap) data @ truncation_marker)"
    by (rule readCapped_eq [OF assms(2,3)])
qed

definition sample_test_os :: test_os where
  "sample_test_os =
     \<lparr>t_ctx_before = CtxOk, t_exec = sample_exec, t_ctx_after = CtxOk, t_duration = 1, t_peak = None,
      t_maxrss = None\<rparr>"

definition sample_j :: jail where
  "sample_j = \<lparr>jdirp = sample_dir 1, juid = 10000, jcg = None, jseccomp = [], jonce = False\<rparr>"

theorem output_bounded_witness:
  "int (length (tStdout (fst (runSingleTest (\<lambda>_. []) sample_test_os sample_test sample_lang sample_j None 65536
      onces_init)))) \<le> 65536 + int (length truncation_marker) \<and>
   readCapped ''abc'' 65536 =
     (if int (length ''abc'') \<le> 65536 then ''abc'' else take (nat 65536) ''abc'' @ truncation_marker)"
  using output_bounded [OF prod.collapse [symmetric], of 65536 "\<lambda>_. []" sample_test_os sample_test
      sample_lang sample_j None onces_init "''abc''"] by simp

text \<open>
  However many ticks see the budget spent, the poller sends at most one kill, and it sends one
  exactly when it reports the execution as killed.
\<close>

lemma cpu_kill_at_most_once:
  "p_kills (startJailPoller ob l bu ok ticks) \<le> 1 \<and>
   (p_kills (startJailPoller ob l bu ok ticks) = 1 \<longleftrightarrow> p_cpu (startJailPoller ob l bu ok ticks))"
  by (simp add: poller_cpu)

end
