(* ===== verification/Execute.thy ===== *)
theory Execute
  imports Runner
begin

text \<open>
  \<open>ExecuteRun\<close> of \<^verbatim>\<open>internal/runner/runner.go\<close>. The template jail and the build are a function; the
  sequential tests are a recursion over the test cases; the parallel tests are a step relation
  whose steps are the loop acquiring the semaphore and the stages of each goroutine, in any
  interleaving.
\<close>

section \<open>Preparation\<close>

definition resolveSourceName :: "RunRequest \<Rightarrow> LanguageConfig \<Rightarrow> string" where
  "resolveSourceName req lc =
     (if SourceFilenameStrategy lc = ''fixed'' then lcSourceFilename lc
      else if SourceFilename req \<noteq> [] then SourceFilename req
      else lcSourceFilename lc)"

definition effectiveParallel :: "int \<Rightarrow> RunRequest \<Rightarrow> int" where
  "effectiveParallel numCPU req =
     (case MaxParallel req of
        Some n \<Rightarrow>
          if n > 1 then (if numCPU > 0 \<and> n > numCPU then numCPU else n) else 1
      | None \<Rightarrow> 1)"

record run_os =
  ro_jail :: jail_os
  ro_cache :: "mkdir_result \<times> string option \<times> mkdir_result \<times> string option"
  ro_build :: exec_os
  ro_build_ctx :: ctx_err
  ro_build_ms :: int
  ro_ctx :: "nat \<Rightarrow> bool"
  ro_test :: "nat \<Rightarrow> test_os"
  ro_wjail :: "nat \<Rightarrow> jail_os"
  ro_copy :: "nat \<Rightarrow> copy_io"

type_synonym run_result = "BuildResult \<times> TestResult list \<times> string option"

definition ok_build :: BuildResult where
  "ok_build = \<lparr>bStatus = BuildOk, bStdout = [], bStderr = [], bDurationMs = 0, bCpuTimeMs = 0\<rparr>"

text \<open>The call of \<open>ensureCacheDirs\<close>; its error is only logged.\<close>

definition setup_caches :: "run_os \<Rightarrow> jail \<Rightarrow> jail_world \<Rightarrow> jail_world" where
  "setup_caches os j w =
     (case ro_cache os of (mk1, chown1, mk2, chown2) \<Rightarrow>
        w\<lparr>wCaches := (wCaches w)(juid j :=
            max (wCaches w (juid j)) (snd (ensureCacheDirs mk1 chown1 mk2 chown2)))\<rparr>)"

text \<open>
  Up to the build: \<open>Inl\<close> is an early return (after the deferred teardown), \<open>Inr\<close> the template jail
  and the build result the tests go on with.
\<close>

definition prepare_run ::
  "environ \<Rightarrow> Manager \<Rightarrow> run_os \<Rightarrow> RunRequest \<Rightarrow> LanguageConfig \<Rightarrow> jail_world \<Rightarrow> onces \<Rightarrow>
   (run_result + jail \<times> BuildResult) \<times> jail_world \<times> onces" where
  "prepare_run env m os req lc w st =
     (case newJail m (ro_jail os) req lc (resolveSourceName req lc) w of
        (Inl e, w1) \<Rightarrow>
          (Inl (ok_build\<lparr>bStatus := BuildInternalError, bStderr := e\<rparr>, [],
                Some (''materializing jail: '' @ e)), w1, st)
      | (Inr tmpl, w1) \<Rightarrow>
          (let w2 = setup_caches os tmpl w1
           in if BuildCmd lc \<noteq> [] then
                (case runBuild env (ro_build os) (ro_build_ctx os) tmpl req lc st of
                   ((b, err), st') \<Rightarrow>
                     (let b' = b\<lparr>bDurationMs := ro_build_ms os\<rparr>;
                          w3 = snd (teardown (ro_jail os) tmpl w2)
                      in if err \<noteq> None then (Inl (b', [], err), w3, st')
                         else if bStatus b' \<noteq> BuildOk then (Inl (b', [], None), w3, st')
                         else (Inr (tmpl, b'), w2, st')))
              else (Inr (tmpl, ok_build), w2, st)))"

section \<open>Sequential tests\<close>

fun sequential_tests ::
  "environ \<Rightarrow> run_os \<Rightarrow> RunRequest \<Rightarrow> LanguageConfig \<Rightarrow> jail \<Rightarrow> nat \<Rightarrow> TestCase list \<Rightarrow> onces \<Rightarrow>
   TestResult list \<times> onces" where
  "sequential_tests env os req lc j i [] st = ([], st)"
| "sequential_tests env os req lc j i (tc # tcs) st =
     (if ro_ctx os i then ([], st)
      else (case runSingleTest env (ro_test os i) tc lc j (rRun req) (outputCapOf req) st of
              (r, st1) \<Rightarrow>
                (case sequential_tests env os req lc j (Suc i) tcs st1 of
                   (rs, st2) \<Rightarrow> (r # rs, st2))))"

section \<open>Parallel tests\<close>

datatype worker = Idle | Started | HasJail jail | Seeded jail | Leaving jail | Finished

record par_state =
  pa_next :: nat
  pa_broken :: bool
  pa_phase :: "nat \<Rightarrow> worker"
  pa_results :: "TestResult list"
  pa_world :: jail_world
  pa_onces :: onces

text \<open>The semaphore's tokens in use: goroutines started and not finished.\<close>

definition active_workers :: "par_state \<Rightarrow> nat set" where
  "active_workers s = {i. pa_phase s i \<noteq> Idle \<and> pa_phase s i \<noteq> Finished}"

definition par_init :: "RunRequest \<Rightarrow> jail_world \<Rightarrow> onces \<Rightarrow> par_state" where
  "par_init req w st =
     \<lparr>pa_next = 0, pa_broken = False, pa_phase = (\<lambda>_. Idle),
      pa_results = replicate (length (Tests req)) zero_TestResult, pa_world = w, pa_onces = st\<rparr>"

definition internal_error :: "string \<Rightarrow> TestResult" where
  "internal_error e = zero_TestResult\<lparr>tStatus := ResultInternalError, tStderr := e\<rparr>"

text \<open>
  The steps. \<open>spawn\<close> and \<open>stop\<close> are the loop; the others are goroutine \<open>i\<close>: its jail, the copy from
  the template, the test, and the deferred teardown with the semaphore's release. A new jail's
  directory name does not exist yet, as \<open>os.MkdirTemp\<close> guarantees.
\<close>

inductive par_step ::
  "environ \<Rightarrow> Manager \<Rightarrow> run_os \<Rightarrow> RunRequest \<Rightarrow> LanguageConfig \<Rightarrow> int \<Rightarrow> jail \<Rightarrow>
   par_state \<Rightarrow> par_state \<Rightarrow> bool"
  for env :: environ and m :: Manager and os :: run_os and req :: RunRequest
    and lc :: LanguageConfig and eff :: int and tmpl :: jail where
  spawn: "par_step env m os req lc eff tmpl s
      (s\<lparr>pa_next := Suc (pa_next s), pa_phase := (pa_phase s)(pa_next s := Started)\<rparr>)"
    if "\<not> pa_broken s" and "pa_next s < length (Tests req)" and "\<not> ro_ctx os (pa_next s)"
      and "int (card (active_workers s)) < eff"
| stop: "par_step env m os req lc eff tmpl s (s\<lparr>pa_broken := True\<rparr>)"
    if "\<not> pa_broken s" and "pa_next s < length (Tests req) \<longrightarrow> ro_ctx os (pa_next s)"
| jail_failed: "par_step env m os req lc eff tmpl s
      (s\<lparr>pa_phase := (pa_phase s)(i := Finished), pa_world := w',
         pa_results := (pa_results s)[i := internal_error e]\<rparr>)"
    if "pa_phase s i = Started" and "fresh_names m (ro_wjail os i) (pa_world s)"
      and "newJail m (ro_wjail os i) req lc (resolveSourceName req lc) (pa_world s) = (Inl e, w')"
| jail_made: "par_step env m os req lc eff tmpl s
      (s\<lparr>pa_phase := (pa_phase s)(i := HasJail j), pa_world := w'\<rparr>)"
    if "pa_phase s i = Started" and "fresh_names m (ro_wjail os i) (pa_world s)"
      and "newJail m (ro_wjail os i) req lc (resolveSourceName req lc) (pa_world s) = (Inr j, w')"
| seed_failed: "par_step env m os req lc eff tmpl s
      (s\<lparr>pa_phase := (pa_phase s)(i := Leaving j), pa_world := w',
         pa_results := (pa_results s)[i := internal_error (''seeding jail: '' @ e)]\<rparr>)"
    if "pa_phase s i = HasJail j" and "seedFrom (ro_copy os i) tmpl j (pa_world s) = (Some e, w')"
| seed_done: "par_step env m os req lc eff tmpl s
      (s\<lparr>pa_phase := (pa_phase s)(i := Seeded j), pa_world := w'\<rparr>)"
    if "pa_phase s i = HasJail j" and "seedFrom (ro_copy os i) tmpl j (pa_world s) = (None, w')"
| run_test: "par_step env m os req lc eff tmpl s
      (s\<lparr>pa_phase := (pa_phase s)(i := Leaving j), pa_onces := st',
         pa_results := (pa_results s)[i := r]\<rparr>)"
    if "pa_phase s i = Seeded j"
      and "runSingleTest env (ro_test os i) (Tests req ! i) lc j (rRun req) (outputCapOf req)
             (pa_onces s) = (r, st')"
| leave: "par_step env m os req lc eff tmpl s
      (s\<lparr>pa_phase := (pa_phase s)(i := Finished),
         pa_world := snd (teardown (ro_wjail os i) j (pa_world s))\<rparr>)"
    if "pa_phase s i = Leaving j"

inductive_cases par_stepE: "par_step env m os req lc eff tmpl s t"

text \<open>\<open>wg.Wait\<close> returns: the loop has ended and no goroutine is left.\<close>

definition par_done :: "par_state \<Rightarrow> bool" where
  "par_done s \<longleftrightarrow> pa_broken s \<and> active_workers s = {}"

section \<open>The whole run\<close>

inductive ExecuteRun ::
  "environ \<Rightarrow> int \<Rightarrow> Manager \<Rightarrow> run_os \<Rightarrow> RunRequest \<Rightarrow> LanguageConfig \<Rightarrow>
   jail_world \<times> onces \<Rightarrow> run_result \<Rightarrow> jail_world \<times> onces \<Rightarrow> bool"
  for env :: environ and numCPU :: int and m :: Manager and os :: run_os and req :: RunRequest
    and lc :: LanguageConfig where
  early: "ExecuteRun env numCPU m os req lc (w, st) res (w', st')"
    if "prepare_run env m os req lc w st = (Inl res, w', st')"
| sequential: "ExecuteRun env numCPU m os req lc (w, st) (b, rs, None)
      (snd (teardown (ro_jail os) tmpl w1), st2)"
    if "prepare_run env m os req lc w st = (Inr (tmpl, b), w1, st1)"
      and "effectiveParallel numCPU req \<le> 1"
      and "sequential_tests env os req lc tmpl 0 (Tests req) st1 = (rs, st2)"
| parallel: "ExecuteRun env numCPU m os req lc (w, st) (b, pa_results s, None)
      (snd (teardown (ro_jail os) tmpl (pa_world s)), pa_onces s)"
    if "prepare_run env m os req lc w st = (Inr (tmpl, b), w1, st1)"
      and "effectiveParallel numCPU req > 1"
      and "(par_step env m os req lc (effectiveParallel numCPU req) tmpl)\<^sup>*\<^sup>* (par_init req w1 st1) s"
      and "par_done s"

section \<open>Resources during a parallel run\<close>

text \<open>The jails the goroutines hold.\<close>

fun jail_in :: "worker \<Rightarrow> jail option" where
  "jail_in (HasJail j) = Some j"
| "jail_in (Seeded j) = Some j"
| "jail_in (Leaving j) = Some j"
| "jail_in _ = None"

definition live :: "par_state \<Rightarrow> nat \<rightharpoonup> jail" where
  "live s i = jail_in (pa_phase s i)"

definition jail_cgs :: "jail \<Rightarrow> string set" where
  "jail_cgs j = cgPath ` set_option (jcg j)"

text \<open>A world that holds exactly the jails \<open>L\<close> on top of \<open>w0\<close>, all of them distinct.\<close>

definition apart :: "jail \<Rightarrow> jail \<Rightarrow> bool" where
  "apart j j' \<longleftrightarrow> juid j \<noteq> juid j' \<and> jdirp j \<noteq> jdirp j' \<and> jail_cgs j \<inter> jail_cgs j' = {}"

definition outside :: "jail_world \<Rightarrow> jail \<Rightarrow> bool" where
  "outside w j \<longleftrightarrow>
     juid j \<notin> inUse (wPool w) \<and> wDirs w (jdirp j) = None \<and> jail_cgs j \<inter> wCgs w = {} \<and>
     jdirp j \<noteq> [] \<and> \<not> jonce j"

definition holds_all :: "jail_world \<Rightarrow> (nat \<rightharpoonup> jail) \<Rightarrow> jail_world \<Rightarrow> bool" where
  "holds_all w0 L w \<longleftrightarrow>
     pool_wf (wPool w) \<and>
     inUse (wPool w) = inUse (wPool w0) \<union> juid ` ran L \<and>
     (\<forall>d. d \<notin> jdirp ` ran L \<longrightarrow> wDirs w d = wDirs w0 d) \<and>
     wCgs w = wCgs w0 \<union> \<Union> (jail_cgs ` ran L) \<and>
     (\<forall>j \<in> ran L. outside w0 j \<and> wDirs w (jdirp j) \<noteq> None) \<and>
     (\<forall>i k j j'. L i = Some j \<longrightarrow> L k = Some j' \<longrightarrow> i \<noteq> k \<longrightarrow> apart j j')"

lemma holds_jail_iff:
  "holds_jail w j w' \<longleftrightarrow>
     pool_wf (wPool w') \<and> outside w j \<and> inUse (wPool w') = insert (juid j) (inUse (wPool w)) \<and>
     (\<exists>nd. wDirs w' = (wDirs w)(jdirp j \<mapsto> nd)) \<and> wCgs w' = wCgs w \<union> jail_cgs j"
  by (auto simp: holds_jail_def outside_def jail_cgs_def split: option.splits)

lemma teardown_effect:
  assumes "removals_work os" and "\<not> jonce j" and "jdirp j \<noteq> []"
  shows "wPool (snd (teardown os j w)) = Release (juid j) (wPool w)"
    and "wDirs (snd (teardown os j w)) = (wDirs w)(jdirp j := None)"
    and "wCgs (snd (teardown os j w)) = wCgs w - jail_cgs j"
  using assms
  by (auto simp: removals_work_def teardown_def Let_def jail_cgs_def split: option.splits)

lemma holds_all_empty: "pool_wf (wPool w) \<Longrightarrow> holds_all w Map.empty w"
  by (simp add: holds_all_def)

lemma holds_all_none: "holds_all w0 Map.empty w \<Longrightarrow> same_resources w0 w"
  by (auto simp: holds_all_def same_resources_def)

lemma holds_all_same:
  "holds_all w0 L w \<Longrightarrow> same_resources w w' \<Longrightarrow> pool_wf (wPool w') \<Longrightarrow> holds_all w0 L w'"
  by (simp add: holds_all_def same_resources_def)

lemma holds_all_put:
  assumes "holds_all w0 L w" and "j \<in> ran L"
  shows "holds_all w0 L (put_app j app w)"
  using assms by (auto simp: holds_all_def put_app_def)

lemma holds_all_outside:
  assumes "holds_all w0 L w" and "outside w j"
  shows "outside w0 j" and "k \<in> ran L \<Longrightarrow> apart k j"
proof -
  have d: "jdirp j \<notin> jdirp ` ran L"
    using assms by (auto simp: holds_all_def outside_def)
  with assms show "outside w0 j"
    unfolding holds_all_def outside_def by auto
  assume k: "k \<in> ran L"
  then have "juid k \<in> inUse (wPool w)" and "jail_cgs k \<subseteq> wCgs w" and "jdirp k \<in> jdirp ` ran L"
    using assms(1) by (auto simp: holds_all_def)
  with assms(2) d show "apart k j"
    unfolding outside_def apart_def by auto
qed

lemma holds_all_apart:
  "holds_all w0 L w \<Longrightarrow> L i = Some j \<Longrightarrow> L k = Some j' \<Longrightarrow> i \<noteq> k \<Longrightarrow> apart j j'"
  by (simp add: holds_all_def)

lemma apart_irrefl [simp]: "\<not> apart j j"
  by (simp add: apart_def)

lemma apart_sym: "apart j k \<Longrightarrow> apart k j"
  by (auto simp: apart_def)

lemma holds_all_add:
  assumes all: "holds_all w0 L w" and one: "holds_jail w j w'" and i: "L i = None"
  shows "holds_all w0 (L(i \<mapsto> j)) w'"
proof -
  note o = one [unfolded holds_jail_iff]
  note out = holds_all_outside [OF all, of j]
  have r: "ran (L(i \<mapsto> j)) = insert j (ran L)" by (rule ran_map_upd [of L, OF i])
  have "apart a b" if "(L(i \<mapsto> j)) x = Some a" "(L(i \<mapsto> j)) y = Some b" "x \<noteq> y" for x y a b
    using that all out(2) [of a] out(2) [of b] o apart_sym
    unfolding holds_all_def by (auto simp: ran_def split: if_splits)
  moreover have "\<forall>k \<in> insert j (ran L). outside w0 k \<and> wDirs w' (jdirp k) \<noteq> None"
    using all o out(1) unfolding holds_all_def by auto
  ultimately show ?thesis
    using all o unfolding holds_all_def r by auto
qed

lemma ran_other:
  assumes "L i = Some j" and "k \<in> ran L" and "k \<noteq> j"
  obtains n where "L n = Some k" and "n \<noteq> i"
proof -
  obtain n where n: "L n = Some k" using assms(2) by (auto simp: ran_def)
  moreover have "n \<noteq> i" using assms n by auto
  ultimately show ?thesis by (rule that)
qed

lemma ran_del:
  assumes "holds_all w0 L w" and "L i = Some j"
  shows "ran (L(i := None)) = ran L - {j}"
proof (intro set_eqI iffI)
  fix b assume "b \<in> ran (L(i := None))"
  then obtain n where "L n = Some b" "n \<noteq> i" by (auto simp: ran_def split: if_splits)
  with holds_all_apart [OF assms(1) this(1) assms(2)] show "b \<in> ran L - {j}"
    by (auto simp: ran_def)
next
  fix b assume "b \<in> ran L - {j}"
  then obtain n where "L n = Some b" "n \<noteq> i" using ran_other [of L i j b, OF assms(2)] by blast
  then have "(L(i := None)) n = Some b" by simp
  then show "b \<in> ran (L(i := None))" by (rule ranI)
qed

lemma holds_all_remove:
  assumes all: "holds_all w0 L w" and i: "L i = Some j" and rm: "removals_work os"
  shows "holds_all w0 (L(i := None)) (snd (teardown os j w))"
proof -
  have j: "outside w0 j" "j \<in> ran L"
    using all i unfolding holds_all_def by (auto simp: ran_def)
  have ap: "apart k j" if k: "k \<in> ran L - {j}" for k
  proof -
    obtain n where "L n = Some k" "n \<noteq> i" using k ran_other [of L i j k, OF i] by blast
    with holds_all_apart [OF all _ i] show ?thesis by blast
  qed
  have wf: "pool_wf (wPool w)" using all by (simp add: holds_all_def)
  have "\<not> jonce j" "jdirp j \<noteq> []" using j by (simp_all add: outside_def)
  note t = teardown_effect [OF rm this]
  have uids: "juid ` (ran L - {j}) = juid ` ran L - {juid j}"
    using ap by (auto simp: apart_def)
  have cgs: "\<Union> (jail_cgs ` (ran L - {j})) = \<Union> (jail_cgs ` ran L) - jail_cgs j"
    using ap by (auto simp: apart_def)
  show ?thesis
    unfolding holds_all_def t ran_del [OF all i] Release_inUse(1) [OF wf] uids cgs
  proof (intro conjI, goal_cases)
    case 1
    show ?case by (rule Release_inUse(2) [OF wf])
  next
    case 3
    then show ?case using all j by (auto simp: holds_all_def outside_def)
  next
    case 5
    then show ?case using all ap by (auto simp: holds_all_def apart_def)
  qed (use all j in \<open>auto simp: holds_all_def outside_def\<close>)
qed

section \<open>The invariant of a parallel run\<close>

lemma signalReason_valid: "signalKillReason ps = ResultUnset \<or> ResultStatus_Valid (signalKillReason ps)"
  by (cases "signalKillReason ps") simp_all

lemma computeTestStatus_set: "computeTestStatus ctx err so ex ps oom cpu \<noteq> ResultUnset"
  by (simp add: computeTestStatus_def split: option.splits)

lemma runSingleTest_set:
  "runSingleTest env os tc lc j ro cap st = (r, st') \<Longrightarrow> tStatus r \<noteq> ResultUnset"
  by (auto simp: runSingleTest_def failResult_def Let_def computeTestStatus_set
      split: if_splits prod.splits)

lemma seedFrom_world:
  assumes "seedFrom io t j w = (r, w')"
  shows "w' = w \<or> (\<exists>app. w' = put_app j app w)"
  using assms by (auto simp: seedFrom_def split: option.splits prod.splits)

lemma holds_all_seed:
  assumes "holds_all w0 L w" and "L i = Some j" and "seedFrom io t j w = (r, w')"
  shows "holds_all w0 L w'"
  using seedFrom_world [OF assms(3)] assms(1) holds_all_put [OF assms(1) ranI [of L, OF assms(2)]]
  by auto

lemma internal_error_set [simp]: "tStatus (internal_error e) = ResultInternalError"
  by (simp add: internal_error_def)

definition par_inv :: "RunRequest \<Rightarrow> int \<Rightarrow> jail_world \<Rightarrow> par_state \<Rightarrow> bool" where
  "par_inv req eff w0 s \<longleftrightarrow>
     holds_all w0 (live s) (pa_world s) \<and>
     length (pa_results s) = length (Tests req) \<and>
     pa_next s \<le> length (Tests req) \<and>
     (\<forall>i. pa_phase s i = Idle \<longleftrightarrow> pa_next s \<le> i) \<and>
     int (card (active_workers s)) \<le> eff \<and>
     (\<forall>i < pa_next s. pa_phase s i = Finished \<or> (\<exists>j. pa_phase s i = Leaving j) \<longrightarrow>
        tStatus (pa_results s ! i) \<noteq> ResultUnset)"

lemma par_invD:
  assumes "par_inv req eff w0 s"
  shows "holds_all w0 (live s) (pa_world s)" and "length (pa_results s) = length (Tests req)"
    and "pa_next s \<le> length (Tests req)" and "pa_phase s i = Idle \<longleftrightarrow> pa_next s \<le> i"
    and "int (card (active_workers s)) \<le> eff"
    and "i < pa_next s \<Longrightarrow> pa_phase s i = Finished \<or> (\<exists>j. pa_phase s i = Leaving j) \<Longrightarrow>
      tStatus (pa_results s ! i) \<noteq> ResultUnset"
  using assms unfolding par_inv_def by blast+

lemma phase_lt: "par_inv req eff w0 s \<Longrightarrow> pa_phase s i \<noteq> Idle \<Longrightarrow> i < pa_next s"
  using par_invD(4) by fastforce

lemma active_finite: "par_inv req eff w0 s \<Longrightarrow> finite (active_workers s)"
proof (rule finite_subset)
  assume "par_inv req eff w0 s"
  then show "active_workers s \<subseteq> {..<pa_next s}"
    using phase_lt by (auto simp: active_workers_def)
qed simp

lemma par_inv_init:
  assumes "pool_wf (wPool w)" and "0 \<le> eff"
  shows "par_inv req eff w (par_init req w st)"
proof -
  have "live (par_init req w st) = Map.empty" by (simp add: live_def par_init_def fun_eq_iff)
  moreover have "holds_all w Map.empty (pa_world (par_init req w st))"
    using holds_all_empty [OF assms(1)] by (simp add: par_init_def)
  ultimately show ?thesis
    using assms(2) by (simp add: par_inv_def) (simp add: par_init_def active_workers_def)
qed

text \<open>What a step of goroutine \<open>i\<close> leaves to show: its resources and its result.\<close>

lemma par_inv_worker:
  assumes inv: "par_inv req eff w0 s"
    and res: "holds_all w0 ((live s)(i := jail_in ph)) w'" and i: "pa_phase s i \<noteq> Idle" "pa_phase s i \<noteq> Finished"
    and ph: "ph \<noteq> Idle" and rs: "rs = pa_results s \<or> (\<exists>r. rs = (pa_results s)[i := r])"
    and t: "pa_phase t = (pa_phase s)(i := ph)" "pa_world t = w'" "pa_results t = rs"
      "pa_next t = pa_next s"
    and st: "ph = Finished \<or> (\<exists>j. ph = Leaving j) \<Longrightarrow> tStatus (rs ! i) \<noteq> ResultUnset"
  shows "par_inv req eff w0 t"
proof -
  have lt: "i < pa_next s" by (rule phase_lt [OF inv i(1)])
  have "active_workers t \<subseteq> active_workers s"
    using i t(1) by (auto simp: active_workers_def split: if_splits)
  then have "card (active_workers t) \<le> card (active_workers s)"
    by (rule card_mono [OF active_finite [OF inv]])
  with par_invD(5) [OF inv] have c: "int (card (active_workers t)) \<le> eff" by simp
  have l: "live t = (live s)(i := jail_in ph)" using t(1) by (auto simp: live_def)
  have other: "rs ! k = pa_results s ! k" if "k \<noteq> i" for k using rs that by auto
  have len: "length rs = length (Tests req)" using rs par_invD(2) [OF inv] by auto
  have idle: "((pa_phase s)(i := ph)) k = Idle \<longleftrightarrow> pa_next s \<le> k" for k
    using par_invD(4) [OF inv, of k] ph lt by auto
  have set: "tStatus (rs ! k) \<noteq> ResultUnset"
    if "k < pa_next s" "((pa_phase s)(i := ph)) k = Finished \<or> (\<exists>j. ((pa_phase s)(i := ph)) k = Leaving j)"
    for k using that st other par_invD(6) [OF inv, of k] by (cases "k = i") auto
  show ?thesis
    unfolding par_inv_def l t using c res len idle set par_invD(3) [OF inv] by simp
qed

lemma live_upd_same: "live s i = x \<Longrightarrow> (live s)(i := x) = live s"
  by auto

lemma worker_index:
  assumes "par_inv req eff w0 s" and "pa_phase s i = ph" and "ph \<noteq> Idle"
  shows "i < pa_next s" and "i < length (pa_results s)"
  using phase_lt [OF assms(1), of i] assms(2,3) par_invD(2,3) [OF assms(1)] by auto

text \<open>The loop starts goroutine \<open>pa_next s\<close>.\<close>

lemma par_inv_spawn:
  assumes inv: "par_inv req eff w0 s" and "pa_next s < length (Tests req)"
    and "int (card (active_workers s)) < eff"
  shows "par_inv req eff w0 (s\<lparr>pa_next := Suc (pa_next s), pa_phase := (pa_phase s)(pa_next s := Started)\<rparr>)"
    (is "par_inv req eff w0 ?t")
proof -
  have sub: "active_workers ?t \<subseteq> insert (pa_next s) (active_workers s)"
    by (auto simp: active_workers_def split: if_splits)
  have "card (active_workers ?t) \<le> card (insert (pa_next s) (active_workers s))"
    by (rule card_mono [OF _ sub]) (simp add: active_finite [OF inv])
  also have "\<dots> \<le> Suc (card (active_workers s))" by (simp add: card_insert_if active_finite [OF inv])
  finally have c: "int (card (active_workers ?t)) \<le> eff" using assms(3) by simp
  have "pa_phase s (pa_next s) = Idle" using par_invD(4) [OF inv, of "pa_next s"] by simp
  then have l: "live ?t = live s" by (simp add: live_def fun_eq_iff)
  have idle: "pa_phase ?t k = Idle \<longleftrightarrow> pa_next ?t \<le> k" for k
    using par_invD(4) [OF inv, of k] by auto
  have "tStatus (pa_results ?t ! k) \<noteq> ResultUnset"
    if "k < pa_next ?t" "pa_phase ?t k = Finished \<or> (\<exists>j. pa_phase ?t k = Leaving j)" for k
    using that par_invD(6) [OF inv, of k] by (cases "k = pa_next s") auto
  with c l idle show ?thesis
    unfolding par_inv_def using par_invD(1,2) [OF inv] assms(2) by simp
qed

text \<open>Goroutine \<open>i\<close> asks for its jail, and copies the template into it.\<close>

lemma holds_all_phase:
  "holds_all w0 (live s) w \<Longrightarrow> jail_in (pa_phase s i) = jail_in ph \<Longrightarrow> holds_all w0 ((live s)(i := jail_in ph)) w"
  by (simp add: live_def live_upd_same)

lemma par_inv_jail:
  assumes inv: "par_inv req eff w0 s" and i: "pa_phase s i = Started"
    and fresh: "fresh_names m os' (pa_world s)" and rm: "removals_work os'"
    and new: "newJail m os' req lc nm (pa_world s) = (r, w')"
  shows "par_inv req eff w0
    (case r of
       Inl e \<Rightarrow> s\<lparr>pa_phase := (pa_phase s)(i := Finished), pa_world := w',
                   pa_results := (pa_results s)[i := internal_error e]\<rparr>
     | Inr j \<Rightarrow> s\<lparr>pa_phase := (pa_phase s)(i := HasJail j), pa_world := w'\<rparr>)"
proof -
  note all = par_invD(1) [OF inv] and lt = worker_index [OF inv i]
  have wf: "pool_wf (wPool (pa_world s))" using all by (simp add: holds_all_def)
  note spec = newJail_spec [OF wf fresh rm, of lc req nm, unfolded new prod.case]
  show ?thesis
  proof (cases r)
    case (Inl e)
    then have "holds_all w0 ((live s)(i := jail_in Finished)) w'"
      using holds_all_same [OF all] spec i by (intro holds_all_phase) auto
    then show ?thesis unfolding Inl sum.case
      by (rule par_inv_worker [OF inv, where i = i and ph = "Finished" and rs = "(pa_results s)[i := internal_error e]"])
         (use i lt in auto)
  next
    case (Inr j)
    then have "holds_all w0 ((live s)(i := jail_in (HasJail j))) w'"
      using holds_all_add [OF all] spec i by (simp add: live_def)
    then show ?thesis unfolding Inr sum.case
      by (rule par_inv_worker [OF inv, where i = i and ph = "HasJail j" and rs = "pa_results s"])
         (use i lt in auto)
  qed
qed

lemma par_inv_seed:
  assumes inv: "par_inv req eff w0 s" and i: "pa_phase s i = HasJail j"
    and seed: "seedFrom io tmpl j (pa_world s) = (r, w')"
  shows "par_inv req eff w0
    (case r of
       Some e \<Rightarrow> s\<lparr>pa_phase := (pa_phase s)(i := Leaving j), pa_world := w',
                    pa_results := (pa_results s)[i := internal_error (''seeding jail: '' @ e)]\<rparr>
     | None \<Rightarrow> s\<lparr>pa_phase := (pa_phase s)(i := Seeded j), pa_world := w'\<rparr>)"
proof -
  note lt = worker_index [OF inv i]
  have "holds_all w0 (live s) w'"
    using holds_all_seed [OF par_invD(1) [OF inv] _ seed, of i] i by (simp add: live_def)
  then have h: "holds_all w0 ((live s)(i := jail_in (Leaving j))) w'" "holds_all w0 ((live s)(i := jail_in (Seeded j))) w'"
    using i by (auto intro!: holds_all_phase simp del: jail_in.simps) (simp_all)
  show ?thesis
  proof (cases r)
    case (Some e)
    show ?thesis unfolding Some option.case
      by (rule par_inv_worker [OF inv h(1), where rs = "(pa_results s)[i := internal_error (''seeding jail: '' @ e)]"])
         (use i lt in auto)
  next
    case None
    show ?thesis unfolding None option.case
      by (rule par_inv_worker [OF inv h(2), where rs = "pa_results s"]) (use i lt in auto)
  qed
qed

lemma par_inv_step:
  assumes step: "par_step env m os req lc eff tmpl s t" and inv: "par_inv req eff w0 s"
    and rm: "\<And>i. removals_work (ro_wjail os i)"
  shows "par_inv req eff w0 t"
proof -
  note all = par_invD(1) [OF inv]
  from step show ?thesis
  proof (cases rule: par_step.cases)
    case spawn
    with par_inv_spawn [OF inv] show ?thesis by simp
  next
    case stop
    then have "live t = live s" "active_workers t = active_workers s"
      by (simp_all add: live_def active_workers_def fun_eq_iff)
    with stop inv show ?thesis by (simp add: par_inv_def)
  next
    case (jail_failed i e w')
    with par_inv_jail [OF inv jail_failed(2,3) rm jail_failed(4)] show ?thesis by simp
  next
    case (jail_made i j w')
    with par_inv_jail [OF inv jail_made(2,3) rm jail_made(4)] show ?thesis by simp
  next
    case (seed_failed i j e w')
    with par_inv_seed [OF inv seed_failed(2,3)] show ?thesis by simp
  next
    case (seed_done i j w')
    with par_inv_seed [OF inv seed_done(2,3)] show ?thesis by simp
  next
    case (run_test i j r st')
    have "holds_all w0 ((live s)(i := jail_in (Leaving j))) (pa_world s)"
      by (rule holds_all_phase [OF all]) (simp add: run_test(2))
    then show ?thesis
      by (rule par_inv_worker [OF inv, where i = i and ph = "Leaving j" and rs = "(pa_results s)[i := r]"])
         (use run_test worker_index [OF inv run_test(2)] runSingleTest_set [OF run_test(3)] in auto)
  next
    case (leave i j)
    have "holds_all w0 ((live s)(i := jail_in Finished)) (snd (teardown (ro_wjail os i) j (pa_world s)))"
      using holds_all_remove [OF all _ rm, of i j i] leave(2) by (simp add: live_def)
    then show ?thesis
      by (rule par_inv_worker [OF inv, where i = i and ph = "Finished" and rs = "pa_results s"])
         (use leave worker_index [OF inv leave(2)] par_invD(6) [OF inv, of i] in auto)
  qed
qed

lemma par_inv_steps:
  assumes "(par_step env m os req lc eff tmpl)\<^sup>*\<^sup>* s t" and "par_inv req eff w0 s"
    and "\<And>i. removals_work (ro_wjail os i)"
  shows "par_inv req eff w0 t"
  using assms by (induction rule: rtranclp_induct) (auto intro: par_inv_step)

section \<open>Termination and progress\<close>

fun worker_rank :: "worker \<Rightarrow> nat" where
  "worker_rank Idle = 5"
| "worker_rank Started = 4"
| "worker_rank (HasJail j) = 3"
| "worker_rank (Seeded j) = 2"
| "worker_rank (Leaving j) = 1"
| "worker_rank Finished = 0"

definition par_rank :: "nat \<Rightarrow> par_state \<Rightarrow> nat" where
  "par_rank n s = (\<Sum>i<n. worker_rank (pa_phase s i)) + (if pa_broken s then 0 else 1)"

lemma rank_upd:
  fixes n :: nat
  assumes "i < n" and "worker_rank ph < worker_rank (f i)"
  shows "(\<Sum>k<n. worker_rank ((f(i := ph)) k)) < (\<Sum>k<n. worker_rank (f k))"
  by (rule sum_strict_mono_ex1) (use assms in \<open>auto intro!: bexI [of _ i]\<close>)

text \<open>Every step lowers the rank: a parallel run takes at most \<open>5 n + 1\<close> steps.\<close>

lemma par_step_rank:
  assumes "par_step env m os req lc eff tmpl s t" and inv: "par_inv req eff w0 s"
  shows "par_rank (length (Tests req)) t < par_rank (length (Tests req)) s"
proof -
  have lt: "i < length (Tests req)" if "pa_phase s i \<noteq> Idle" for i
    using phase_lt [OF inv that] par_invD(3) [OF inv] by simp
  have idle: "pa_phase s (pa_next s) = Idle"
    using par_invD(4) [OF inv, of "pa_next s"] by simp
  have upd: "par_rank (length (Tests req)) t < par_rank (length (Tests req)) s"
    if "i < length (Tests req)" "worker_rank ph < worker_rank (pa_phase s i)"
      "pa_phase t = (pa_phase s)(i := ph)" "pa_broken t = pa_broken s" for i ph
    using rank_upd [of i _ ph "pa_phase s", OF that(1,2)] that(3,4) by (simp add: par_rank_def)
  from assms(1) show ?thesis
  proof (cases rule: par_step.cases)
    case spawn
    then show ?thesis by (intro upd [of "pa_next s" Started]) (simp_all add: idle)
  next
    case stop
    then show ?thesis by (simp add: par_rank_def)
  next
    case (jail_failed i e w')
    then show ?thesis by (intro upd [of i Finished]) (simp_all add: lt)
  next
    case (jail_made i j w')
    then show ?thesis by (intro upd [of i "HasJail j"]) (simp_all add: lt)
  next
    case (seed_failed i j e w')
    then show ?thesis by (intro upd [of i "Leaving j"]) (simp_all add: lt)
  next
    case (seed_done i j w')
    then show ?thesis by (intro upd [of i "Seeded j"]) (simp_all add: lt)
  next
    case (run_test i j r st')
    then show ?thesis by (intro upd [of i "Leaving j"]) (simp_all add: lt)
  next
    case (leave i j)
    then show ?thesis by (intro upd [of i Finished]) (simp_all add: lt)
  qed
qed

text \<open>A goroutine that has not finished can always go on.\<close>

lemma worker_moves:
  assumes "i \<in> active_workers s" and "pa_phase s i \<noteq> Started"
  shows "\<exists>t. par_step env m os req lc eff tmpl s t"
proof (cases "pa_phase s i")
  case (HasJail j)
  obtain r w' where "seedFrom (ro_copy os i) tmpl j (pa_world s) = (r, w')" by fastforce
  with HasJail show ?thesis
    by (cases r) (blast intro: par_step.seed_failed par_step.seed_done)+
next
  case (Seeded j)
  obtain r st' where "runSingleTest env (ro_test os i) (Tests req ! i) lc j (rRun req) (outputCapOf req)
     (pa_onces s) = (r, st')" by fastforce
  with Seeded show ?thesis by (blast intro: par_step.run_test)
next
  case (Leaving j)
  then show ?thesis by (blast intro: par_step.leave)
qed (use assms in \<open>auto simp: active_workers_def\<close>)

lemma worker_progress:
  assumes "i \<in> active_workers s" and "fresh_names m (ro_wjail os i) (pa_world s)"
  shows "\<exists>t. par_step env m os req lc eff tmpl s t"
proof (cases "pa_phase s i = Started")
  case True
  obtain r w' where "newJail m (ro_wjail os i) req lc (resolveSourceName req lc) (pa_world s) = (r, w')"
    by fastforce
  with True assms(2) show ?thesis
    by (cases r) (blast intro: par_step.jail_failed par_step.jail_made)+
qed (use assms(1) in \<open>rule worker_moves\<close>)

text \<open>With no goroutine left, the loop starts the next one or ends.\<close>

lemma idle_progress:
  assumes "0 < eff" and "\<not> par_done s" and "active_workers s = {}"
  shows "\<exists>t. par_step env m os req lc eff tmpl s t"
proof -
  have nb: "\<not> pa_broken s" using assms by (simp add: par_done_def)
  show ?thesis
  proof (cases "pa_next s < length (Tests req) \<and> \<not> ro_ctx os (pa_next s)")
    case True
    with nb assms show ?thesis by (intro exI) (rule par_step.spawn; simp)
  next
    case False
    with nb show ?thesis by (intro exI) (rule par_step.stop; simp)
  qed
qed

section \<open>No run leaves anything behind\<close>

lemma par_done_live: "par_done s \<Longrightarrow> live s = Map.empty"
proof
  fix i assume "par_done s"
  then have "pa_phase s i = Idle \<or> pa_phase s i = Finished"
    by (auto simp: par_done_def active_workers_def)
  then show "live s i = None" by (auto simp: live_def)
qed

lemma same_resources_holds:
  assumes "holds_jail w j w1" and "same_resources w1 w2" and "pool_wf (wPool w2)"
  shows "holds_jail w j w2"
  using assms by (simp add: holds_jail_def same_resources_def split: option.splits)

lemma setup_caches_fields [simp]:
  "wPool (setup_caches os j w) = wPool w" "wDirs (setup_caches os j w) = wDirs w"
  "wCgs (setup_caches os j w) = wCgs w"
  by (simp_all add: setup_caches_def split: prod.splits)

lemma holds_jail_caches [simp]: "holds_jail w j (setup_caches os t v) = holds_jail w j v"
  by (simp add: holds_jail_def split: option.splits)

lemma prepare_run_spec:
  assumes "prepare_run env m os req lc w st = (r, w', st')" and "pool_wf (wPool w)"
    and "fresh_names m (ro_jail os) w" and "removals_work (ro_jail os)"
  shows "case r of
      Inl res \<Rightarrow> same_resources w w' \<and> pool_wf (wPool w')
    | Inr (tmpl, b) \<Rightarrow> holds_jail w tmpl w' \<and> bStatus b = BuildOk"
proof -
  note nj = newJail_spec [OF assms(2-4), of lc req "resolveSourceName req lc"]
  have td: "same_resources w (snd (teardown (ro_jail os) j v)) \<and>
      pool_wf (wPool (snd (teardown (ro_jail os) j v)))" if "holds_jail w j v" for j v
    using that assms(4) teardown_releases teardown_pool_wf holds_jail_wf by blast
  show ?thesis
    using assms(1) nj td
    by (auto simp: prepare_run_def ok_build_def Let_def split: prod.splits sum.splits if_splits)
qed

text \<open>Every way \<open>ExecuteRun\<close> can end gives back the uids, directories and cgroups it took.\<close>

lemma ExecuteRun_releases:
  assumes "ExecuteRun env numCPU m os req lc (w, st) res (w', st')"
    and wf: "pool_wf (wPool w)" and fresh: "fresh_names m (ro_jail os) w"
    and rm: "removals_work (ro_jail os)" "\<And>i. removals_work (ro_wjail os i)"
  shows "same_resources w w'"
  using assms(1)
proof (cases rule: ExecuteRun.cases)
  case early
  then show ?thesis using prepare_run_spec [OF early wf fresh rm(1)] by simp
next
  case (sequential tmpl b w1 st1 rs)
  then show ?thesis
    using prepare_run_spec [OF sequential(3) wf fresh rm(1)] teardown_releases rm(1) by auto
next
  case (parallel tmpl b w1 st1 s)
  have h: "holds_jail w tmpl w1"
    using prepare_run_spec [OF parallel(4) wf fresh rm(1)] by simp
  have "par_inv req (effectiveParallel numCPU req) w1 s"
    using par_inv_steps [OF parallel(6) par_inv_init rm(2)] holds_jail_wf [OF h] parallel(5) by simp
  then have "holds_all w1 Map.empty (pa_world s)"
    using par_invD(1) par_done_live [OF parallel(7)] by metis
  then have "same_resources w1 (pa_world s)" "pool_wf (wPool (pa_world s))"
    using holds_all_none by (auto simp: holds_all_def)
  with h have "holds_jail w tmpl (pa_world s)" by (rule same_resources_holds)
  with parallel(2) rm(1) show ?thesis using teardown_releases by blast
qed

text \<open>Unless the context ends the loop early, every test of a parallel run has a verdict.\<close>

lemma par_all_verdicts:
  assumes "par_inv req eff w0 s" and "par_done s" and "pa_next s = length (Tests req)"
  shows "\<forall>r \<in> set (pa_results s). tStatus r \<noteq> ResultUnset"
proof -
  have "tStatus (pa_results s ! i) \<noteq> ResultUnset" if "i < length (Tests req)" for i
  proof -
    have "pa_phase s i \<noteq> Idle" using par_invD(4) [OF assms(1), of i] that assms(3) by simp
    then have "pa_phase s i = Finished"
      using assms(2) by (auto simp: par_done_def active_workers_def)
    then show ?thesis using par_invD(6) [OF assms(1), of i] that assms(3) by simp
  qed
  with par_invD(2) [OF assms(1)] show ?thesis by (auto simp: in_set_conv_nth)
qed

lemma sequential_length:
  "length (fst (sequential_tests env os req lc j i tcs st)) \<le> length tcs"
  by (induction env os req lc j i tcs st rule: sequential_tests.induct) (auto split: prod.splits)

lemma sequential_verdicts:
  "r \<in> set (fst (sequential_tests env os req lc j i tcs st)) \<Longrightarrow> tStatus r \<noteq> ResultUnset"
  by (induction env os req lc j i tcs st rule: sequential_tests.induct)
     (auto split: prod.splits if_splits dest: runSingleTest_set)

section \<open>Names\<close>

text \<open>
  \<open>os.MkdirTemp\<close> chooses names that do not exist: here, the names it gives the jails of one run are
  not in use when the run starts and are all different.
\<close>

definition cg_path :: "Manager \<Rightarrow> string \<Rightarrow> string" where
  "cg_path m dir = path_join [base m, path_base dir]"

definition other_names :: "Manager \<Rightarrow> jail_os \<Rightarrow> jail_os \<Rightarrow> bool" where
  "other_names m os os' \<longleftrightarrow>
     (\<forall>d d'. j_mkdtemp os = Inr d \<longrightarrow> j_mkdtemp os' = Inr d' \<longrightarrow>
        d \<noteq> d' \<and> (Active m \<longrightarrow> cg_path m d \<noteq> cg_path m d'))"

definition workers_apart :: "Manager \<Rightarrow> run_os \<Rightarrow> jail_world \<Rightarrow> bool" where
  "workers_apart m os w \<longleftrightarrow>
     (\<forall>i. fresh_names m (ro_wjail os i) w) \<and>
     (\<forall>i k. i \<noteq> k \<longrightarrow> other_names m (ro_wjail os i) (ro_wjail os k))"

definition names_apart :: "Manager \<Rightarrow> run_os \<Rightarrow> jail_world \<Rightarrow> bool" where
  "names_apart m os w \<longleftrightarrow>
     fresh_names m (ro_jail os) w \<and> workers_apart m os w \<and>
     (\<forall>i. other_names m (ro_jail os) (ro_wjail os i))"

text \<open>The names of a jail come from the call that made it.\<close>

definition named_by :: "Manager \<Rightarrow> jail_os \<Rightarrow> jail \<Rightarrow> bool" where
  "named_by m os j \<longleftrightarrow>
     j_mkdtemp os = Inr (jdirp j) \<and> jail_cgs j \<subseteq> {c. Active m \<and> c = cg_path m (jdirp j)}"

lemma newJail_named: "newJail m os req lc s w = (Inr j, w') \<Longrightarrow> named_by m os j"
  using newJail_names [of m os req lc s w j w'] newJail_cg_active [of m os req lc s w j w']
  by (auto simp: named_by_def jail_cgs_def cg_path_def)

definition live_named :: "Manager \<Rightarrow> run_os \<Rightarrow> par_state \<Rightarrow> bool" where
  "live_named m os s \<longleftrightarrow> (\<forall>i j. live s i = Some j \<longrightarrow> named_by m (ro_wjail os i) j)"

lemma live_named_step:
  assumes "par_step env m os req lc eff tmpl s t" and "live_named m os s"
  shows "live_named m os t"
  using assms
proof (cases rule: par_step.cases)
  case (jail_made i j w')
  with assms(2) newJail_named [OF jail_made(4)] show ?thesis
    by (auto simp: live_named_def live_def)
qed (auto simp: live_named_def live_def split: if_splits)

lemma live_named_steps:
  assumes "(par_step env m os req lc eff tmpl)\<^sup>*\<^sup>* s t" and "live_named m os s"
  shows "live_named m os t"
  using assms by (induction rule: rtranclp_induct) (auto intro: live_named_step)

lemma live_init: "live (par_init req w st) = Map.empty"
  by (simp add: live_def par_init_def fun_eq_iff)

text \<open>Hence a goroutine that is about to make its jail finds its names unused.\<close>

lemma fresh_in_run:
  assumes all: "holds_all w0 (live s) (pa_world s)" and nm: "live_named m os s"
    and ap: "workers_apart m os w0" and i: "live s i = None"
  shows "fresh_names m (ro_wjail os i) (pa_world s)"
  unfolding fresh_names_def
proof (intro allI impI)
  fix dir assume d: "j_mkdtemp (ro_wjail os i) = Inr dir"
  have "fresh_names m (ro_wjail os i) w0" using ap by (simp add: workers_apart_def)
  then have f: "dir \<noteq> []" "wDirs w0 dir = None" "cg_path m dir \<notin> wCgs w0"
    using d by (auto simp: fresh_names_def cg_path_def)
  have other: "jdirp j \<noteq> dir \<and> cg_path m dir \<notin> jail_cgs j" if j: "j \<in> ran (live s)" for j
  proof -
    obtain k where k: "live s k = Some j" using j by (auto simp: ran_def)
    then have n: "named_by m (ro_wjail os k) j" and "k \<noteq> i" using nm i by (auto simp: live_named_def)
    have "other_names m (ro_wjail os k) (ro_wjail os i)"
      using ap \<open>k \<noteq> i\<close> by (simp add: workers_apart_def)
    then show ?thesis using n d by (auto simp: named_by_def other_names_def)
  qed
  then have "dir \<notin> jdirp ` ran (live s)" by blast
  then have "wDirs (pa_world s) dir = None" using all f(2) by (simp add: holds_all_def)
  moreover have "cg_path m dir \<notin> wCgs (pa_world s)"
    using all f(3) other by (auto simp: holds_all_def)
  ultimately show "dir \<noteq> [] \<and> wDirs (pa_world s) dir = None \<and>
      path_join [base m, path_base dir] \<notin> wCgs (pa_world s)"
    using f(1) by (simp add: cg_path_def)
qed

text \<open>A run of the goroutines from a world \<open>w1\<close> whose names are free never blocks.\<close>

lemma par_run_progress:
  assumes steps: "(par_step env m os req lc eff tmpl)\<^sup>*\<^sup>* (par_init req w1 st1) s"
    and wf: "pool_wf (wPool w1)" and eff: "0 < eff" and rm: "\<And>i. removals_work (ro_wjail os i)"
    and ap: "workers_apart m os w1" and nd: "\<not> par_done s"
  shows "\<exists>t. par_step env m os req lc eff tmpl s t"
proof -
  have inv: "par_inv req eff w1 s"
    using par_inv_steps [OF steps par_inv_init rm] wf eff by simp
  have nm: "live_named m os s"
    by (rule live_named_steps [OF steps]) (simp add: live_named_def live_init)
  show ?thesis
  proof (cases "\<exists>i \<in> active_workers s. True")
    case True
    then obtain i where i: "i \<in> active_workers s" by blast
    show ?thesis
    proof (cases "live s i")
      case None
      show ?thesis
        by (rule worker_progress [of i, OF i fresh_in_run [of w1 s m os i, OF par_invD(1) [OF inv] nm ap None]])
    next
      case (Some j)
      then have "pa_phase s i \<noteq> Started" by (auto simp: live_def)
      with i show ?thesis by (rule worker_moves)
    qed
  next
    case False
    with nd eff show ?thesis by (intro idle_progress) auto
  qed
qed

lemma par_run_bounded:
  assumes steps: "((par_step env m os req lc eff tmpl) ^^ k) (par_init req w1 st1) s"
    and wf: "pool_wf (wPool w1)" and eff: "0 < eff" and rm: "\<And>i. removals_work (ro_wjail os i)"
  shows "k + par_rank (length (Tests req)) s \<le> 5 * length (Tests req) + 1"
  using steps
proof (induction k arbitrary: s)
  case 0
  then have "s = par_init req w1 st1" by simp
  then show ?case by (simp add: par_rank_def par_init_def)
next
  case (Suc k)
  then obtain u where u: "((par_step env m os req lc eff tmpl) ^^ k) (par_init req w1 st1) u"
    and st: "par_step env m os req lc eff tmpl u s" by auto
  have "par_inv req eff w1 u"
    using par_inv_steps [OF relpowp_imp_rtranclp [OF u] par_inv_init rm] wf eff by simp
  from par_step_rank [OF st this] Suc.IH [OF u] show ?case by simp
qed

lemma par_run_ends:
  assumes "(par_step env m os req lc eff tmpl)\<^sup>*\<^sup>* (par_init req w1 st1) s"
    and wf: "pool_wf (wPool w1)" and eff: "0 < eff" and rm: "\<And>i. removals_work (ro_wjail os i)"
    and ap: "workers_apart m os w1"
  shows "\<exists>t. (par_step env m os req lc eff tmpl)\<^sup>*\<^sup>* s t \<and> par_done t"
  using assms(1)
proof (induction "par_rank (length (Tests req)) s" arbitrary: s rule: less_induct)
  case less
  show ?case
  proof (cases "par_done s")
    case True
    then show ?thesis by blast
  next
    case False
    then obtain u where u: "par_step env m os req lc eff tmpl s u"
      using par_run_progress [OF less.prems wf eff rm ap] by blast
    have "par_inv req eff w1 s"
      using par_inv_steps [OF less.prems par_inv_init rm] wf eff by simp
    from par_step_rank [OF u this] less.hyps less.prems u show ?thesis
      by (meson converse_rtranclp_into_rtranclp rtranclp.rtrancl_into_rtrancl)
  qed
qed

text \<open>The names stay free while the template jail is made.\<close>

lemma names_apart_template:
  assumes ap: "names_apart m os w" and h: "holds_jail w tmpl w1" and n: "named_by m (ro_jail os) tmpl"
  shows "workers_apart m os w1"
proof -
  have "fresh_names m (ro_wjail os i) w1" for i
  proof -
    have "fresh_names m (ro_wjail os i) w" "other_names m (ro_jail os) (ro_wjail os i)"
      using ap by (simp_all add: names_apart_def workers_apart_def)
    with h n show ?thesis
      by (auto simp: fresh_names_def named_by_def holds_jail_iff other_names_def cg_path_def)
  qed
  with ap show ?thesis by (simp add: names_apart_def workers_apart_def)
qed

lemma prepare_run_named:
  "prepare_run env m os req lc w st = (Inr (tmpl, b), w1, st1) \<Longrightarrow> named_by m (ro_jail os) tmpl"
  by (auto simp: prepare_run_def Let_def split: prod.splits sum.splits if_splits dest: newJail_named)

text \<open>\<open>ExecuteRun\<close> returns.\<close>

lemma ExecuteRun_returns:
  assumes wf: "pool_wf (wPool w)" and ap: "names_apart m os w"
    and rm: "removals_work (ro_jail os)" "\<And>i. removals_work (ro_wjail os i)"
  shows "\<exists>res w' st'. ExecuteRun env numCPU m os req lc (w, st) res (w', st')"
proof -
  obtain r w1 st1 where p: "prepare_run env m os req lc w st = (r, w1, st1)" by (metis prod_cases3)
  show ?thesis
  proof (cases r)
    case (Inl res)
    with p show ?thesis by (blast intro: ExecuteRun.early)
  next
    case (Inr tb)
    obtain tmpl b where tb: "tb = (tmpl, b)" by fastforce
    note p' = p [unfolded Inr tb]
    show ?thesis
    proof (cases "effectiveParallel numCPU req \<le> 1")
      case True
      obtain rs st2 where "sequential_tests env os req lc tmpl 0 (Tests req) st1 = (rs, st2)" by fastforce
      with p' True show ?thesis by (blast intro: ExecuteRun.sequential)
    next
      case False
      then have gt: "1 < effectiveParallel numCPU req" by simp
      have "fresh_names m (ro_jail os) w" using ap by (simp add: names_apart_def)
      then have h: "holds_jail w tmpl w1" using prepare_run_spec [OF p' wf _ rm(1)] by simp
      have wa: "workers_apart m os w1" by (rule names_apart_template [OF ap h prepare_run_named [OF p']])
      obtain s where "(par_step env m os req lc (effectiveParallel numCPU req) tmpl)\<^sup>*\<^sup>* (par_init req w1 st1) s"
        and "par_done s"
        using par_run_ends [OF rtranclp.rtrancl_refl holds_jail_wf [OF h] _ rm(2) wa] gt
        by (metis less_trans zero_less_one)
      with p' gt show ?thesis by (blast intro: ExecuteRun.parallel)
    qed
  qed
qed

lemma effectiveParallel_bounds:
  "1 \<le> effectiveParallel numCPU req"
  "0 < numCPU \<Longrightarrow> effectiveParallel numCPU req \<le> numCPU"
  "MaxParallel req = Some n \<Longrightarrow> 1 \<le> n \<Longrightarrow> effectiveParallel numCPU req \<le> n"
  by (auto simp: effectiveParallel_def split: option.splits)

section \<open>A sample run\<close>

definition sample_os :: run_os where
  "sample_os =
     \<lparr>ro_jail = sample_jail_os 0, ro_cache = (MkOk, None, MkOk, None), ro_build = sample_exec, ro_build_ctx = CtxOk, ro_build_ms = 0,
      ro_ctx = (\<lambda>_. False),
      ro_test = (\<lambda>_. \<lparr>t_ctx_before = CtxOk, t_exec = sample_exec, t_ctx_after = CtxOk,
        t_duration = 1, t_peak = None, t_maxrss = None\<rparr>),
      ro_wjail = (\<lambda>i. sample_jail_os (Suc i)),
      ro_copy = (\<lambda>_. \<lparr>io_err = (\<lambda>_ _. None), io_part = (\<lambda>_. []), io_umask = id\<rparr>)\<rparr>"

lemma sample_os_fields [simp]:
  "ro_jail sample_os = sample_jail_os 0" "ro_wjail sample_os i = sample_jail_os (Suc i)"
  "\<not> ro_ctx sample_os i"
  by (simp_all add: sample_os_def)

lemma sample_names: "names_apart sample_manager sample_os sample_world"
  by (auto simp: names_apart_def workers_apart_def other_names_def sample_fresh)
     (auto simp: sample_jail_os_def sample_dir_def sample_manager_def Active_def nat_str_inj)

lemma sample_run:
  "\<exists>res w' st'. ExecuteRun env numCPU sample_manager sample_os req lc (sample_world, st) res (w', st')"
  by (rule ExecuteRun_returns [OF sample_wf sample_names]) (simp_all add: sample_removals)

definition sample_tmpl :: jail where
  "sample_tmpl = \<lparr>jdirp = sample_dir 0, juid = 10003, jcg = None, jseccomp = [], jonce = False\<rparr>"

definition sample_spawned :: par_state where
  "sample_spawned =
     (par_init sample_req sample_world onces_init)\<lparr>pa_next := 1, pa_phase := (\<lambda>_. Idle)(0 := Started)\<rparr>"

lemma sample_spawn:
  "par_step env sample_manager sample_os sample_req sample_lang 2 sample_tmpl
     (par_init sample_req sample_world onces_init) sample_spawned"
  using par_step.spawn [of "par_init sample_req sample_world onces_init" sample_req sample_os 2 env
      sample_manager sample_lang sample_tmpl]
  by (simp add: sample_spawned_def par_init_def sample_req_def sample_os_def active_workers_def)

text \<open>Both tests of the sample request in their jails at the same time.\<close>

definition sample_worker :: "nat \<Rightarrow> jail" where
  "sample_worker i =
     \<lparr>jdirp = sample_dir (Suc i), juid = 10000 + int i, jcg = None, jseccomp = Seccomp sample_lang, jonce = False\<rparr>"

lemma sample_two_jails:
  "\<exists>s. (par_step env sample_manager sample_os sample_req sample_lang 2 sample_tmpl)\<^sup>*\<^sup>*
      (par_init sample_req sample_world onces_init) s \<and>
     live s 0 = Some (sample_worker 0) \<and> live s 1 = Some (sample_worker 1)"
proof -
  let ?step = "par_step env sample_manager sample_os sample_req sample_lang 2 sample_tmpl"
  let ?nm = "resolveSourceName sample_req sample_lang"
  let ?s2 = "sample_spawned\<lparr>pa_next := 2, pa_phase := (\<lambda>_. Idle)(0 := Started, 1 := Started)\<rparr>"
  have a: "active_workers sample_spawned = {0}" by (auto simp: active_workers_def sample_spawned_def)
  have s2: "?step sample_spawned ?s2"
    using par_step.spawn [of sample_spawned sample_req sample_os 2 env sample_manager sample_lang sample_tmpl] a
    by (simp add: sample_spawned_def par_init_def sample_req_def numeral_2_eq_2)
  obtain w1 nd where j1: "newJail sample_manager (sample_jail_os (Suc 0)) sample_req sample_lang ?nm sample_world =
      (Inr (sample_worker 0), w1)" and p1: "wPool w1 = snd (Alloc (wPool sample_world))"
    and d1: "wDirs w1 = (wDirs sample_world)(sample_dir (Suc 0) \<mapsto> nd)" and c1: "wCgs w1 = wCgs sample_world"
    using sample_newJail [OF sample_alloc(1), of "Suc 0" ?nm] by (auto simp: sample_worker_def)
  let ?s3 = "?s2\<lparr>pa_phase := (pa_phase ?s2)(0 := HasJail (sample_worker 0)), pa_world := w1\<rparr>"
  have w: "pa_world ?s2 = sample_world" by (simp add: sample_spawned_def par_init_def)
  have s3: "?step ?s2 ?s3"
    by (rule par_step.jail_made) (use j1 w sample_fresh in simp_all)
  obtain w2 where j2: "newJail sample_manager (sample_jail_os (Suc (Suc 0))) sample_req sample_lang ?nm w1 =
      (Inr (sample_worker 1), w2)"
    using sample_newJail [of w1 10001 "Suc (Suc 0)" ?nm] sample_alloc(2) p1 by (auto simp: sample_worker_def)
  have f: "fresh_names sample_manager (sample_jail_os (Suc (Suc 0))) w1"
    using d1 c1 sample_fresh [of sample_manager "Suc (Suc 0)"]
    by (auto simp: fresh_names_def sample_jail_os_def sample_dir_def nat_str_inj)
  let ?s4 = "?s3\<lparr>pa_phase := (pa_phase ?s3)(1 := HasJail (sample_worker 1)), pa_world := w2\<rparr>"
  have s4: "?step ?s3 ?s4"
    by (rule par_step.jail_made) (use j2 f in simp_all)
  have "?step\<^sup>*\<^sup>* (par_init sample_req sample_world onces_init) ?s4"
    using sample_spawn s2 s3 s4 by (meson rtranclp.rtrancl_into_rtrancl rtranclp.rtrancl_refl)
  moreover have "pa_phase ?s4 0 = HasJail (sample_worker 0)" "pa_phase ?s4 1 = HasJail (sample_worker 1)"
    by simp_all
  ultimately show ?thesis unfolding live_def by (metis jail_in.simps(1))
qed

section \<open>Verdicts\<close>

lemma stop_reason:
  assumes "(par_step env m os req lc eff tmpl)\<^sup>*\<^sup>* (par_init req w st) s"
  shows "pa_broken s \<longrightarrow> pa_next s < length (Tests req) \<longrightarrow> ro_ctx os (pa_next s)"
  using assms
proof (induction rule: rtranclp_induct)
  case base
  then show ?case by (simp add: par_init_def)
next
  case (step y z)
  from step.hyps(2) step.IH show ?case by (cases rule: par_step.cases) auto
qed

lemma sequential_all:
  assumes "\<And>i. \<not> ro_ctx os i"
  shows "length (fst (sequential_tests env os req lc j i tcs st)) = length tcs"
  using assms
  by (induction env os req lc j i tcs st rule: sequential_tests.induct) (auto split: prod.splits)

lemma prepare_run_early:
  "prepare_run env m os req lc w st = (Inl (b, rs, None), w', st') \<Longrightarrow> bStatus b \<noteq> BuildOk"
  by (auto simp: prepare_run_def Let_def split: prod.splits sum.splits if_splits)

lemma sample_prepared:
  "\<exists>tmpl w1. prepare_run (\<lambda>_. []) sample_manager sample_os sample_req sample_lang sample_world
     onces_init = (Inr (tmpl, ok_build), w1, onces_init)"
  using sample_newJail [OF sample_alloc(1), of 0 "resolveSourceName sample_req sample_lang"]
  by (auto simp: prepare_run_def) (simp add: sample_lang_def)

lemma sample_complete:
  "\<exists>rs w' st'. ExecuteRun (\<lambda>_. []) 4 sample_manager sample_os sample_req sample_lang
     (sample_world, onces_init) (ok_build, rs, None) (w', st')"
proof -
  obtain tmpl w1 where p: "prepare_run (\<lambda>_. []) sample_manager sample_os sample_req sample_lang sample_world
      onces_init = (Inr (tmpl, ok_build), w1, onces_init)"
    using sample_prepared by blast
  obtain res w' st' where r: "ExecuteRun (\<lambda>_. []) 4 sample_manager sample_os sample_req sample_lang
      (sample_world, onces_init) res (w', st')" using sample_run by blast
  then obtain rs where "res = (ok_build, rs, None)" using p by (cases rule: ExecuteRun.cases) auto
  with r show ?thesis by blast
qed

section \<open>Properties\<close>

text \<open>
  C5. Whatever way \<open>ExecuteRun\<close> ends (a failed jail, a failed or broken build, sequential or parallel
  tests in any interleaving, a cancelled context), the uids in use, the jail directories and the
  cgroups afterwards are those of before.
\<close>

theorem execute_run_releases:
  assumes "ExecuteRun env numCPU m os req lc (w, st) res (w', st')"
    and "pool_wf (wPool w)" and "fresh_names m (ro_jail os) w"
    and "removals_work (ro_jail os)" and "\<forall>i. removals_work (ro_wjail os i)"
  shows "inUse (wPool w') = inUse (wPool w) \<and> wDirs w' = wDirs w \<and> wCgs w' = wCgs w"
  using ExecuteRun_releases [OF assms(1-4)] assms(5) by (auto simp: same_resources_def)

theorem execute_run_releases_witness:
  "\<exists>res w' st'. ExecuteRun (\<lambda>_. []) 4 sample_manager sample_os sample_req sample_lang
       (sample_world, onces_init) res (w', st') \<and>
     inUse (wPool w') = inUse (wPool sample_world) \<and> wDirs w' = wDirs sample_world \<and>
     wCgs w' = wCgs sample_world"
proof -
  obtain res w' st' where r: "ExecuteRun (\<lambda>_. []) 4 sample_manager sample_os sample_req sample_lang
       (sample_world, onces_init) res (w', st')" using sample_run by blast
  have "inUse (wPool w') = inUse (wPool sample_world) \<and> wDirs w' = wDirs sample_world \<and>
      wCgs w' = wCgs sample_world"
    by (rule execute_run_releases [OF r sample_wf]) (simp_all add: sample_fresh sample_removals)
  with r show ?thesis by blast
qed

text \<open>
  C6. \<open>ExecuteRun\<close> always returns: on names that \<open>os.MkdirTemp\<close> keeps apart there is a complete run,
  and from every state that any interleaving of the goroutines reaches one can still get to the end.
\<close>

theorem execute_run_returns:
  assumes "pool_wf (wPool w)" and "names_apart m os w"
    and "removals_work (ro_jail os)" and "\<forall>i. removals_work (ro_wjail os i)"
  shows "(\<exists>res w' st'. ExecuteRun env numCPU m os req lc (w, st) res (w', st')) \<and>
    (\<forall>tmpl b w1 st1 s.
       prepare_run env m os req lc w st = (Inr (tmpl, b), w1, st1) \<longrightarrow>
       (par_step env m os req lc (effectiveParallel numCPU req) tmpl)\<^sup>*\<^sup>* (par_init req w1 st1) s \<longrightarrow>
       (\<exists>t. (par_step env m os req lc (effectiveParallel numCPU req) tmpl)\<^sup>*\<^sup>* s t \<and> par_done t))"
proof (intro conjI allI impI)
  show "\<exists>res w' st'. ExecuteRun env numCPU m os req lc (w, st) res (w', st')"
    using assms by (intro ExecuteRun_returns) auto
next
  fix tmpl b w1 st1 s
  assume p: "prepare_run env m os req lc w st = (Inr (tmpl, b), w1, st1)"
    and s: "(par_step env m os req lc (effectiveParallel numCPU req) tmpl)\<^sup>*\<^sup>* (par_init req w1 st1) s"
  have h: "holds_jail w tmpl w1"
    using prepare_run_spec [OF p assms(1) _ assms(3)] assms(2) by (simp add: names_apart_def)
  have "workers_apart m os w1" by (rule names_apart_template [OF assms(2) h prepare_run_named [OF p]])
  moreover have "0 < effectiveParallel numCPU req" using effectiveParallel_bounds(1) [of numCPU req] by simp
  ultimately show "\<exists>t. (par_step env m os req lc (effectiveParallel numCPU req) tmpl)\<^sup>*\<^sup>* s t \<and> par_done t"
    using par_run_ends [OF s holds_jail_wf [OF h]] assms(4) by blast
qed

theorem execute_run_returns_witness:
  "(\<exists>res w' st'. ExecuteRun (\<lambda>_. []) 4 sample_manager sample_os sample_req sample_lang
      (sample_world, onces_init) res (w', st')) \<and>
   (\<exists>tmpl w1 t.
      prepare_run (\<lambda>_. []) sample_manager sample_os sample_req sample_lang sample_world onces_init =
        (Inr (tmpl, ok_build), w1, onces_init) \<and>
      (par_step (\<lambda>_. []) sample_manager sample_os sample_req sample_lang
         (effectiveParallel 4 sample_req) tmpl)\<^sup>*\<^sup>* (par_init sample_req w1 onces_init) t \<and> par_done t)"
proof -
  note ret = execute_run_returns [OF sample_wf sample_names, of "\<lambda>_. []" 4 sample_req sample_lang onces_init]
  have rm: "removals_work (ro_jail sample_os)" "\<forall>i. removals_work (ro_wjail sample_os i)"
    by (simp_all add: sample_removals)
  obtain tmpl w1 where p: "prepare_run (\<lambda>_. []) sample_manager sample_os sample_req sample_lang sample_world
      onces_init = (Inr (tmpl, ok_build), w1, onces_init)"
    using sample_prepared by blast
  with ret [OF rm] show ?thesis by blast
qed





text \<open>
  A run whose build succeeded and whose context stays alive returns one result per test of the
  request, in the order of the tests, and every result carries a verdict.
\<close>

lemma ExecuteRun_verdicts:
  assumes "ExecuteRun env numCPU m os req lc (w, st) (b, rs, None) (w', st')"
    and "bStatus b = BuildOk" and "\<forall>i. \<not> ro_ctx os i"
    and "pool_wf (wPool w)" and "fresh_names m (ro_jail os) w"
    and "removals_work (ro_jail os)" and "\<forall>i. removals_work (ro_wjail os i)"
  shows "length rs = length (Tests req) \<and> (\<forall>r \<in> set rs. tStatus r \<noteq> ResultUnset)"
  using assms(1)
proof (cases rule: ExecuteRun.cases)
  case early
  then show ?thesis using prepare_run_early assms(2) by blast
next
  case (sequential tmpl w1 st1)
  then have "rs = fst (sequential_tests env os req lc tmpl 0 (Tests req) st1)" by simp
  then show ?thesis using sequential_all [of os] sequential_verdicts assms(3) by blast
next
  case (parallel tmpl w1 st1 s)
  have h: "holds_jail w tmpl w1" using prepare_run_spec [OF parallel(4) assms(4-6)] by simp
  have inv: "par_inv req (effectiveParallel numCPU req) w1 s"
    using par_inv_steps [OF parallel(6) par_inv_init] holds_jail_wf [OF h] parallel(5) assms(7) by simp
  have "pa_next s = length (Tests req)"
    using stop_reason [OF parallel(6)] parallel(7) assms(3) par_invD(3) [OF inv]
    by (auto simp: par_done_def)
  with par_all_verdicts [OF inv parallel(7)] par_invD(2) [OF inv] parallel(1) show ?thesis by simp
qed

end
