(* ===== verification/Shutdown.thy ===== *)
theory Shutdown
  imports Copytree
begin

text \<open>
  The shutdown path of \<^verbatim>\<open>main.go\<close>. The polling loop reads the in-flight count and the clock; both
  are functions of the round. It has fuel because nothing in the code bounds the clock;
  \<open>wait_returns\<close> shows that a clock which advances by the poll interval ends it.
\<close>

definition readShutdownTimeout :: "environ \<Rightarrow> int" where
  "readShutdownTimeout env = wrap64 (env_pos env ''GOBOXD_SHUTDOWN_TIMEOUT'' 10 * 1000000000)"

fun wait_loop :: "nat \<Rightarrow> int \<Rightarrow> (nat \<Rightarrow> int) \<Rightarrow> (nat \<Rightarrow> int) \<Rightarrow> nat \<Rightarrow> bool option" where
  "wait_loop 0 deadline inFlight clock k = None"
| "wait_loop (Suc n) deadline inFlight clock k =
     (if inFlight k > 0 then
        (if clock k > deadline then Some False else wait_loop n deadline inFlight clock (Suc k))
      else Some True)"

definition waitForDrainUntil :: "nat \<Rightarrow> int \<Rightarrow> (nat \<Rightarrow> int) \<Rightarrow> (nat \<Rightarrow> int) \<Rightarrow> bool option" where
  "waitForDrainUntil fuel deadline inFlight clock = wait_loop fuel deadline inFlight clock 0"

text \<open>A poll every 100 ms for at most five seconds: 52 rounds are always enough.\<close>

definition drain_fuel :: nat where
  "drain_fuel = 52"

definition poll_interval :: int where
  "poll_interval = 100000000"

definition waitForDrain :: "int \<Rightarrow> (nat \<Rightarrow> int) \<Rightarrow> (nat \<Rightarrow> int) \<Rightarrow> bool option" where
  "waitForDrain now inFlight clock =
     waitForDrainUntil drain_fuel (now + 5 * 1000000000) inFlight clock"

text \<open>
  After the signal: \<open>shutdown_err\<close> is the result of \<open>srv.Shutdown\<close>. Only a completed drain is followed
  by the sweep, at time \<open>later\<close> over the jail directories \<open>jails\<close> and the cgroups \<open>cgs\<close>. The result
  names the jail directories that are removed and gives the cgroups that stay.
\<close>

definition drain ::
  "string option \<Rightarrow> int \<Rightarrow> (nat \<Rightarrow> int) \<Rightarrow> (nat \<Rightarrow> int) \<Rightarrow> bool option" where
  "drain shutdown_err now inFlight clock =
     (case shutdown_err of
        None \<Rightarrow> Some True
      | Some e \<Rightarrow> waitForDrain now inFlight clock)"

definition drain_and_sweep ::
  "string option \<Rightarrow> int \<Rightarrow> (nat \<Rightarrow> int) \<Rightarrow> (nat \<Rightarrow> int) \<Rightarrow> int \<Rightarrow> listing option \<Rightarrow> bool \<Rightarrow>
   (string \<times> cgdir) list option \<Rightarrow> (string list \<times> (string \<times> cgdir) list option) option" where
  "drain_and_sweep shutdown_err now inFlight clock later jails pseudo cgs =
     (case drain shutdown_err now inFlight clock of
        None \<Rightarrow> None
      | Some drained \<Rightarrow>
          Some (if drained then (SweepAllJails later jails, Sweep pseudo cgs) else ([], cgs)))"

section \<open>Facts\<close>

lemma wait_loop_true:
  "wait_loop n dl inFlight clock k = Some True \<Longrightarrow> \<exists>i \<ge> k. inFlight i \<le> 0"
proof (induction n dl inFlight clock k rule: wait_loop.induct)
  case (2 n dl inFlight clock k)
  then show ?case by (cases "inFlight k > 0") (auto split: if_splits dest: Suc_leD)
qed simp

lemma wait_loop_false:
  "wait_loop n dl inFlight clock k = Some False \<Longrightarrow> \<exists>i \<ge> k. clock i > dl \<and> (\<forall>j. k \<le> j \<and> j \<le> i \<longrightarrow> inFlight j > 0)"
proof (induction n dl inFlight clock k rule: wait_loop.induct)
  case (2 n dl inFlight clock k)
  show ?case
  proof (cases "clock k > dl")
    case True
    with 2(2) show ?thesis by (intro exI [of _ k]) (auto split: if_splits)
  next
    case False
    with 2(2) have "inFlight k > 0" "wait_loop n dl inFlight clock (Suc k) = Some False"
      by (auto split: if_splits)
    with 2(1) False obtain i where "Suc k \<le> i" "clock i > dl" "\<forall>j. Suc k \<le> j \<and> j \<le> i \<longrightarrow> inFlight j > 0"
      by blast
    with \<open>inFlight k > 0\<close> show ?thesis
      by (intro exI [of _ i]) (metis Suc_leD le_antisym not_less_eq_eq)
  qed
qed simp

lemma wait_returns:
  assumes "\<And>i. clock i \<ge> t0 + int i * p" and "0 < p" and "dl - t0 < int (k + n) * p" and "0 < n"
  shows "\<exists>b. wait_loop (Suc n) dl inFlight clock k = Some b"
  using assms(3,4)
proof (induction n arbitrary: k)
  case (Suc n)
  show ?case
  proof (cases "n = 0")
    case True
    have "clock (Suc k) > dl" using Suc.prems True assms(1) [of "Suc k"] by simp
    with True show ?thesis by auto
  next
    case False
    then have "\<exists>b. wait_loop (Suc n) dl inFlight clock (Suc k) = Some b"
      using Suc.prems by (intro Suc.IH) auto
    then show ?thesis by (subst wait_loop.simps) auto
  qed
qed simp

section \<open>Properties\<close>

text \<open>
  C36. Waiting for the drain ends: with polls at least 100 ms apart \<open>waitForDrain\<close> returns within its
  52 rounds; it reports success only after a poll saw no run in flight, and failure only after the
  deadline passed with every poll up to then seeing one. After a failed wait the shutdown removes no
  jail directory and no cgroup.
\<close>

theorem drain_wait_bounded:
  assumes "\<forall>i. clock i \<ge> now + int i * poll_interval"
  shows "\<exists>b. waitForDrain now inFlight clock = Some b \<and>
    (b \<longrightarrow> (\<exists>i. inFlight i \<le> 0)) \<and>
    (\<not> b \<longrightarrow> (\<exists>i. clock i > now + 5 * 1000000000 \<and> (\<forall>j \<le> i. inFlight j > 0)) \<and>
       drain_and_sweep (Some e) now inFlight clock later jails pseudo cgs = Some ([], cgs))"
proof -
  let ?dl = "now + 5 * 1000000000"
  have "\<exists>b. wait_loop (Suc 51) ?dl inFlight clock 0 = Some b"
    by (rule wait_returns [of now poll_interval]) (use assms in \<open>simp_all add: poll_interval_def\<close>)
  then obtain b where b: "wait_loop (Suc 51) ?dl inFlight clock 0 = Some b" by blast
  have "drain_fuel = Suc 51" by (simp add: drain_fuel_def)
  then have w: "waitForDrain now inFlight clock = Some b"
    using b by (simp add: waitForDrain_def waitForDrainUntil_def)
  show ?thesis
    using w b wait_loop_true [of "Suc 51" ?dl inFlight clock 0] wait_loop_false [of "Suc 51" ?dl inFlight clock 0]
    by (cases b) (auto simp: drain_and_sweep_def drain_def)
qed

theorem drain_wait_bounded_witness:
  "\<exists>b i. waitForDrain 0 (\<lambda>_. 1) (\<lambda>i. int i * poll_interval) = Some b \<and> \<not> b \<and>
     int i * poll_interval > 5 * 1000000000 \<and>
     drain_and_sweep (Some ''context deadline exceeded'') 0 (\<lambda>_. 1) (\<lambda>i. int i * poll_interval) 6000000000
       (Some [(''goboxd-jail-1'', Some 0)]) True None = Some ([], None)"
  using drain_wait_bounded [of 0 "\<lambda>i. int i * poll_interval" "\<lambda>_. 1" "''context deadline exceeded''" 6000000000
      "Some [(''goboxd-jail-1'', Some 0)]" True None] by force

end
