(* ===== verification/Metrics.thy ===== *)
theory Metrics
  imports Prelude
begin

text \<open>
  The counters of \<^verbatim>\<open>internal/api/metrics.go\<close>. A Go map of counters reads zero at a missing key, so
  the per-status and per-bucket counts are total functions. Each counter is updated atomically;
  \<open>recordRun\<close> is their composition.
\<close>

record Metrics =
  mInFlight :: int
  mQueued :: int
  TotalRuns :: int
  Errors :: int
  Statuses :: "string \<Rightarrow> int"
  Latency :: "string \<Rightarrow> int"

definition new_metrics :: Metrics where
  "new_metrics =
     \<lparr>mInFlight = 0, mQueued = 0, TotalRuns = 0, Errors = 0, Statuses = (\<lambda>_. 0), Latency = (\<lambda>_. 0)\<rparr>"

definition latencyBucketsMs :: "int list" where
  "latencyBucketsMs = [50, 100, 250, 500, 1000, 2000, 5000]"

text \<open>\<open>itoa\<close>: the loop peels decimal digits off a positive number.\<close>

function itoa_loop :: "int \<Rightarrow> string \<Rightarrow> string" where
  "itoa_loop n buf =
     (if n > 0 then itoa_loop (go_div n 10) (char_of (nat (48 + go_rem n 10)) # buf) else buf)"
  by pat_completeness auto
termination
proof (relation "measure (\<lambda>(n, buf). nat n)", simp)
  fix n :: int and buf :: string
  assume "n > 0"
  then have "go_div n 10 < n" by (simp add: go_simps)
  then show "((go_div n 10, char_of (nat (48 + go_rem n 10)) # buf), (n, buf))
      \<in> measure (\<lambda>(n, buf). nat n)"
    using \<open>n > 0\<close> by simp
qed

declare itoa_loop.simps [simp del]

definition itoa :: "int \<Rightarrow> string" where
  "itoa n =
     (if n = 0 then ''0''
      else (let neg = n < 0; m = (if neg then wrap64 (- n) else n); buf = itoa_loop m []
            in if neg then CHR ''-'' # buf else buf))"

fun find_bucket :: "int \<Rightarrow> int list \<Rightarrow> string" where
  "find_bucket ms [] = ''5000+''"
| "find_bucket ms (b # bs) = (if ms \<le> b then ''<='' @ itoa b else find_bucket ms bs)"

definition recordRun :: "string \<Rightarrow> int \<Rightarrow> bool \<Rightarrow> Metrics \<Rightarrow> Metrics" where
  "recordRun status ms isError m =
     (let m1 = m\<lparr>TotalRuns := TotalRuns m + 1\<rparr>;
          m2 = (if isError then m1\<lparr>Errors := Errors m1 + 1\<rparr> else m1);
          m3 = m2\<lparr>Statuses := (Statuses m2)(status := Statuses m2 status + 1)\<rparr>;
          bucket = find_bucket ms latencyBucketsMs
      in m3\<lparr>Latency := (Latency m3)(bucket := Latency m3 bucket + 1)\<rparr>)"

text \<open>The JSON object of \<open>Snapshot\<close>, less the uptime: what \<open>/metrics\<close> serves.\<close>

record snapshot =
  in_flight :: int
  queue_depth :: int
  total_runs :: int
  error_count :: int
  status_counts :: "string \<Rightarrow> int"
  latency_histogram_ms :: "string \<Rightarrow> int"

definition Snapshot :: "Metrics \<Rightarrow> snapshot" where
  "Snapshot m =
     \<lparr>in_flight = mInFlight m, queue_depth = mQueued m, total_runs = TotalRuns m,
      error_count = Errors m, status_counts = Statuses m, latency_histogram_ms = Latency m\<rparr>"

section \<open>The decimal printer\<close>

lemma itoa_loop_nat_str: "0 < n \<Longrightarrow> itoa_loop n buf = nat_str (nat n) @ buf"
proof (induction n buf rule: itoa_loop.induct)
  case (1 n buf)
  let ?c = "char_of (nat (48 + go_rem n 10)) :: char"
  have c: "?c = digit_char (nat n mod 10)"
    using "1.prems" by (simp add: go_simps digit_char_def nat_add_distrib nat_mod_distrib)
  have step: "itoa_loop n buf = itoa_loop (n div 10) (?c # buf)"
    using "1.prems" by (subst itoa_loop.simps) (simp add: go_simps)
  show ?case
  proof (cases "n < 10")
    case True
    then have "itoa_loop (n div 10) (?c # buf) = ?c # buf"
      using "1.prems" by (simp add: itoa_loop.simps)
    with step c True "1.prems" show ?thesis by (subst nat_str.simps) simp
  next
    case False
    then have "itoa_loop (n div 10) (?c # buf) = nat_str (nat (n div 10)) @ ?c # buf"
      using "1.IH" "1.prems" by (simp add: go_simps)
    with step c False show ?thesis
      by (subst nat_str.simps) (simp add: nat_div_distrib)
  qed
qed

text \<open>
  The hand-written printer agrees with \<open>strconv.Itoa\<close> everywhere but at the least integer, whose
  negation wraps to itself.
\<close>

lemma itoa_Itoa:
  assumes "in_int64 n" and "n \<noteq> min_int"
  shows "itoa n = Itoa n"
proof -
  consider "n = 0" | "n > 0" | "n < 0" by linarith
  then show ?thesis
  proof cases
    case 1
    have "nat_str 0 = ''0''" by code_simp
    with 1 show ?thesis by (simp add: itoa_def Itoa_def)
  next
    case 2
    then show ?thesis by (simp add: itoa_def Itoa_def itoa_loop_nat_str Let_def)
  next
    case 3
    with assms have "wrap64 (- n) = - n" by (intro wrap64_id) (simp add: in_int64_def)
    with 3 show ?thesis by (simp add: itoa_def Itoa_def itoa_loop_nat_str Let_def)
  qed
qed

section \<open>Counting\<close>

definition bucket_labels :: "string list" where
  "bucket_labels =
     [''<=50'', ''<=100'', ''<=250'', ''<=500'', ''<=1000'', ''<=2000'', ''<=5000'', ''5000+'']"

lemma find_bucket_labels:
  "find_bucket ms latencyBucketsMs =
     (if ms \<le> 50 then ''<=50'' else if ms \<le> 100 then ''<=100'' else if ms \<le> 250 then ''<=250''
      else if ms \<le> 500 then ''<=500'' else if ms \<le> 1000 then ''<=1000''
      else if ms \<le> 2000 then ''<=2000'' else if ms \<le> 5000 then ''<=5000'' else ''5000+'')"
proof -
  have "itoa 50 = ''50''" "itoa 100 = ''100''" "itoa 250 = ''250''" "itoa 500 = ''500''"
    "itoa 1000 = ''1000''" "itoa 2000 = ''2000''" "itoa 5000 = ''5000''"
    by code_simp+
  then show ?thesis by (simp add: latencyBucketsMs_def)
qed

lemma recordRun_simps [simp]:
  "TotalRuns (recordRun st ms e m) = TotalRuns m + 1"
  "Errors (recordRun st ms e m) = Errors m + (if e then 1 else 0)"
  "mInFlight (recordRun st ms e m) = mInFlight m"
  "mQueued (recordRun st ms e m) = mQueued m"
  "Statuses (recordRun st ms e m) = (Statuses m)(st := Statuses m st + 1)"
  "Latency (recordRun st ms e m) =
     (Latency m)(find_bucket ms latencyBucketsMs := Latency m (find_bucket ms latencyBucketsMs) + 1)"
  by (simp_all add: recordRun_def Let_def)

text \<open>A consistent set of counters: every recorded run is in one status and in one bucket.\<close>

definition metrics_wf :: "Metrics \<Rightarrow> bool" where
  "metrics_wf m \<longleftrightarrow>
     0 \<le> Errors m \<and> Errors m \<le> TotalRuns m \<and>
     finite {s. Statuses m s \<noteq> 0} \<and> (\<forall>s. 0 \<le> Statuses m s) \<and>
     (\<Sum>s | Statuses m s \<noteq> 0. Statuses m s) = TotalRuns m \<and>
     (\<Sum>b \<leftarrow> bucket_labels. Latency m b) = TotalRuns m"

lemma sum_support_upd:
  fixes f :: "'a \<Rightarrow> int"
  assumes "finite {s. f s \<noteq> 0}" and "\<forall>s. 0 \<le> f s"
  shows "finite {s. (f(k := f k + 1)) s \<noteq> 0}"
    and "(\<Sum>s | (f(k := f k + 1)) s \<noteq> 0. (f(k := f k + 1)) s) = (\<Sum>s | f s \<noteq> 0. f s) + 1"
proof -
  let ?S = "{s. f s \<noteq> 0}" and ?g = "f(k := f k + 1)"
  have k: "f k + 1 \<noteq> 0" using assms(2) [rule_format, of k] by linarith
  then have S: "{s. ?g s \<noteq> 0} = insert k ?S" by auto
  with assms(1) show "finite {s. ?g s \<noteq> 0}" by simp
  have "(\<Sum>s \<in> insert k ?S. ?g s) = f k + 1 + (\<Sum>s \<in> ?S - {k}. ?g s)"
    using assms(1) by (simp add: sum.insert_remove)
  moreover have "(\<Sum>s \<in> ?S - {k}. ?g s) = (\<Sum>s \<in> ?S - {k}. f s)"
    by (rule sum.cong) auto
  moreover have "f k + (\<Sum>s \<in> ?S - {k}. f s) = (\<Sum>s \<in> ?S. f s)"
    using assms(1) by (cases "k \<in> ?S") (simp_all add: sum.remove)
  ultimately show "(\<Sum>s | ?g s \<noteq> 0. ?g s) = (\<Sum>s | f s \<noteq> 0. f s) + 1"
    unfolding S by linarith
qed

lemma recordRun_latency:
  "(\<Sum>b \<leftarrow> bucket_labels. Latency (recordRun st ms e m) b) = (\<Sum>b \<leftarrow> bucket_labels. Latency m b) + 1"
  by (simp add: bucket_labels_def find_bucket_labels)

lemma recordRun_wf: "metrics_wf m \<Longrightarrow> metrics_wf (recordRun st ms e m)"
  using sum_support_upd [of "Statuses m" st] recordRun_latency [of st ms e m]
  by (auto simp: metrics_wf_def)

lemma new_metrics_wf: "metrics_wf new_metrics"
  by (simp add: metrics_wf_def new_metrics_def bucket_labels_def)

end
