(* ===== verification/Handlers.thy ===== *)
theory Handlers
  imports Samples Metrics Admission
begin

text \<open>
  The \<open>POST /run\<close> handler of \<^verbatim>\<open>internal/api/handlers.go\<close>: validation, admission, execution and
  the response with its metrics. Validation errors are values of type \<open>ErrorDetail\<close>; every early
  return of the handler is a branch of \<open>validate_request\<close>, in the order of the code.

  What the handler learns from outside is an argument: the decoded body (\<open>Inl\<close> carries the
  decoder's error text), the environment, the registry snapshot, and the record \<open>run_world\<close>: the
  result of \<open>gate.acquire\<close>, whether the client's context is dead at the two points where the code
  asks, the result of \<open>runner.ExecuteRun\<close>, and the clock.
\<close>

section \<open>Validation\<close>

definition maxRequestBytes :: int where
  "maxRequestBytes = 262144"

definition maxTests :: nat where
  "maxTests = 50"

definition maxFieldBytes :: nat where
  "maxFieldBytes = 65536"

definition isValidFilename :: "string \<Rightarrow> bool" where
  "isValidFilename name =
     (if name = [] then True
      else if length name > 64 then False
      else if contains_any name [CHR ''/'', CHR 0x5C] \<or> has_prefix name ''.'' \<or>
              str_contains name ''..'' then False
      else True)"

definition flag_matches :: "string \<Rightarrow> string \<Rightarrow> bool" where
  "flag_matches flag pattern =
     (if has_suffix pattern ''*'' then has_prefix flag (trim_suffix pattern ''*'')
      else flag = pattern)"

fun validateFlags :: "string list \<Rightarrow> string list \<Rightarrow> bool \<times> string" where
  "validateFlags flags [] = (True, '''')"
| "validateFlags [] allowlist = (True, '''')"
| "validateFlags (flag # flags) allowlist =
     (if list_ex (flag_matches flag) allowlist then validateFlags flags allowlist
      else (False, flag))"

definition mkErr :: "string \<Rightarrow> string \<Rightarrow> ErrorDetail" where
  "mkErr c m = \<lparr>Code = c, Message = m\<rparr>"

definition ceilingAt :: "int \<Rightarrow> int \<Rightarrow> int" where
  "ceilingAt fieldCeiling fieldMax = (if fieldCeiling = 0 then fieldMax else fieldCeiling)"

text \<open>The closure \<open>check\<close> of \<open>validateStageLimits\<close>; \<open>None\<close> is success.\<close>

definition check_limit :: "string \<Rightarrow> string \<Rightarrow> int \<Rightarrow> int \<Rightarrow> int \<Rightarrow> ErrorDetail option" where
  "check_limit stageName field value maximum fieldCeiling =
     (if value \<le> 0 then
        Some (mkErr ''invalid_limit'' (stageName @ ''.limits.'' @ field @ '' must be positive''))
      else if value > ceilingAt fieldCeiling maximum then
        Some (mkErr ''limit_exceeded''
          (stageName @ ''.limits.'' @ field @ '' of '' @ Itoa value @ '' exceeds ceiling of '' @
           Itoa (ceilingAt fieldCeiling maximum)))
      else None)"

definition check_cpu :: "string \<Rightarrow> int \<Rightarrow> int \<Rightarrow> int \<Rightarrow> ErrorDetail option" where
  "check_cpu stageName value maximum fieldCeiling =
     (if value \<le> 0 then
        Some (mkErr ''invalid_limit'' (stageName @ ''.limits.cpu_time_s must be positive''))
      else if maximum = 0 then
        Some (mkErr ''invalid_limit''
          (stageName @ ''.limits.cpu_time_s is not allowed: this language has no cpu limit configured''))
      else if value > ceilingAt fieldCeiling maximum then
        Some (mkErr ''limit_exceeded''
          (stageName @ ''.limits.cpu_time_s of '' @ Itoa value @ '' exceeds ceiling of '' @
           Itoa (ceilingAt fieldCeiling maximum)))
      else None)"

definition opt_check :: "int option \<Rightarrow> (int \<Rightarrow> ErrorDetail option) \<Rightarrow> ErrorDetail option" where
  "opt_check v f = (case v of None \<Rightarrow> None | Some x \<Rightarrow> f x)"

fun first_err :: "ErrorDetail option list \<Rightarrow> ErrorDetail option" where
  "first_err [] = None"
| "first_err (None # es) = first_err es"
| "first_err (Some e # es) = Some e"

definition validateStageLimits ::
  "StageConfig option \<Rightarrow> Limits \<Rightarrow> Limits \<Rightarrow> bool \<Rightarrow> string \<Rightarrow> ErrorDetail option" where
  "validateStageLimits stage mx ceiling hasBuild stageName =
     (case Option.bind stage sLimits of None \<Rightarrow> None
      | Some l \<Rightarrow>
          if \<not> hasBuild then
            Some (mkErr ''invalid_limit''
              (stageName @ ''.limits are not allowed: this language has no '' @ stageName @ '' stage''))
          else first_err
            [opt_check (mWallTimeS l)
               (\<lambda>v. check_limit stageName ''wall_time_s'' v (WallTimeS mx) (WallTimeS ceiling)),
             opt_check (mMemoryKB l)
               (\<lambda>v. check_limit stageName ''memory_kb'' v (MemoryKB mx) (MemoryKB ceiling)),
             opt_check (mMaxProcesses l)
               (\<lambda>v. check_limit stageName ''max_processes'' v (MaxProcesses mx) (MaxProcesses ceiling)),
             opt_check (mCpuTimeS l)
               (\<lambda>v. check_cpu stageName v (CpuTimeS mx) (CpuTimeS ceiling))])"

fun check_fields :: "nat \<Rightarrow> TestCase list \<Rightarrow> ErrorDetail option" where
  "check_fields i [] = None"
| "check_fields i (tc # tcs) =
     (if length (Stdin tc) > maxFieldBytes then
        Some (mkErr ''test_too_large''
          (''tests['' @ nat_str i @ ''].stdin exceeds '' @ nat_str maxFieldBytes @ '' bytes''))
      else if length (ExpectedStdout tc) > maxFieldBytes then
        Some (mkErr ''test_too_large''
          (''tests['' @ nat_str i @ ''].expected_stdout exceeds '' @ nat_str maxFieldBytes @ '' bytes''))
      else check_fields (Suc i) tcs)"

definition stage_flags :: "StageConfig option \<Rightarrow> string list" where
  "stage_flags st = (case st of None \<Rightarrow> [] | Some s \<Rightarrow> sFlags s)"

definition check_flags :: "string \<Rightarrow> StageConfig option \<Rightarrow> string list \<Rightarrow> ErrorDetail option" where
  "check_flags stageName st allowlist =
     (case validateFlags (stage_flags st) allowlist of
        (True, _) \<Rightarrow> None
      | (False, bad) \<Rightarrow>
          Some (mkErr ''invalid_flags'' (''disallowed '' @ stageName @ '' flag: '' @ bad)))"

definition output_ceiling :: "environ \<Rightarrow> int" where
  "output_ceiling env = env_pos env ''GOBOXD_MAX_OUTPUT_BYTES'' 1048576"

definition check_output :: "environ \<Rightarrow> int option \<Rightarrow> ErrorDetail option" where
  "check_output env cap =
     (case cap of None \<Rightarrow> None
      | Some v \<Rightarrow>
          if v > 0 \<and> v > output_ceiling env then
            Some (mkErr ''limit_exceeded''
              (''max_output_bytes of '' @ Itoa v @ '' exceeds ceiling of '' @ Itoa (output_ceiling env)))
          else None)"

text \<open>The checks before the registry lookup, in the order of the handler.\<close>

definition basic_checks :: "RunRequest \<Rightarrow> ErrorDetail option" where
  "basic_checks req =
     (if Language req = [] then Some (mkErr ''missing_language'' ''language field is required'')
      else if Source req = [] then Some (mkErr ''missing_source'' ''source field is required'')
      else if Tests req = [] then Some (mkErr ''missing_tests'' ''at least one test is required'')
      else if length (Tests req) > maxTests then
        Some (mkErr ''too_many_tests'' (''test count exceeds maximum of '' @ nat_str maxTests))
      else first_err
        [opt_check (MaxParallel req)
           (\<lambda>v. if v > 0 \<and> v > int maxTests then
                  Some (mkErr ''invalid_max_parallel''
                    (''max_parallel of '' @ Itoa v @ '' exceeds maximum of '' @ nat_str maxTests))
                else None),
         check_fields 0 (Tests req),
         (if \<not> isValidFilename (SourceFilename req) \<or> \<not> isValidFilename (ArtifactFilename req) then
            Some (mkErr ''invalid_filename''
              ''filename must be a single path component without traversal characters'')
          else None)])"

definition language_checks :: "environ \<Rightarrow> RunRequest \<Rightarrow> LanguageConfig \<Rightarrow> ErrorDetail option" where
  "language_checks env req lc =
     first_err
       [validateStageLimits (rBuild req) (BuildLimits lc) (BuildCeiling lc) (BuildCmd lc \<noteq> []) ''build'',
        validateStageLimits (rRun req) (RunLimits lc) (RunCeiling lc) True ''run'',
        check_flags ''build'' (rBuild req) (FlagAllowlist lc),
        check_flags ''run'' (rRun req) (FlagAllowlist lc),
        check_output env (MaxOutputBytes req)]"

definition validate_request ::
  "environ \<Rightarrow> registry \<Rightarrow> RunRequest go_result \<Rightarrow> ErrorDetail + RunRequest \<times> LanguageConfig" where
  "validate_request env reg dec =
     (case dec of
        Inl err \<Rightarrow>
          Inl (mkErr ''invalid_request''
            (if err = ''http: request body too large'' then ''request payload exceeds 256 KiB limit''
             else ''invalid json payload''))
      | Inr req \<Rightarrow>
          (case basic_checks req of Some e \<Rightarrow> Inl e
           | None \<Rightarrow>
               (case reg (Language req) of
                  None \<Rightarrow>
                    Inl (mkErr ''unknown_language''
                      (''language '' @ [squote] @ Language req @ [squote] @ '' is not in the registry''))
                | Some lc \<Rightarrow>
                    (case language_checks env req lc of Some e \<Rightarrow> Inl e | None \<Rightarrow> Inr (req, lc)))))"

section \<open>Top-level status\<close>

fun first_bad :: "TestResult list \<Rightarrow> ResultStatus" where
  "first_bad [] = ResultAccepted"
| "first_bad (t # ts) =
     (if tStatus t \<noteq> ResultAccepted then
        (if \<not> ResultStatus_Valid (tStatus t) then ResultNotExecuted else tStatus t)
      else first_bad ts)"

definition computeTopLevelStatus :: "BuildResult \<Rightarrow> TestResult list \<Rightarrow> ResultStatus" where
  "computeTopLevelStatus build tests =
     (if bStatus build = BuildInternalError then ResultInternalError
      else if \<not> BuildStatus_Valid (bStatus build) then ResultBuildFailed
      else if bStatus build \<noteq> BuildOk then ResultBuildFailed
      else if list_ex (\<lambda>t. tStatus t = ResultInternalError) tests then ResultInternalError
      else first_bad tests)"

section \<open>Responses\<close>

datatype body = ErrBody ErrorDetail | RunBody RunResponse | TextBody string

datatype response = NoResponse | Response int "(string \<times> string) list" body

definition json_ct :: "string \<times> string" where
  "json_ct = (''Content-Type'', ''application/json'')"

definition writeErrorStatus ::
  "(string \<times> string) list \<Rightarrow> int \<Rightarrow> string \<Rightarrow> string \<Rightarrow> response" where
  "writeErrorStatus hdrs status c m = Response status (hdrs @ [json_ct]) (ErrBody (mkErr c m))"

definition writeError :: "ErrorDetail \<Rightarrow> response" where
  "writeError e = writeErrorStatus [] 400 (Code e) (Message e)"

definition writeInternalError :: "string \<Rightarrow> response" where
  "writeInternalError m = Response 500 [json_ct] (ErrBody (mkErr ''internal_error'' m))"

section \<open>The handler\<close>

record server =
  smetrics :: Metrics
  lastInternalErr :: "int option"

record run_world =
  acq :: "acquire_err option"
  ctx_dead_acq :: bool
  execute_run :: "RunRequest \<Rightarrow> LanguageConfig \<Rightarrow> BuildResult \<times> TestResult list \<times> string option"
  ctx_dead_run :: bool
  elapsed_ms :: int
  now :: int

definition classifyAcquireErr :: "bool \<Rightarrow> acquire_err \<Rightarrow> string \<times> bool" where
  "classifyAcquireErr ctx_dead err =
     (if \<not> ctx_dead \<and> err = errShuttingDown then (''shutting_down'', True)
      else (rs_string ResultCancelled, False))"

definition record_run :: "run_world \<Rightarrow> string \<Rightarrow> bool \<Rightarrow> server \<Rightarrow> server" where
  "record_run w st isError s = s\<lparr>smetrics := recordRun st (elapsed_ms w) isError (smetrics s)\<rparr>"

definition not_executed :: "nat \<Rightarrow> TestResult list \<Rightarrow> TestResult list" where
  "not_executed n tests =
     map (\<lambda>t. t\<lparr>tStatus := ResultNotExecuted\<rparr>)
       (if tests = [] then replicate n zero_TestResult else tests)"

text \<open>The handler from \<open>runner.ExecuteRun\<close> on; the in-flight gauge is handled by its caller.\<close>

definition run_admitted ::
  "run_world \<Rightarrow> RunRequest \<Rightarrow> LanguageConfig \<Rightarrow> server \<Rightarrow> response \<times> server" where
  "run_admitted w req lc s =
     (case execute_run w req lc of (buildRes, testsRes, err) \<Rightarrow>
        if ctx_dead_run w then
          (if err \<noteq> None then
             (NoResponse,
              record_run w (rs_string ResultCancelled) True (s\<lparr>lastInternalErr := Some (now w)\<rparr>))
           else (NoResponse, record_run w (rs_string ResultCancelled) False s))
        else if err \<noteq> None then
          (if bStatus buildRes = BuildInternalError then
             (Response 200
                [json_ct, (''X-Run-Status'', rs_string ResultInternalError)]
                (RunBody \<lparr>respStatus = rs_string ResultInternalError, respBuild = buildRes,
                          respTests = []\<rparr>),
              record_run w (rs_string ResultInternalError) True s)
           else
             (writeInternalError ''sandbox execution failed'',
              record_run w (rs_string ResultInternalError) True (s\<lparr>lastInternalErr := Some (now w)\<rparr>)))
        else
          (let top = computeTopLevelStatus buildRes testsRes;
               tests = (if top = ResultBuildFailed \<or> top = ResultInternalError
                        then not_executed (length (Tests req)) testsRes else testsRes)
           in (Response 200 [json_ct, (''X-Run-Status'', rs_string top)]
                 (RunBody \<lparr>respStatus = rs_string top, respBuild = buildRes, respTests = tests\<rparr>),
               record_run w (rs_string top) (top = ResultInternalError) s)))"

definition add_inflight :: "int \<Rightarrow> server \<Rightarrow> server" where
  "add_inflight d s = s\<lparr>smetrics := (smetrics s)\<lparr>mInFlight := mInFlight (smetrics s) + d\<rparr>\<rparr>"

definition HandleRun ::
  "environ \<Rightarrow> registry \<Rightarrow> RunRequest go_result \<Rightarrow> run_world \<Rightarrow> server \<Rightarrow> response \<times> server" where
  "HandleRun env reg dec w s =
     (case validate_request env reg dec of
        Inl e \<Rightarrow> (writeError e, s)
      | Inr (req, lc) \<Rightarrow>
          (case acq w of
             Some err \<Rightarrow>
               if err = errQueueFull then
                 (writeErrorStatus [(''Retry-After'', ''1''), (''X-Run-Status'', ''queue_full'')] 503
                    ''queue_full'' ''server is at capacity: too many jobs queued, retry shortly'',
                  record_run w ''queue_full'' True s)
               else
                 (case classifyAcquireErr (ctx_dead_acq w) err of (status, isError) \<Rightarrow>
                    (if isError then
                       writeErrorStatus [(''Retry-After'', ''1''), (''X-Run-Status'', ''shutting_down'')]
                         503 ''shutting_down'' ''server is shutting down: retry shortly''
                     else NoResponse,
                     record_run w status isError s))
           | None \<Rightarrow>
               (case run_admitted w req lc (add_inflight 1 s) of (resp, s') \<Rightarrow>
                  (resp, add_inflight (- 1) s'))))"

section \<open>Facts\<close>

lemma first_err_None: "first_err es = None \<longleftrightarrow> (\<forall>e \<in> set es. e = None)"
  by (induction es rule: first_err.induct) auto

lemma opt_check_None: "opt_check v f = None \<longleftrightarrow> (\<forall>x. v = Some x \<longrightarrow> f x = None)"
  by (simp add: opt_check_def split: option.splits)

lemma check_limit_None:
  "check_limit st fl v mx c = None \<longleftrightarrow> 0 < v \<and> v \<le> ceilingAt c mx"
  by (auto simp: check_limit_def)

lemma check_cpu_None:
  "check_cpu st v mx c = None \<longleftrightarrow> 0 < v \<and> mx \<noteq> 0 \<and> v \<le> ceilingAt c mx"
  by (auto simp: check_cpu_def)

lemmas check_None = first_err_None opt_check_None check_limit_None check_cpu_None

text \<open>What an accepted stage limit record guarantees.\<close>

definition limits_within :: "mLimits \<Rightarrow> Limits \<Rightarrow> Limits \<Rightarrow> bool" where
  "limits_within l mx c \<longleftrightarrow>
     (\<forall>v. mWallTimeS l = Some v \<longrightarrow> 0 < v \<and> v \<le> ceilingAt (WallTimeS c) (WallTimeS mx)) \<and>
     (\<forall>v. mMemoryKB l = Some v \<longrightarrow> 0 < v \<and> v \<le> ceilingAt (MemoryKB c) (MemoryKB mx)) \<and>
     (\<forall>v. mMaxProcesses l = Some v \<longrightarrow> 0 < v \<and> v \<le> ceilingAt (MaxProcesses c) (MaxProcesses mx)) \<and>
     (\<forall>v. mCpuTimeS l = Some v \<longrightarrow>
        0 < v \<and> CpuTimeS mx \<noteq> 0 \<and> v \<le> ceilingAt (CpuTimeS c) (CpuTimeS mx))"

lemma validateStageLimits_None:
  "validateStageLimits st mx c hb name = None \<longleftrightarrow>
     (\<forall>s l. st = Some s \<longrightarrow> sLimits s = Some l \<longrightarrow> hb \<and> limits_within l mx c)"
  by (cases st) (auto simp: validateStageLimits_def check_None limits_within_def split: option.splits)

lemma check_fields_None:
  "check_fields i tcs = None \<longleftrightarrow>
     (\<forall>tc \<in> set tcs. length (Stdin tc) \<le> maxFieldBytes \<and> length (ExpectedStdout tc) \<le> maxFieldBytes)"
  by (induction i tcs rule: check_fields.induct) auto

lemma validateFlags_ok:
  "fst (validateFlags flags allow) \<longleftrightarrow>
     allow = [] \<or> (\<forall>f \<in> set flags. \<exists>p \<in> set allow. flag_matches f p)"
  by (induction flags allow rule: validateFlags.induct) (auto simp: list_ex_iff)

lemma validateFlags_bad:
  "validateFlags flags allow = (False, bad) \<Longrightarrow>
     bad \<in> set flags \<and> (\<forall>p \<in> set allow. \<not> flag_matches bad p)"
  by (induction flags allow rule: validateFlags.induct) (auto simp: list_ex_iff split: if_splits)

lemma check_flags_None:
  "check_flags nm st allow = None \<longleftrightarrow>
     allow = [] \<or> (\<forall>f \<in> set (stage_flags st). \<exists>p \<in> set allow. flag_matches f p)"
  using validateFlags_ok [of "stage_flags st" allow]
  by (auto simp: check_flags_def split: prod.splits bool.splits)

lemma flag_matches_iff:
  "flag_matches f p \<longleftrightarrow> (\<exists>q. p = q @ ''*'' \<and> prefix q f) \<or> (\<not> suffix ''*'' p \<and> f = p)"
  by (auto simp: flag_matches_def go_simps suffix_def)

lemma isValidFilename_plain:
  assumes "isValidFilename n" and "n \<noteq> []"
  shows "plain_name n"
  using assms by (auto simp: isValidFilename_def plain_name_def go_simps split: if_splits)

lemma first_bad_accepted: "first_bad ts = ResultAccepted \<longleftrightarrow> (\<forall>t \<in> set ts. tStatus t = ResultAccepted)"
  by (induction ts) auto

lemma first_bad_valid: "first_bad ts \<noteq> ResultUnset"
  by (induction ts) auto

lemma record_run_metrics [simp]:
  "smetrics (record_run w st e s) = recordRun st (elapsed_ms w) e (smetrics s)"
  by (simp add: record_run_def)

lemma add_inflight_metrics [simp]:
  "smetrics (add_inflight d s) = (smetrics s)\<lparr>mInFlight := mInFlight (smetrics s) + d\<rparr>"
  by (simp add: add_inflight_def)

lemma metrics_wf_inflight [simp]: "metrics_wf (m\<lparr>mInFlight := k\<rparr>) = metrics_wf m"
  by (simp add: metrics_wf_def)

text \<open>Past admission the handler records exactly one run.\<close>

lemma run_admitted_records:
  "\<exists>st e. smetrics (snd (run_admitted w req lc s)) = recordRun st (elapsed_ms w) e (smetrics s)"
  by (auto simp: run_admitted_def Let_def record_run_def split: prod.splits)

text \<open>The gauge goes up before a run and down after it, so recording the run in between is all that stays.\<close>

lemma inflight_recorded:
  "smetrics s' = recordRun k ms e (smetrics (add_inflight 1 s)) \<Longrightarrow>
   smetrics (add_inflight (- 1) s') = recordRun k ms e (smetrics s)"
  by (simp add: add_inflight_def recordRun_def Let_def)

lemma HandleRun_metrics:
  assumes "validate_request env reg dec = Inr (req, lc)"
  shows "\<exists>st e. smetrics (snd (HandleRun env reg dec w s)) = recordRun st (elapsed_ms w) e (smetrics s)"
proof (cases "acq w")
  case None
  obtain resp s' where r: "run_admitted w req lc (add_inflight 1 s) = (resp, s')"
    by (cases "run_admitted w req lc (add_inflight 1 s)") auto
  obtain st e where "smetrics s' = recordRun st (elapsed_ms w) e (smetrics (add_inflight 1 s))"
    using run_admitted_records [of w req lc "add_inflight 1 s"] r by auto
  from inflight_recorded [OF this] assms None r show ?thesis by (auto simp: HandleRun_def)
next
  case (Some err)
  with assms show ?thesis
    by (auto simp: HandleRun_def classifyAcquireErr_def)
qed

lemma output_ceiling_pos: "0 < output_ceiling env"
  by (auto simp: output_ceiling_def env_pos_def split: option.splits)

lemma check_output_None: "check_output env cap = None \<longleftrightarrow> (\<forall>v. cap = Some v \<longrightarrow> v \<le> output_ceiling env)"
  using output_ceiling_pos [of env] by (auto simp: check_output_def split: option.splits if_splits)

lemma basic_checks_None:
  "basic_checks req = None \<longleftrightarrow>
     Language req \<noteq> [] \<and> Source req \<noteq> [] \<and> Tests req \<noteq> [] \<and> length (Tests req) \<le> maxTests \<and>
     (\<forall>v. MaxParallel req = Some v \<longrightarrow> v \<le> int maxTests) \<and>
     (\<forall>tc \<in> set (Tests req). length (Stdin tc) \<le> maxFieldBytes \<and> length (ExpectedStdout tc) \<le> maxFieldBytes) \<and>
     isValidFilename (SourceFilename req) \<and> isValidFilename (ArtifactFilename req)"
  by (cases "MaxParallel req")
     (auto simp: basic_checks_def first_err_None opt_check_def check_fields_None maxTests_def split: if_splits)

lemma language_checks_None:
  "language_checks env req lc = None \<longleftrightarrow>
     (\<forall>st l. rBuild req = Some st \<longrightarrow> sLimits st = Some l \<longrightarrow>
        BuildCmd lc \<noteq> [] \<and> limits_within l (BuildLimits lc) (BuildCeiling lc)) \<and>
     (\<forall>st l. rRun req = Some st \<longrightarrow> sLimits st = Some l \<longrightarrow> limits_within l (RunLimits lc) (RunCeiling lc)) \<and>
     (FlagAllowlist lc = [] \<or>
       (\<forall>f \<in> set (stage_flags (rBuild req) @ stage_flags (rRun req)). \<exists>p \<in> set (FlagAllowlist lc). flag_matches f p)) \<and>
     (\<forall>v. MaxOutputBytes req = Some v \<longrightarrow> v \<le> output_ceiling env)"
  unfolding language_checks_def first_err_None
  by (simp only: list.set ball_simps validateStageLimits_None check_flags_None check_output_None)
     (auto simp: ball_Un)

lemma rs_string_accepted: "rs_string s = ''accepted'' \<longleftrightarrow> s = ResultAccepted"
  by (cases s) auto

lemma top_accepted:
  "computeTopLevelStatus b ts = ResultAccepted \<longleftrightarrow>
     bStatus b = BuildOk \<and> (\<forall>t \<in> set ts. tStatus t = ResultAccepted)"
  by (auto simp: computeTopLevelStatus_def first_bad_accepted list_ex_iff) force

lemma computeTopLevelStatus_valid: "ResultStatus_Valid (computeTopLevelStatus b ts)"
proof -
  have "ResultStatus_Valid (first_bad ts)" by (induction ts) auto
  then show ?thesis by (simp add: computeTopLevelStatus_def)
qed

lemma top_build_bad:
  "bStatus b \<noteq> BuildOk \<Longrightarrow> computeTopLevelStatus b ts = ResultBuildFailed \<or>
     computeTopLevelStatus b ts = ResultInternalError"
  by (auto simp: computeTopLevelStatus_def)

text \<open>What a 200 response of the handler looks like.\<close>

lemma run_admitted_200:
  assumes "run_admitted w req lc s = (Response 200 hs (RunBody r), s')"
  obtains top where "hs = [json_ct, (''X-Run-Status'', rs_string top)]" and "respStatus r = rs_string top"
    and "ResultStatus_Valid top"
    and "\<exists>e. smetrics s' = recordRun (rs_string top) (elapsed_ms w) e (smetrics s)"
    and "top = ResultAccepted \<Longrightarrow> bStatus (respBuild r) = BuildOk \<and> (\<forall>t \<in> set (respTests r). tStatus t = ResultAccepted)"
    and "bStatus (respBuild r) \<noteq> BuildOk \<Longrightarrow> \<forall>t \<in> set (respTests r). tStatus t = ResultNotExecuted"
proof -
  obtain b ts err where x: "execute_run w req lc = (b, ts, err)" by (metis prod_cases3)
  show ?thesis
  proof (cases err)
    case (Some e)
    with assms x have "hs = [json_ct, (''X-Run-Status'', rs_string ResultInternalError)]"
      "r = \<lparr>respStatus = rs_string ResultInternalError, respBuild = b, respTests = []\<rparr>"
      "s' = record_run w (rs_string ResultInternalError) True s"
      by (auto simp: run_admitted_def writeInternalError_def split: if_splits)
    then show ?thesis by (intro that [of ResultInternalError]) auto
  next
    case None
    let ?top = "computeTopLevelStatus b ts"
    let ?ts = "if ?top = ResultBuildFailed \<or> ?top = ResultInternalError
      then not_executed (length (Tests req)) ts else ts"
    from None assms x have h: "hs = [json_ct, (''X-Run-Status'', rs_string ?top)]"
      and r: "r = \<lparr>respStatus = rs_string ?top, respBuild = b, respTests = ?ts\<rparr>"
      and s: "s' = record_run w (rs_string ?top) (?top = ResultInternalError) s"
      by (auto simp: run_admitted_def Let_def split: if_splits)
    show ?thesis
    proof (rule that [of ?top])
      show "bStatus (respBuild r) \<noteq> BuildOk \<Longrightarrow> \<forall>t \<in> set (respTests r). tStatus t = ResultNotExecuted"
        using top_build_bad [of b ts] by (auto simp: r not_executed_def)
      show "?top = ResultAccepted \<Longrightarrow> bStatus (respBuild r) = BuildOk \<and>
          (\<forall>t \<in> set (respTests r). tStatus t = ResultAccepted)"
        using top_accepted [of b ts] by (simp add: r)
      show "ResultStatus_Valid ?top" by (rule computeTopLevelStatus_valid)
    qed (auto simp: h r s)
  qed
qed

lemma sample_valid:
  "basic_checks sample_req = None" "language_checks env sample_req sample_lang = None"
  by (simp_all add: basic_checks_None language_checks_None sample_req_def sample_test_def sample_lang_def
      isValidFilename_def maxTests_def maxFieldBytes_def)

section \<open>Properties\<close>



text \<open>
  A rejected request changes no counter; every other request is recorded as exactly one run under one
  status and one latency bucket, leaves the in-flight gauge where it was, and keeps the counters
  consistent.
\<close>

lemma run_recorded_once:
  assumes "metrics_wf (smetrics s)"
  shows "let m = smetrics s; m' = smetrics (snd (HandleRun env reg dec w s))
    in metrics_wf m' \<and> mInFlight m' = mInFlight m \<and>
       (case validate_request env reg dec of
          Inl e \<Rightarrow> fst (HandleRun env reg dec w s) = writeError e \<and> m' = m
        | Inr _ \<Rightarrow> TotalRuns m' = TotalRuns m + 1 \<and>
            (\<exists>st. Statuses m' = (Statuses m)(st := Statuses m st + 1)) \<and>
            (\<exists>b. Latency m' = (Latency m)(b := Latency m b + 1)))"
proof (cases "validate_request env reg dec")
  case (Inl e)
  then show ?thesis using assms by (simp add: HandleRun_def Let_def)
next
  case (Inr rl)
  obtain req lc where "rl = (req, lc)" by fastforce
  with Inr obtain st e where m: "smetrics (snd (HandleRun env reg dec w s)) = recordRun st (elapsed_ms w) e (smetrics s)"
    using HandleRun_metrics by blast
  show ?thesis unfolding Let_def m using Inr recordRun_wf [OF assms] by auto
qed

definition sample_server :: server where
  "sample_server = \<lparr>smetrics = new_metrics, lastInternalErr = None\<rparr>"

definition sample_build :: BuildResult where
  "sample_build = \<lparr>bStatus = BuildOk, bStdout = [], bStderr = [], bDurationMs = 0, bCpuTimeMs = 0\<rparr>"

definition sample_run_world :: run_world where
  "sample_run_world =
     \<lparr>acq = None, ctx_dead_acq = False,
      execute_run = (\<lambda>_ _. (sample_build, [zero_TestResult\<lparr>tStatus := ResultAccepted\<rparr>], None)),
      ctx_dead_run = False, elapsed_ms = 12, now = 0\<rparr>"

text \<open>
  C14. A run answered with 200 carries the status of its body in the \<open>X-Run-Status\<close> header and is
  counted under that status; the status is one of the vocabulary; it says \<open>accepted\<close> only if the
  build and every test of the body do, and after a failed build every test of the body is
  \<open>not_executed\<close>.
\<close>

theorem response_status_consistent:
  assumes "HandleRun env reg dec w s = (Response 200 hs (RunBody r), s')"
  shows "(''X-Run-Status'', respStatus r) \<in> set hs \<and>
    Statuses (smetrics s') (respStatus r) = Statuses (smetrics s) (respStatus r) + 1 \<and>
    (\<exists>top. respStatus r = rs_string top \<and> ResultStatus_Valid top) \<and>
    (respStatus r = ''accepted'' \<longrightarrow>
       bStatus (respBuild r) = BuildOk \<and> (\<forall>t \<in> set (respTests r). tStatus t = ResultAccepted)) \<and>
    (bStatus (respBuild r) \<noteq> BuildOk \<longrightarrow> (\<forall>t \<in> set (respTests r). tStatus t = ResultNotExecuted))"
proof -
  obtain req lc s1 where v: "validate_request env reg dec = Inr (req, lc)" and a: "acq w = None"
    and r: "run_admitted w req lc (add_inflight 1 s) = (Response 200 hs (RunBody r), s1)"
    and s': "s' = add_inflight (- 1) s1"
    using assms
    by (auto simp: HandleRun_def writeError_def writeErrorStatus_def classifyAcquireErr_def
        split: sum.splits option.splits prod.splits if_splits)
  from r show ?thesis
  proof (cases rule: run_admitted_200)
    case (1 top)
    then show ?thesis using s' by (auto simp: rs_string_accepted)
  qed
qed

theorem response_status_consistent_witness:
  "\<exists>hs r s'. HandleRun (\<lambda>_. []) sample_registry (Inr sample_req) sample_run_world sample_server =
       (Response 200 hs (RunBody r), s') \<and>
     (''X-Run-Status'', respStatus r) \<in> set hs \<and>
     Statuses (smetrics s') (respStatus r) = Statuses (smetrics sample_server) (respStatus r) + 1 \<and>
     (\<exists>top. respStatus r = rs_string top \<and> ResultStatus_Valid top) \<and>
     (respStatus r = ''accepted'' \<longrightarrow>
        bStatus (respBuild r) = BuildOk \<and> (\<forall>t \<in> set (respTests r). tStatus t = ResultAccepted)) \<and>
     (bStatus (respBuild r) \<noteq> BuildOk \<longrightarrow> (\<forall>t \<in> set (respTests r). tStatus t = ResultNotExecuted))"
proof -
  have "validate_request (\<lambda>_. []) sample_registry (Inr sample_req) = Inr (sample_req, sample_lang)"
    by (simp add: validate_request_def sample_valid sample_registry_def) (simp add: sample_req_def)
  then obtain hs r s' where h: "HandleRun (\<lambda>_. []) sample_registry (Inr sample_req) sample_run_world sample_server =
      (Response 200 hs (RunBody r), s')"
    by (auto simp: HandleRun_def run_admitted_def sample_run_world_def Let_def split: prod.splits)
  with response_status_consistent [OF h] show ?thesis by blast
qed

end
