(* ===== verification/Probes.thy ===== *)
theory Probes
  imports Config
begin

text \<open>
  Readiness probes of \<^verbatim>\<open>internal/api/probes.go\<close> behind a time-to-live cache. A probe that runs
  executes commands: what they return is the argument. The cache mutex makes each look-up one
  step; \<open>now\<close> is the time of the look-up and \<open>later\<close> the time the fresh result is stored. Every
  call reports whether it executed anything.
\<close>

record readyProbe =
  pOK :: bool
  pVersion :: string
  pError :: string

record cachedProbe =
  cp_at :: int
  cp_p :: readyProbe

record probeCache =
  pc_entries :: "string \<rightharpoonup> cachedProbe"
  pc_ttl :: int

definition newProbeCache :: "int \<Rightarrow> probeCache" where
  "newProbeCache ttl = \<lparr>pc_entries = Map.empty, pc_ttl = ttl\<rparr>"

definition cache_run ::
  "int \<Rightarrow> int \<Rightarrow> string \<Rightarrow> readyProbe \<Rightarrow> probeCache \<Rightarrow> (readyProbe \<times> bool) \<times> probeCache" where
  "cache_run now later key fresh c =
     (let miss = ((fresh, True), c\<lparr>pc_entries := (pc_entries c)(key \<mapsto> \<lparr>cp_at = later, cp_p = fresh\<rparr>)\<rparr>)
      in case pc_entries c key of
           Some e \<Rightarrow> if now - cp_at e < pc_ttl c then ((cp_p e, False), c) else miss
         | None \<Rightarrow> miss)"

definition cache_reset :: "probeCache \<Rightarrow> probeCache" where
  "cache_reset c = c\<lparr>pc_entries := Map.empty\<rparr>"

definition readProbeTTL :: "environ \<Rightarrow> int" where
  "readProbeTTL env = wrap64 (env_pos env ''GOBOXD_PROBE_TTL'' 5 * 1000000000)"

section \<open>The probes\<close>

text \<open>The command's trimmed output, the resolved path of the binary, or the error.\<close>

definition probeExecArgs :: "string \<Rightarrow> string go_result \<Rightarrow> string go_result \<Rightarrow> readyProbe" where
  "probeExecArgs binary result lookPath =
     (case result of
        Inr out \<Rightarrow> \<lparr>pOK = True, pVersion = TrimSpace out, pError = []\<rparr>
      | Inl err \<Rightarrow>
          (case lookPath of
             Inr path \<Rightarrow> \<lparr>pOK = True, pVersion = path, pError = []\<rparr>
           | Inl _ \<Rightarrow> \<lparr>pOK = False, pVersion = [], pError = binary @ '' not found: '' @ err\<rparr>))"

text \<open>The command line a language is probed with.\<close>

definition probe_command :: "LanguageConfig \<Rightarrow> string \<times> string list" where
  "probe_command lc =
     (case SmokeCmd lc of
        c # args \<Rightarrow> (c, args)
      | [] \<Rightarrow>
          ((case BuildCmd lc of b # _ \<Rightarrow> b | [] \<Rightarrow> hd (RunCmd lc)), [''--version'']))"

definition probeLangExec ::
  "(string \<Rightarrow> string list \<Rightarrow> string go_result) \<Rightarrow> (string \<Rightarrow> string go_result) \<Rightarrow> LanguageConfig \<Rightarrow>
   readyProbe" where
  "probeLangExec exec lookPath lc =
     (case probe_command lc of (binary, args) \<Rightarrow>
        probeExecArgs binary (exec binary args) (lookPath binary))"

text \<open>The regular expression's first match on the help text is the argument \<open>version_re\<close>.\<close>

definition nsjailVersionFromHelp :: "(string \<Rightarrow> string option) \<Rightarrow> environ \<Rightarrow> string \<Rightarrow> string" where
  "nsjailVersionFromHelp version_re env help =
     (case version_re help of
        Some v \<Rightarrow> v
      | None \<Rightarrow>
          if env ''GOBOXD_NSJAIL_VERSION'' \<noteq> [] then TrimSpace (env ''GOBOXD_NSJAIL_VERSION'')
          else ''unknown'')"

definition probeNsjail :: "(string \<Rightarrow> string option) \<Rightarrow> environ \<Rightarrow> string go_result \<Rightarrow> readyProbe" where
  "probeNsjail version_re env help =
     (case help of
        Inl err \<Rightarrow> \<lparr>pOK = False, pVersion = [], pError = ''nsjail not found or failed: '' @ err\<rparr>
      | Inr out \<Rightarrow> \<lparr>pOK = True, pVersion = nsjailVersionFromHelp version_re env out, pError = []\<rparr>)"

section \<open>Readiness\<close>

record readyState =
  AllOK :: bool
  rsStatus :: string
  rsNsjail :: "readyProbe option"
  rsLanguages :: "string \<rightharpoonup> readyProbe"

text \<open>
  What a round of probing sees: the times of the look-up and of the store for each cache key, and
  the result of running each probe.
\<close>

record probe_env =
  pe_now :: "string \<Rightarrow> int"
  pe_later :: "string \<Rightarrow> int"
  pe_nsjail :: readyProbe
  pe_lang :: "LanguageConfig \<Rightarrow> readyProbe"

definition lang_key :: "LanguageConfig \<Rightarrow> string" where
  "lang_key lc = ''lang:'' @ ID lc"

definition languageProbe ::
  "probe_env \<Rightarrow> LanguageConfig \<Rightarrow> probeCache \<Rightarrow> (readyProbe \<times> bool) \<times> probeCache" where
  "languageProbe pe lc c =
     cache_run (pe_now pe (lang_key lc)) (pe_later pe (lang_key lc)) (lang_key lc) (pe_lang pe lc) c"

text \<open>The loop over the registry, in the order the map iteration happens to take.\<close>

fun probe_languages ::
  "probe_env \<Rightarrow> (string \<times> LanguageConfig) list \<Rightarrow> readyState \<Rightarrow> nat \<Rightarrow> probeCache \<Rightarrow>
   readyState \<times> nat \<times> probeCache" where
  "probe_languages pe [] s n c = (s, n, c)"
| "probe_languages pe ((lid, lc) # ls) s n c =
     (case languageProbe pe lc c of
        ((p, did), c') \<Rightarrow>
          probe_languages pe ls
            (s\<lparr>rsLanguages := (rsLanguages s)(lid \<mapsto> p), AllOK := AllOK s \<and> pOK p\<rparr>)
            (if did then Suc n else n) c')"

text \<open>The state, the number of probes that executed something, and the cache afterwards.\<close>

definition probeReadiness ::
  "bool \<Rightarrow> probe_env \<Rightarrow> (string \<times> LanguageConfig) list \<Rightarrow> probeCache \<Rightarrow> readyState \<times> nat \<times> probeCache" where
  "probeReadiness shuttingDown pe reg c =
     (let s0 = \<lparr>AllOK = True, rsStatus = ''ok'', rsNsjail = None, rsLanguages = Map.empty\<rparr>
      in if shuttingDown then (s0\<lparr>AllOK := False, rsStatus := ''shutting_down''\<rparr>, 0, c)
         else
           (case cache_run (pe_now pe ''nsjail'') (pe_later pe ''nsjail'') ''nsjail'' (pe_nsjail pe) c of
              ((p, did), c1) \<Rightarrow>
                (case probe_languages pe reg (s0\<lparr>rsNsjail := Some p, AllOK := pOK p\<rparr>)
                        (if did then 1 else 0) c1 of
                   (s, n, c2) \<Rightarrow>
                     (if AllOK s then s else s\<lparr>rsStatus := ''degraded''\<rparr>, n, c2))))"

section \<open>Facts\<close>

text \<open>A key is warm until \<open>t\<close> when a look-up at \<open>t\<close> would not run its probe.\<close>

definition warm :: "probeCache \<Rightarrow> string \<Rightarrow> int \<Rightarrow> bool" where
  "warm c key t \<longleftrightarrow> (\<exists>e. pc_entries c key = Some e \<and> t - cp_at e < pc_ttl c)"

lemma cache_run_hit: "warm c key now \<Longrightarrow> \<exists>p. cache_run now later key fresh c = ((p, False), c)"
  by (auto simp: warm_def cache_run_def Let_def)

lemma cache_run_miss:
  "\<not> warm c key now \<Longrightarrow>
   cache_run now later key fresh c =
     ((fresh, True), c\<lparr>pc_entries := (pc_entries c)(key \<mapsto> \<lparr>cp_at = later, cp_p = fresh\<rparr>)\<rparr>)"
  by (auto simp: warm_def cache_run_def Let_def split: option.splits)

lemma cache_run_warms:
  assumes "cache_run now later key fresh c = (r, c')" and "t - later < pc_ttl c" and "\<not> warm c key now"
  shows "warm c' key t"
  using assms by (auto simp: cache_run_miss warm_def)

lemma probe_languages_warm:
  assumes "\<forall>(lid, lc) \<in> set ls. warm c (lang_key lc) (pe_now pe (lang_key lc))"
  shows "\<exists>s'. probe_languages pe ls s n c = (s', n, c)"
  using assms
proof (induction ls arbitrary: s)
  case (Cons x ls)
  obtain lid lc where x: "x = (lid, lc)" by fastforce
  obtain p where "languageProbe pe lc c = ((p, False), c)"
    using Cons.prems x cache_run_hit unfolding languageProbe_def by fastforce
  with Cons x show ?case by auto
qed simp

lemma probe_languages_all:
  "probe_languages pe ls s n c = (s', m, c') \<Longrightarrow>
   (AllOK s' \<longrightarrow> AllOK s) \<and> rsNsjail s' = rsNsjail s \<and> rsStatus s' = rsStatus s"
proof (induction ls arbitrary: s n c)
  case (Cons x ls)
  obtain lid lc where x: "x = (lid, lc)" by fastforce
  obtain p did c1 where l: "languageProbe pe lc c = ((p, did), c1)" by (metis surj_pair)
  have "probe_languages pe ls (s\<lparr>rsLanguages := (rsLanguages s)(lid \<mapsto> p), AllOK := AllOK s \<and> pOK p\<rparr>)
      (if did then Suc n else n) c1 = (s', m, c')"
    using Cons.prems x l by simp
  from Cons.IH [OF this] show ?case by simp
qed simp

text \<open>The state is ok only if every probe recorded in it is.\<close>

lemma probe_languages_ok:
  assumes "probe_languages pe ls s n c = (s', m, c')" and "AllOK s'"
    and "\<And>k p. rsLanguages s k = Some p \<Longrightarrow> pOK p"
  shows "(\<forall>k p. rsLanguages s' k = Some p \<longrightarrow> pOK p) \<and> dom (rsLanguages s') = dom (rsLanguages s) \<union> fst ` set ls"
  using assms
proof (induction pe ls s n c rule: probe_languages.induct)
  case (1 pe s n c)
  then show ?case by auto
next
  case (2 pe lid lc ls s n c)
  obtain p did c1 where l: "languageProbe pe lc c = ((p, did), c1)" by (metis surj_pair)
  let ?s = "s\<lparr>rsLanguages := (rsLanguages s)(lid \<mapsto> p), AllOK := AllOK s \<and> pOK p\<rparr>"
  have r: "probe_languages pe ls ?s (if did then Suc n else n) c1 = (s', m, c')"
    using 2(2) l by simp
  then have "pOK p" using probe_languages_all [OF r] 2(3) by simp
  then have "\<And>k q. rsLanguages ?s k = Some q \<Longrightarrow> pOK q" using 2(4) by (auto split: if_splits)
  then show ?case
    using 2(1) [OF l [symmetric] refl r 2(3)] by (auto split: if_splits)
qed

section \<open>Properties\<close>

text \<open>
  C34. A readiness check on a warm cache starts no process and changes nothing in the cache; and the
  check says ok only if the sandbox binary and every language of the registry were probed
  successfully.
\<close>

theorem warm_readiness_spawns_nothing:
  assumes "probeReadiness False pe reg c = (s, n, c')"
  shows "(warm c ''nsjail'' (pe_now pe ''nsjail'') \<and>
       (\<forall>(lid, lc) \<in> set reg. warm c (lang_key lc) (pe_now pe (lang_key lc))) \<longrightarrow> n = 0 \<and> c' = c) \<and>
    (AllOK s \<longrightarrow> rsStatus s = ''ok'' \<and> (\<exists>p. rsNsjail s = Some p \<and> pOK p) \<and>
       dom (rsLanguages s) = fst ` set reg \<and> (\<forall>k p. rsLanguages s k = Some p \<longrightarrow> pOK p))"
proof -
  let ?s0 = "\<lparr>AllOK = True, rsStatus = ''ok'', rsNsjail = None, rsLanguages = Map.empty\<rparr>"
  obtain p did c1 where n: "cache_run (pe_now pe ''nsjail'') (pe_later pe ''nsjail'') ''nsjail'' (pe_nsjail pe) c =
      ((p, did), c1)" by (metis surj_pair)
  let ?s1 = "?s0\<lparr>rsNsjail := Some p, AllOK := pOK p\<rparr>"
  obtain s1 m c2 where l: "probe_languages pe reg ?s1 (if did then 1 else 0) c1 = (s1, m, c2)"
    by (metis prod_cases3)
  have r: "s = (if AllOK s1 then s1 else s1\<lparr>rsStatus := ''degraded''\<rparr>)" "n = m" "c' = c2"
    using assms n l by (auto simp: probeReadiness_def Let_def split: if_splits)
  have "n = 0 \<and> c' = c" if "warm c ''nsjail'' (pe_now pe ''nsjail'')"
    "\<forall>(lid, lc) \<in> set reg. warm c (lang_key lc) (pe_now pe (lang_key lc))"
  proof -
    have "did = False" "c1 = c" using cache_run_hit [OF that(1), of "pe_later pe ''nsjail''" "pe_nsjail pe"] n by auto
    with probe_languages_warm [OF that(2), of ?s1 0] l r show ?thesis by auto
  qed
  moreover have "rsStatus s = ''ok'' \<and> (\<exists>p. rsNsjail s = Some p \<and> pOK p) \<and>
      dom (rsLanguages s) = fst ` set reg \<and> (\<forall>k p. rsLanguages s k = Some p \<longrightarrow> pOK p)" if "AllOK s"
  proof -
    have a: "AllOK s1" "s = s1" using r(1) that by (auto split: if_splits)
    have "AllOK ?s1" "rsNsjail s1 = Some p" "rsStatus s1 = ''ok''" using probe_languages_all [OF l] a by auto
    with probe_languages_ok [OF l a(1)] a(2) show ?thesis by simp
  qed
  ultimately show ?thesis by blast
qed

theorem warm_readiness_spawns_nothing_witness:
  "\<exists>s n c'. probeReadiness False \<lparr>pe_now = (\<lambda>_. 5), pe_later = (\<lambda>_. 6), pe_nsjail = \<lparr>pOK = True, pVersion = [], pError = []\<rparr>,
        pe_lang = (\<lambda>_. \<lparr>pOK = True, pVersion = [], pError = []\<rparr>)\<rparr> []
       ((newProbeCache 10)\<lparr>pc_entries := [''nsjail'' \<mapsto> \<lparr>cp_at = 0, cp_p = \<lparr>pOK = True, pVersion = [], pError = []\<rparr>\<rparr>]\<rparr>) =
       (s, n, c') \<and> n = 0"
proof -
  let ?pe = "\<lparr>pe_now = (\<lambda>_. 5), pe_later = (\<lambda>_. 6), pe_nsjail = \<lparr>pOK = True, pVersion = [], pError = []\<rparr>,
        pe_lang = (\<lambda>_. \<lparr>pOK = True, pVersion = [], pError = []\<rparr>)\<rparr> :: probe_env"
  let ?c = "(newProbeCache 10)\<lparr>pc_entries := [''nsjail'' \<mapsto> \<lparr>cp_at = 0, cp_p = \<lparr>pOK = True, pVersion = [], pError = []\<rparr>\<rparr>]\<rparr>"
  obtain s n c' where r: "probeReadiness False ?pe [] ?c = (s, n, c')" by (metis prod_cases3)
  have "warm ?c ''nsjail'' (pe_now ?pe ''nsjail'')" by (simp add: warm_def newProbeCache_def)
  with conjunct1 [OF warm_readiness_spawns_nothing [OF r]] r show ?thesis by auto
qed

end
