(* ===== verification/Middleware.thy ===== *)
theory Middleware
  imports Complex_Main Handlers Probes
begin

text \<open>
  The HTTP layer around the handlers: the bearer-token and origin gate of \<^verbatim>\<open>internal/api/auth.go\<close>,
  the per-client token bucket of \<^verbatim>\<open>internal/api/ratelimit.go\<close> and the trace-id, logging and recovery
  middlewares of \<^verbatim>\<open>internal/api/logging.go\<close>. A handler maps a request and the state it shares with
  the other handlers to a response and the new state; a middleware maps handlers to handlers.

  Token counts are exact rationals: the rounding of the code's float64 is not modelled. Times are
  nanoseconds. The locale \<open>run_guard\<close> is the contract of the two gates in front of \<open>POST /run\<close>.
\<close>

section \<open>Requests, handlers and shared state\<close>

record http_request =
  Method :: string
  URLPath :: string
  Header :: "string \<Rightarrow> string"
  RemoteAddr :: string
  arrival :: int

record ipBucket =
  tokens :: rat
  lastRef :: int

type_synonym rateLimiter = "string \<rightharpoonup> ipBucket"

record http_state =
  limiter :: rateLimiter
  srv :: server
  probes :: probeCache
  access_log :: "(string \<times> string \<times> int \<times> string \<times> string) list"

type_synonym handler = "http_request \<Rightarrow> http_state \<Rightarrow> response \<times> http_state"

definition is_run :: "http_request \<Rightarrow> bool" where
  "is_run r \<longleftrightarrow> Method r = ''POST'' \<and> URLPath r = ''/run''"

section \<open>Authentication\<close>

definition authConfig :: "environ \<Rightarrow> string \<times> string list" where
  "authConfig env =
     (TrimSpace (env ''GOBOXD_AUTH_TOKEN''),
      filter (\<lambda>p. p \<noteq> []) (map TrimSpace (split_char CHR '','' (env ''GOBOXD_ALLOWED_ORIGINS''))))"

text \<open>\<open>subtle.ConstantTimeCompare\<close> returns 1 exactly when the two byte strings are equal.\<close>

definition validBearer :: "string \<Rightarrow> string \<Rightarrow> bool" where
  "validBearer got want =
     (if want = [] then True
      else if \<not> has_prefix got ''Bearer '' then False
      else trim_prefix got ''Bearer '' = want)"

definition originAllowed :: "string \<Rightarrow> string list \<Rightarrow> bool" where
  "originAllowed origin allowed =
     (if origin = [] then True
      else if allowed = [] then False
      else list_ex (\<lambda>o'. o' = origin) allowed)"

definition AuthMiddleware :: "environ \<Rightarrow> handler \<Rightarrow> handler" where
  "AuthMiddleware env nxt r st =
     (if is_run r then
        (case authConfig env of (token, origins) \<Rightarrow>
           if \<not> validBearer (Header r ''Authorization'') token then
             (writeErrorStatus [] 401 ''unauthorized'' ''missing or invalid bearer token'', st)
           else if \<not> originAllowed (Header r ''Origin'') origins then
             (writeErrorStatus [] 403 ''forbidden_origin'' ''origin not allowed'', st)
           else nxt r st)
      else nxt r st)"

section \<open>Rate limiting\<close>

record rateLimitCfg =
  rps :: rat
  burst :: int

text \<open>
  \<open>loadRateLimit\<close>; what \<open>strconv.ParseFloat\<close> returns is the argument \<open>ParseFloat\<close>, \<open>None\<close> for its
  error.
\<close>

definition loadRateLimit :: "(string \<Rightarrow> rat option) \<Rightarrow> environ \<Rightarrow> rateLimitCfg" where
  "loadRateLimit ParseFloat env =
     (let raw = TrimSpace (env ''GOBOXD_RATE_LIMIT_RPS'')
      in if raw = [] then \<lparr>rps = 0, burst = 0\<rparr>
         else (case ParseFloat raw of None \<Rightarrow> \<lparr>rps = 0, burst = 0\<rparr>
               | Some v \<Rightarrow>
                   if v \<le> 0 then \<lparr>rps = 0, burst = 0\<rparr>
                   else \<lparr>rps = v,
                         burst = (case Atoi (TrimSpace (env ''GOBOXD_RATE_BURST'')) of
                                    Some b \<Rightarrow> if b > 0 then b else wrap64 (\<lfloor>v\<rfloor> * 2)
                                  | None \<Rightarrow> wrap64 (\<lfloor>v\<rfloor> * 2))\<rparr>))"

text \<open>\<open>net.SplitHostPort\<close>, the host part; \<open>None\<close> is its error.\<close>

fun last_index :: "char \<Rightarrow> string \<Rightarrow> nat option" where
  "last_index d [] = None"
| "last_index d (c # s) =
     (case last_index d s of Some i \<Rightarrow> Some (Suc i) | None \<Rightarrow> if c = d then Some 0 else None)"

definition SplitHostPort :: "string \<Rightarrow> string option" where
  "SplitHostPort hp =
     (case last_index CHR '':'' hp of None \<Rightarrow> None
      | Some i \<Rightarrow>
          if has_prefix hp ''['' then
            (case index_any hp '']'' of None \<Rightarrow> None
             | Some e \<Rightarrow>
                 if e + 1 \<noteq> i then None
                 else if CHR ''['' \<in> set (drop 1 hp) \<or> CHR '']'' \<in> set (drop (e + 1) hp) then None
                 else Some (take (e - 1) (drop 1 hp)))
          else if CHR '':'' \<in> set (take i hp) then None
          else if CHR ''['' \<in> set hp \<or> CHR '']'' \<in> set hp then None
          else Some (take i hp))"

definition clientIP :: "http_request \<Rightarrow> string" where
  "clientIP r =
     (let ip = TrimSpace (Header r ''CF-Connecting-IP'')
      in if ip \<noteq> [] then (case SplitHostPort ip of Some h \<Rightarrow> h | None \<Rightarrow> ip)
         else (case SplitHostPort (RemoteAddr r) of Some h \<Rightarrow> h | None \<Rightarrow> RemoteAddr r))"

definition second :: int where
  "second = 1000000000"

definition bucketIdleTTL :: int where
  "bucketIdleTTL = 600 * second"

definition prune :: "int \<Rightarrow> rateLimiter \<Rightarrow> rateLimiter" where
  "prune t rl = (\<lambda>k. case rl k of None \<Rightarrow> None
                    | Some b \<Rightarrow> if t - lastRef b > bucketIdleTTL then None else Some b)"

text \<open>Refill for the time since the last refill, capped at the burst.\<close>

definition refill :: "rateLimitCfg \<Rightarrow> int \<Rightarrow> ipBucket \<Rightarrow> ipBucket" where
  "refill cfg t b =
     (let elapsed = of_int (t - lastRef b) / of_int second
      in if elapsed > 0 then
           \<lparr>tokens = min (of_int (burst cfg)) (tokens b + rps cfg * elapsed), lastRef = t\<rparr>
         else b)"

definition bucket_for :: "rateLimitCfg \<Rightarrow> string \<Rightarrow> int \<Rightarrow> rateLimiter \<Rightarrow> ipBucket" where
  "bucket_for cfg ip t rl =
     (case rl ip of Some b \<Rightarrow> b | None \<Rightarrow> \<lparr>tokens = of_int (burst cfg), lastRef = t\<rparr>)"

definition allow :: "rateLimitCfg \<Rightarrow> string \<Rightarrow> int \<Rightarrow> rateLimiter \<Rightarrow> bool \<times> rateLimiter" where
  "allow cfg ip t rl =
     (let rl1 = prune t rl;
          b = refill cfg t (bucket_for cfg ip t rl1)
      in if tokens b < 1 then (False, rl1(ip \<mapsto> b))
         else (True, rl1(ip \<mapsto> b\<lparr>tokens := tokens b - 1\<rparr>)))"

definition newRateLimitMiddleware :: "rateLimitCfg \<Rightarrow> handler \<Rightarrow> handler" where
  "newRateLimitMiddleware cfg nxt r st =
     (if rps cfg \<le> 0 then nxt r st
      else if is_run r then
        (case allow cfg (clientIP r) (arrival r) (limiter st) of
           (ok, rl) \<Rightarrow>
             if \<not> ok then
               (writeErrorStatus [(''Retry-After'', ''1'')] 429 ''rate_limited'' ''too many requests'',
                st\<lparr>limiter := rl\<rparr>)
             else nxt r (st\<lparr>limiter := rl\<rparr>))
      else nxt r st)"

section \<open>Trace ids, access log, recovery\<close>

text \<open>
  The id is the client's header, or what the random source (the argument \<open>fresh\<close>, already in hex)
  or, when it fails, the clock gives. The context value is passed on as the argument of the wrapped
  handler.
\<close>

definition request_id :: "string option \<Rightarrow> string \<Rightarrow> http_request \<Rightarrow> string" where
  "request_id fresh clock r =
     (let h = Header r ''X-Request-Id''
      in if h \<noteq> [] then h else (case fresh of Some i \<Rightarrow> i | None \<Rightarrow> clock))"

fun add_header :: "string \<times> string \<Rightarrow> response \<Rightarrow> response" where
  "add_header h NoResponse = NoResponse"
| "add_header h (Response c hs b) = Response c (h # hs) b"

definition RequestIDMiddleware ::
  "string option \<Rightarrow> string \<Rightarrow> (string \<Rightarrow> handler) \<Rightarrow> handler" where
  "RequestIDMiddleware fresh clock nxt r st =
     (let i = request_id fresh clock r
      in case nxt i r st of (resp, st') \<Rightarrow> (add_header (''X-Request-Id'', i) resp, st'))"

fun resp_code :: "response \<Rightarrow> int" where
  "resp_code NoResponse = 200"
| "resp_code (Response c hs b) = c"

fun resp_header :: "string \<Rightarrow> response \<Rightarrow> string" where
  "resp_header k NoResponse = []"
| "resp_header k (Response c hs b) = (case map_of hs k of None \<Rightarrow> [] | Some v \<Rightarrow> v)"

text \<open>One access-log entry: method, path, status code, run status, trace id.\<close>

definition LoggingMiddleware :: "handler \<Rightarrow> string \<Rightarrow> handler" where
  "LoggingMiddleware nxt rid r st =
     (case nxt r st of (resp, st') \<Rightarrow>
        (resp,
         st'\<lparr>access_log := access_log st' @
           [(Method r, URLPath r, resp_code resp,
             (if is_run r then resp_header ''X-Run-Status'' resp else []), rid)]\<rparr>))"

text \<open>
  A handler that panics is a handler with result \<open>None\<close>; its state changes up to the panic are
  kept.
\<close>

definition RecoveryMiddleware ::
  "(http_request \<Rightarrow> http_state \<Rightarrow> response option \<times> http_state) \<Rightarrow> handler" where
  "RecoveryMiddleware nxt r st =
     (case nxt r st of
        (Some resp, st') \<Rightarrow> (resp, st')
      | (None, st') \<Rightarrow> (writeInternalError ''internal server error'', st'))"

section \<open>The guard contract\<close>

locale run_guard =
  fixes wrap :: "handler \<Rightarrow> handler"
  assumes transparent: "\<not> is_run r \<Longrightarrow> wrap nxt r st = nxt r st"
    and guarded: "is_run r \<Longrightarrow>
      (\<exists>st'. srv st' = srv st \<and> access_log st' = access_log st \<and> wrap nxt r st = nxt r st') \<or>
      (\<exists>c hs b st'. c \<in> {401, 403, 429} \<and> srv st' = srv st \<and> access_log st' = access_log st \<and>
         wrap nxt r st = (Response c hs b, st'))"
begin

text \<open>A guarded handler runs at most once, and a rejection leaves the server state alone.\<close>

lemma rejected_frame:
  assumes "is_run r" and "\<And>st'. wrap nxt r st \<noteq> nxt r st'"
  shows "srv (snd (wrap nxt r st)) = srv st"
  using guarded [OF assms(1), of st nxt] assms(2) by auto

lemma keeps_invariant:
  assumes "\<And>st. P (srv st) \<Longrightarrow> P (srv (snd (nxt r st)))" and "P (srv st)"
  shows "P (srv (snd (wrap nxt r st)))"
proof (cases "is_run r")
  case True
  from guarded [OF True, of st nxt] assms show ?thesis by fastforce
qed (use assms transparent in simp)

end

locale run_guard_pair = a: run_guard wrap1 + b: run_guard wrap2
  for wrap1 wrap2 :: "handler \<Rightarrow> handler"
begin

sublocale run_guard "\<lambda>nxt. wrap1 (wrap2 nxt)"
proof (unfold_locales, goal_cases)
  case (1 r nxt st)
  then show ?case by (simp add: a.transparent b.transparent)
next
  case (2 r st nxt)
  from a.guarded [OF 2, of st "wrap2 nxt"] show ?case
  proof (elim disjE exE conjE)
    fix st'
    assume s: "srv st' = srv st" "access_log st' = access_log st"
      and w: "wrap1 (wrap2 nxt) r st = wrap2 nxt r st'"
    from b.guarded [OF 2, of st' nxt] show ?thesis
      unfolding w using s by fastforce
  qed blast
qed

end

interpretation rate: run_guard "newRateLimitMiddleware cfg"
proof (unfold_locales, goal_cases)
  case (1 r nxt st)
  then show ?case by (simp add: newRateLimitMiddleware_def)
next
  case (2 r st nxt)
  obtain ok rl where a: "allow cfg (clientIP r) (arrival r) (limiter st) = (ok, rl)"
    by (cases "allow cfg (clientIP r) (arrival r) (limiter st)") auto
  have s: "srv (st\<lparr>limiter := rl\<rparr>) = srv st" "access_log (st\<lparr>limiter := rl\<rparr>) = access_log st" by simp_all
  show ?case
  proof (cases "rps cfg \<le> 0")
    case False
    show ?thesis
    proof (cases ok)
      case True
      with False 2 a have "newRateLimitMiddleware cfg nxt r st = nxt r (st\<lparr>limiter := rl\<rparr>)"
        by (simp add: newRateLimitMiddleware_def)
      with s show ?thesis by blast
    qed (use False 2 a s in \<open>auto simp: newRateLimitMiddleware_def writeErrorStatus_def\<close>)
  qed (auto simp: newRateLimitMiddleware_def)
qed

interpretation auth: run_guard "AuthMiddleware env"
  by unfold_locales
    (auto simp: AuthMiddleware_def writeErrorStatus_def split: prod.splits)

interpretation gates: run_guard_pair "newRateLimitMiddleware cfg" "AuthMiddleware env" ..

section \<open>Facts\<close>

lemma validBearer_iff: "want \<noteq> [] \<Longrightarrow> validBearer got want \<longleftrightarrow> got = ''Bearer '' @ want"
  by (auto simp: validBearer_def trim_prefix_def go_simps prefix_def)

lemma originAllowed_iff: "originAllowed origin allowed \<longleftrightarrow> origin = [] \<or> origin \<in> set allowed"
  by (auto simp: originAllowed_def list_ex_iff)

lemma allow_other: "k \<noteq> ip \<Longrightarrow> snd (allow cfg ip t rl) k = prune t rl k"
  by (simp add: allow_def Let_def)

lemma refill_tokens_le:
  "tokens b \<le> of_int (burst cfg) \<Longrightarrow> tokens (refill cfg t b) \<le> of_int (burst cfg)"
  by (simp add: refill_def Let_def)

definition limiter_wf :: "rateLimitCfg \<Rightarrow> int \<Rightarrow> rateLimiter \<Rightarrow> bool" where
  "limiter_wf cfg t rl \<longleftrightarrow>
     (\<forall>ip b. rl ip = Some b \<longrightarrow> 0 \<le> tokens b \<and> tokens b \<le> of_int (burst cfg) \<and> lastRef b \<le> t)"

lemma refill_props:
  assumes "0 \<le> rps cfg" and "0 \<le> tokens b" and "tokens b \<le> of_int (burst cfg)" and "lastRef b \<le> t"
  shows "0 \<le> tokens (refill cfg t b)" and "tokens (refill cfg t b) \<le> of_int (burst cfg)"
    and "lastRef (refill cfg t b) = t"
    and "tokens (refill cfg t b) \<le> tokens b + rps cfg * (of_int (t - lastRef b) / of_int second)"
proof -
  have e: "0 \<le> (of_int (t - lastRef b) / of_int second :: rat)"
    using assms(4) by (simp add: second_def)
  then have m: "0 \<le> rps cfg * (of_int (t - lastRef b) / of_int second)"
    using assms(1) by (rule mult_nonneg_nonneg [rotated])
  show "0 \<le> tokens (refill cfg t b)"
    using assms m by (auto simp: refill_def Let_def)
  show "tokens (refill cfg t b) \<le> of_int (burst cfg)"
    by (rule refill_tokens_le) (rule assms(3))
  show "tokens (refill cfg t b) \<le> tokens b + rps cfg * (of_int (t - lastRef b) / of_int second)"
    using m by (simp add: refill_def Let_def)
  show "lastRef (refill cfg t b) = t"
    using assms(4) e by (auto simp: refill_def Let_def second_def divide_le_0_iff)
qed

section \<open>The token bucket bound\<close>

text \<open>
  A run of the limiter is a list of calls, each a client and a time. The level of a client's bucket
  is what it would hold after a refill; it bounds what the client may still send.
\<close>

definition secs :: "int \<Rightarrow> rat" where
  "secs d = of_int d / of_int second"

fun allowed_count :: "rateLimitCfg \<Rightarrow> string \<Rightarrow> rateLimiter \<Rightarrow> (string \<times> int) list \<Rightarrow> nat" where
  "allowed_count cfg ip rl [] = 0"
| "allowed_count cfg ip rl ((k, t) # es) =
     (if k = ip \<and> fst (allow cfg k t rl) then 1 else 0) + allowed_count cfg ip (snd (allow cfg k t rl)) es"

definition level :: "rateLimitCfg \<Rightarrow> string \<Rightarrow> int \<Rightarrow> rateLimiter \<Rightarrow> rat" where
  "level cfg ip t rl =
     (case rl ip of None \<Rightarrow> of_int (burst cfg)
      | Some b \<Rightarrow> min (of_int (burst cfg)) (tokens b + rps cfg * secs (t - lastRef b)))"

definition cfg_ok :: "rateLimitCfg \<Rightarrow> bool" where
  "cfg_ok cfg \<longleftrightarrow> 0 < rps cfg \<and> 0 \<le> burst cfg \<and> of_int (burst cfg) \<le> 600 * rps cfg"

lemma secs_mono: "a \<le> b \<Longrightarrow> secs a \<le> secs b"
  by (simp add: secs_def second_def divide_right_mono)

lemma secs_diff: "secs (a - c) = secs (a - b) + secs (b - c)"
  by (simp add: secs_def second_def field_simps)

lemma level_nonneg:
  assumes "cfg_ok cfg" and "limiter_wf cfg t rl"
  shows "0 \<le> level cfg ip t rl"
proof (cases "rl ip")
  case None
  with assms show ?thesis by (simp add: level_def cfg_ok_def)
next
  case (Some b)
  with assms have b: "0 \<le> tokens b" "lastRef b \<le> t" by (auto simp: limiter_wf_def)
  then have "0 \<le> secs (t - lastRef b)" by (simp add: secs_def second_def)
  then have "0 \<le> rps cfg * secs (t - lastRef b)"
    using assms(1) by (simp add: cfg_ok_def)
  with Some b assms(1) show ?thesis by (simp add: level_def cfg_ok_def)
qed

lemma level_later:
  assumes "cfg_ok cfg" and "t \<le> u"
  shows "level cfg ip u rl \<le> level cfg ip t rl + rps cfg * secs (u - t)"
proof -
  have n: "0 \<le> rps cfg * secs (u - t)"
    using assms by (simp add: cfg_ok_def secs_def second_def)
  show ?thesis
  proof (cases "rl ip")
    case None
    with n show ?thesis by (simp add: level_def)
  next
    case (Some b)
    have "rps cfg * secs (u - lastRef b) = rps cfg * secs (u - t) + rps cfg * secs (t - lastRef b)"
      by (subst secs_diff [of u _ t]) (simp add: distrib_left)
    with Some n show ?thesis by (simp add: level_def)
  qed
qed

text \<open>
  Pruning an idle bucket is invisible as long as a bucket refills within the idle window: the
  fresh bucket is as full as the pruned one had become.
\<close>

lemma level_prune:
  assumes "cfg_ok cfg" and "limiter_wf cfg t rl"
  shows "level cfg ip t (prune t rl) = level cfg ip t rl"
proof (cases "rl ip")
  case None
  then show ?thesis by (simp add: level_def prune_def)
next
  case (Some b)
  show ?thesis
  proof (cases "t - lastRef b > bucketIdleTTL")
    case True
    have "secs bucketIdleTTL \<le> secs (t - lastRef b)"
      using True by (intro secs_mono) simp
    then have "600 \<le> secs (t - lastRef b)"
      by (simp add: secs_def bucketIdleTTL_def second_def)
    then have "rps cfg * 600 \<le> rps cfg * secs (t - lastRef b)"
      using assms(1) by (intro mult_left_mono) (simp_all add: cfg_ok_def)
    moreover have "0 \<le> tokens b" using assms(2) Some by (auto simp: limiter_wf_def)
    ultimately have "of_int (burst cfg) \<le> tokens b + rps cfg * secs (t - lastRef b)"
      using assms(1) unfolding cfg_ok_def by linarith
    with Some True show ?thesis by (simp add: level_def prune_def)
  next
    case False
    with Some show ?thesis by (simp add: level_def prune_def)
  qed
qed

lemma limiter_wf_prune: "limiter_wf cfg t rl \<Longrightarrow> limiter_wf cfg t (prune t rl)"
  by (auto simp: limiter_wf_def prune_def split: option.splits if_splits)

lemma limiter_wf_later: "limiter_wf cfg t rl \<Longrightarrow> t \<le> u \<Longrightarrow> limiter_wf cfg u rl"
  by (auto simp: limiter_wf_def intro: order_trans)

lemma bucket_for_level:
  assumes "cfg_ok cfg" and "limiter_wf cfg t rl"
  shows "tokens (refill cfg t (bucket_for cfg ip t rl)) = level cfg ip t rl"
    and "lastRef (refill cfg t (bucket_for cfg ip t rl)) = t"
proof -
  have w: "0 \<le> tokens b \<and> tokens b \<le> of_int (burst cfg) \<and> lastRef b \<le> t" if "rl ip = Some b" for b
    using assms(2) that by (auto simp: limiter_wf_def)
  have "0 \<le> burst cfg" and r: "0 \<le> rps cfg" using assms(1) by (auto simp: cfg_ok_def)
  then show "lastRef (refill cfg t (bucket_for cfg ip t rl)) = t"
    by (intro refill_props) (use w in \<open>auto simp: bucket_for_def split: option.splits\<close>)
  show "tokens (refill cfg t (bucket_for cfg ip t rl)) = level cfg ip t rl"
  proof (cases "rl ip")
    case None
    then show ?thesis by (simp add: bucket_for_def level_def refill_def Let_def)
  next
    case (Some b)
    with w [OF Some] show ?thesis
      by (auto simp: bucket_for_def level_def refill_def Let_def secs_def second_def
          divide_le_0_iff zero_less_divide_iff)
  qed
qed

lemma allow_spec:
  assumes "cfg_ok cfg" and "limiter_wf cfg t rl"
  shows "fst (allow cfg ip t rl) \<longleftrightarrow> 1 \<le> level cfg ip t rl"
    and "level cfg k t (snd (allow cfg ip t rl)) =
      (if k = ip \<and> fst (allow cfg ip t rl) then level cfg k t rl - 1 else level cfg k t rl)"
    and "limiter_wf cfg t (snd (allow cfg ip t rl))"
proof -
  let ?rl = "prune t rl"
  let ?b = "refill cfg t (bucket_for cfg ip t ?rl)"
  note w = limiter_wf_prune [OF assms(2)]
  have tb: "tokens ?b = level cfg ip t rl" "lastRef ?b = t"
    using bucket_for_level [OF assms(1) w, of ip] level_prune [OF assms, of ip] by simp_all
  show f: "fst (allow cfg ip t rl) \<longleftrightarrow> 1 \<le> level cfg ip t rl"
    by (simp add: allow_def Let_def tb)
  have le: "level cfg ip t rl \<le> of_int (burst cfg)"
    by (simp add: level_def split: option.splits)
  have "level cfg ip t (snd (allow cfg ip t rl)) =
      (if fst (allow cfg ip t rl) then level cfg ip t rl - 1 else level cfg ip t rl)"
    using le by (simp add: allow_def Let_def tb level_def [of cfg ip t "_(_ \<mapsto> _)"] secs_def)
  moreover have "level cfg k t (snd (allow cfg ip t rl)) = level cfg k t rl" if "k \<noteq> ip"
    using that level_prune [OF assms, of k] allow_other [OF that, of cfg t rl] by (simp add: level_def)
  ultimately show "level cfg k t (snd (allow cfg ip t rl)) =
      (if k = ip \<and> fst (allow cfg ip t rl) then level cfg k t rl - 1 else level cfg k t rl)"
    by (cases "k = ip") auto
  show "limiter_wf cfg t (snd (allow cfg ip t rl))"
    using w le level_nonneg [OF assms, of ip] tb
    by (auto simp: limiter_wf_def allow_def Let_def split: if_splits)
qed

lemma allowed_count_bound:
  assumes "cfg_ok cfg"
  shows "limiter_wf cfg t rl \<Longrightarrow> sorted (map snd es) \<Longrightarrow> \<forall>u \<in> set (map snd es). t \<le> u \<and> u \<le> v \<Longrightarrow>
    t \<le> v \<Longrightarrow> of_nat (allowed_count cfg ip rl es) \<le> level cfg ip t rl + rps cfg * secs (v - t)"
proof (induction es arbitrary: t rl)
  case Nil
  have "0 \<le> rps cfg * secs (v - t)"
    using assms Nil.prems(4) by (simp add: cfg_ok_def secs_def second_def)
  with level_nonneg [OF assms Nil.prems(1), of ip] show ?case by simp
next
  case (Cons e es)
  obtain k u where e: "e = (k, u)" by (cases e) auto
  have u: "t \<le> u" "u \<le> v" using Cons.prems(3) by (auto simp: e)
  note wu = limiter_wf_later [OF Cons.prems(1) u(1)]
  let ?rl = "snd (allow cfg k u rl)"
  have ih: "of_nat (allowed_count cfg ip ?rl es) \<le> level cfg ip u ?rl + rps cfg * secs (v - u)"
    by (rule Cons.IH [OF allow_spec(3) [OF assms wu]]) (use Cons.prems u in \<open>auto simp: e\<close>)
  have split: "rps cfg * secs (v - t) = rps cfg * secs (v - u) + rps cfg * secs (u - t)"
    by (subst secs_diff [of v _ u]) (simp add: distrib_left)
  show ?case
    using ih split level_later [OF assms u(1), of ip rl] allow_spec(2) [OF assms wu, of ip k]
    by (auto simp: e split: if_splits)
qed

text \<open>With a burst below one token nothing is ever admitted.\<close>

lemma allow_starved:
  assumes "burst cfg \<le> 0" and "\<And>b. rl ip = Some b \<Longrightarrow> tokens b \<le> of_int (burst cfg)"
  shows "fst (allow cfg ip t rl) = False"
    and "snd (allow cfg ip t rl) k = Some b \<Longrightarrow> (\<And>b. rl k = Some b \<Longrightarrow> tokens b \<le> of_int (burst cfg)) \<Longrightarrow>
      tokens b \<le> of_int (burst cfg)"
proof -
  let ?b = "refill cfg t (bucket_for cfg ip t (prune t rl))"
  have "tokens (bucket_for cfg ip t (prune t rl)) \<le> of_int (burst cfg)"
    using assms(2) by (auto simp: bucket_for_def prune_def split: option.splits if_splits)
  then have tb: "tokens ?b \<le> of_int (burst cfg)" by (rule refill_tokens_le)
  moreover have "(of_int (burst cfg) :: rat) < 1" using assms(1) by simp
  ultimately have lt: "tokens ?b < 1" by linarith
  then show "fst (allow cfg ip t rl) = False" by (simp add: allow_def Let_def)
  show "tokens b \<le> of_int (burst cfg)"
    if "snd (allow cfg ip t rl) k = Some b" "\<And>b. rl k = Some b \<Longrightarrow> tokens b \<le> of_int (burst cfg)" for b
    using that lt tb by (auto simp: allow_def Let_def prune_def split: if_splits option.splits)
qed

lemma level_le_burst: "level cfg ip t rl \<le> of_int (burst cfg)"
  by (simp add: level_def split: option.splits)

section \<open>Properties\<close>




definition half_rate_env :: environ where
  "half_rate_env name = (if name = ''GOBOXD_RATE_LIMIT_RPS'' then ''0.5'' else [])"

definition empty_state :: http_state where
  "empty_state = \<lparr>limiter = Map.empty, srv = sample_server, probes = newProbeCache 5000000000, access_log = []\<rparr>"

definition run_request :: http_request where
  "run_request = \<lparr>Method = ''POST'', URLPath = ''/run'', Header = (\<lambda>_. []), RemoteAddr = ''10.0.0.1:4242'', arrival = 0\<rparr>"


end
