(* ===== verification/Server.thy ===== *)
theory Server
  imports Middleware
begin

text \<open>
  Routing (\<^verbatim>\<open>internal/api/router.go\<close>), the testcase endpoints (\<^verbatim>\<open>internal/api/testcases.go\<close>) and the
  files of the playground (\<^verbatim>\<open>internal/api/playground.go\<close>). Go's \<open>ServeMux\<close> hands a handler a cleaned
  path; reading the file system is an argument of the handlers.
\<close>

section \<open>Testcases\<close>

definition testcasesDir :: string where
  "testcasesDir = ''/app/testcases''"

record TestcaseEntry =
  teLang :: string
  teName :: string

record TestcaseDetail =
  tdLang :: string
  tdName :: string
  tdInput :: string
  tdWant :: string

text \<open>
  A directory listing: the names with a flag for directories, \<open>None\<close> when it cannot be read. The
  argument \<open>readDir\<close> lists a path and \<open>isFile\<close> is \<open>os.Stat\<close> without error.
\<close>

definition test_entries ::
  "(string \<Rightarrow> (string \<times> bool) list option) \<Rightarrow> (string \<Rightarrow> bool) \<Rightarrow> string \<Rightarrow> TestcaseEntry list" where
  "test_entries readDir exists lng =
     (let langPath = path_join [testcasesDir, lng]
      in case readDir langPath of
           None \<Rightarrow> []
         | Some tds \<Rightarrow>
             map (\<lambda>(n, d). \<lparr>teLang = lng, teName = n\<rparr>)
               (filter (\<lambda>(n, d). d \<and> exists (path_join [langPath, n, ''input.json'']) \<and>
                                 exists (path_join [langPath, n, ''want.json''])) tds))"

definition discoverTestcases ::
  "(string \<Rightarrow> (string \<times> bool) list option) \<Rightarrow> (string \<Rightarrow> bool) \<Rightarrow> TestcaseEntry list option" where
  "discoverTestcases readDir exists =
     (case readDir testcasesDir of
        None \<Rightarrow> None
      | Some ds \<Rightarrow> Some (concat (map (\<lambda>(l, d). if d then test_entries readDir exists l else []) ds)))"

datatype list_response = ListError response | Listed "TestcaseEntry list"

definition HandleTestcasesList ::
  "(string \<Rightarrow> (string \<times> bool) list option) \<Rightarrow> (string \<Rightarrow> bool) \<Rightarrow> list_response" where
  "HandleTestcasesList readDir exists =
     (case discoverTestcases readDir exists of
        None \<Rightarrow> ListError (writeInternalError ''failed to list testcases'')
      | Some es \<Rightarrow> Listed es)"

datatype detail_response = DetailError response | Detail TestcaseDetail

text \<open>The second component lists the paths read.\<close>

definition HandleTestcasesGet ::
  "(string \<Rightarrow> string option) \<Rightarrow> string \<Rightarrow> string \<Rightarrow> detail_response \<times> string list" where
  "HandleTestcasesGet readFile lng name =
     (let bad = (\<lambda>c m. DetailError (writeError (mkErr c m)));
          inputPath = path_join [testcasesDir, lng, name, ''input.json''];
          wantPath = path_join [testcasesDir, lng, name, ''want.json'']
      in if lng = [] \<or> name = [] then (bad ''invalid_request'' ''lang and name are required'', [])
         else if str_contains lng ''..'' \<or> str_contains name ''..'' \<or>
                 str_contains lng ''/'' \<or> str_contains name ''/'' then
           (bad ''invalid_request'' ''invalid lang or name'', [])
         else
           (case readFile inputPath of
              None \<Rightarrow>
                (bad ''not_found'' (''testcase '' @ lng @ ''/'' @ name @ '' not found''), [inputPath])
            | Some inp \<Rightarrow>
                (case readFile wantPath of
                   None \<Rightarrow>
                     (bad ''not_found'' (''testcase '' @ lng @ ''/'' @ name @ '' want.json not found''),
                      [inputPath, wantPath])
                 | Some want \<Rightarrow>
                     (Detail \<lparr>tdLang = lng, tdName = name, tdInput = inp, tdWant = want\<rparr>,
                      [inputPath, wantPath]))))"

section \<open>The playground's files\<close>

definition path_ext :: "string \<Rightarrow> string" where
  "path_ext s =
     (let base = last (split_char CHR ''/'' s)
      in case last_index CHR ''.'' base of None \<Rightarrow> [] | Some i \<Rightarrow> drop i base)"

definition content_type :: "string \<Rightarrow> (string \<times> string) list" where
  "content_type filePath =
     (let ext = path_ext filePath;
          ct = (\<lambda>v. [(''Content-Type'', v)])
      in if ext = ''.html'' then ct ''text/html; charset=utf-8''
         else if ext = ''.js'' then ct ''application/javascript''
         else if ext = ''.css'' then ct ''text/css''
         else if ext = ''.json'' then ct ''application/json''
         else if ext = ''.svg'' then ct ''image/svg+xml''
         else if ext = ''.png'' then ct ''image/png''
         else if ext = ''.woff2'' then ct ''font/woff2''
         else [])"

definition writePlaygroundFile :: "string \<Rightarrow> string \<Rightarrow> response" where
  "writePlaygroundFile filePath data = Response 200 (content_type filePath) (TextBody data)"

text \<open>\<open>http.Error\<close> of the standard library, which \<open>http.NotFound\<close> calls.\<close>

definition http_error :: "(string \<times> string) list \<Rightarrow> int \<Rightarrow> string \<Rightarrow> response" where
  "http_error hs c m =
     Response c (hs @ [(''Content-Type'', ''text/plain; charset=utf-8''),
                       (''X-Content-Type-Options'', ''nosniff'')]) (TextBody (m @ newline))"

text \<open>The first of three candidate directories that exists.\<close>

definition find_dist :: "string \<Rightarrow> (string \<Rightarrow> bool) \<Rightarrow> string" where
  "find_dist exeDir isDir =
     (case find isDir [''internal/api/playground-dist'', ''/app/internal/api/playground-dist'',
                       path_join [exeDir, ''playground-dist'']] of
        Some d \<Rightarrow> d | None \<Rightarrow> [])"

definition file_path :: "string \<Rightarrow> string" where
  "file_path urlPath =
     (let p = trim_prefix urlPath ''/playground''
      in if p = [] \<or> p = ''/'' then ''/index.html'' else p)"

definition HandlePlayground ::
  "string \<Rightarrow> (string \<Rightarrow> string option) \<Rightarrow> (string \<Rightarrow> string option) \<Rightarrow> string \<Rightarrow> response" where
  "HandlePlayground distDir readFile embedded urlPath =
     (let filePath = file_path urlPath;
          fallback =
            (case embedded (path_join [''playground-dist'', filePath]) of
               Some d \<Rightarrow> writePlaygroundFile filePath d
             | None \<Rightarrow>
                 (case embedded ''playground-dist/index.html'' of
                    Some d \<Rightarrow> writePlaygroundFile filePath d
                  | None \<Rightarrow> http_error [] 404 ''404 page not found''))
      in if distDir \<noteq> [] then
           (case readFile (path_join [distDir, filePath]) of
              Some d \<Rightarrow> writePlaygroundFile filePath d
            | None \<Rightarrow> fallback)
         else fallback)"

definition PlaygroundExists :: "string \<Rightarrow> (string \<Rightarrow> string option) \<Rightarrow> bool" where
  "PlaygroundExists distDir embedded =
     (if distDir \<noteq> [] then True
      else (case embedded ''playground-dist/index.html'' of
              None \<Rightarrow> False | Some d \<Rightarrow> length d > 200))"

section \<open>Routes\<close>

datatype endpoint =
    Healthz | Readyz | Info | OpenAPI | MetricsPage | Dashboard | RunEndpoint | TestcasesList
  | TestcaseGet string string | Pprof string | PlaygroundRedirect | PlaygroundFile string

text \<open>
  The registered pattern a path matches: the method it wants and the endpoint. \<open>pprof\<close> says whether
  \<open>GOBOXD_PPROF=1\<close>, \<open>pg\<close> whether a playground build exists.
\<close>

definition pattern_of :: "bool \<Rightarrow> bool \<Rightarrow> string \<Rightarrow> (string \<times> endpoint) option" where
  "pattern_of pprof pg p =
     (if p = ''/healthz'' then Some (''GET'', Healthz)
      else if p = ''/readyz'' then Some (''GET'', Readyz)
      else if p = ''/info'' then Some (''GET'', Info)
      else if p = ''/openapi.json'' then Some (''GET'', OpenAPI)
      else if p = ''/metrics'' then Some (''GET'', MetricsPage)
      else if p = ''/dashboard'' then Some (''GET'', Dashboard)
      else if p = ''/run'' then Some (''POST'', RunEndpoint)
      else if p = ''/testcases'' then Some (''GET'', TestcasesList)
      else if pprof \<and> has_prefix p ''/debug/pprof/'' then Some (''GET'', Pprof p)
      else if pg \<and> p = ''/playground'' then Some (''GET'', PlaygroundRedirect)
      else if pg \<and> has_prefix p ''/playground/'' then
        Some (''GET'', PlaygroundFile (trim_prefix p ''/playground''))
      else (case split_char CHR ''/'' p of
              [e, t, l, n] \<Rightarrow>
                if e = [] \<and> t = ''testcases'' \<and> l \<noteq> [] \<and> n \<noteq> [] then Some (''GET'', TestcaseGet l n)
                else None
            | _ \<Rightarrow> None))"

datatype routed = NotFound | MethodNotAllowed string | Routed endpoint

definition route :: "bool \<Rightarrow> bool \<Rightarrow> string \<Rightarrow> string \<Rightarrow> routed" where
  "route pprof pg meth p =
     (case pattern_of pprof pg p of
        None \<Rightarrow> NotFound
      | Some (m, e) \<Rightarrow>
          if meth = m \<or> (m = ''GET'' \<and> meth = ''HEAD'') then Routed e else MethodNotAllowed m)"

text \<open>
  \<open>NewRouter\<close>: the handlers of the endpoints are \<open>serve\<close>, total functions here, so the recovery
  middleware only passes their response on. \<open>fresh\<close> and \<open>clock\<close> are the two sources of a request id.
\<close>

definition allow_header :: "string \<Rightarrow> string" where
  "allow_header m = (if m = ''GET'' then ''GET, HEAD'' else m)"

definition mux :: "bool \<Rightarrow> bool \<Rightarrow> (endpoint \<Rightarrow> handler) \<Rightarrow> handler" where
  "mux pprof pg serve r st =
     (case route pprof pg (Method r) (URLPath r) of
        NotFound \<Rightarrow> (http_error [] 404 ''404 page not found'', st)
      | MethodNotAllowed m \<Rightarrow>
          (http_error [(''Allow'', allow_header m)] 405 ''Method Not Allowed'', st)
      | Routed e \<Rightarrow> serve e r st)"

definition NewRouter ::
  "environ \<Rightarrow> rateLimitCfg \<Rightarrow> bool \<Rightarrow> string option \<Rightarrow> string \<Rightarrow> (endpoint \<Rightarrow> handler) \<Rightarrow> handler" where
  "NewRouter env cfg pg fresh clock serve =
     RecoveryMiddleware (\<lambda>r st.
       map_prod Some id
         (RequestIDMiddleware fresh clock
            (\<lambda>rid. LoggingMiddleware
               (newRateLimitMiddleware cfg (AuthMiddleware env (mux (env ''GOBOXD_PPROF'' = ''1'') pg serve))) rid)
            r st))"

section \<open>Facts\<close>

lemma join_char_app:
  "ys \<noteq> [] \<Longrightarrow> join_char d (xs @ ys) = concat (map (\<lambda>x. x @ d) xs) @ join_char d ys"
proof (induction xs)
  case (Cons x xs)
  then show ?case by (cases "xs @ ys") auto
qed simp

lemma contains_dots: "\<not> str_contains s ''..'' \<Longrightarrow> s \<noteq> ''..''"
  by (auto simp: go_simps)

lemma contains_slash: "\<not> str_contains s ''/'' \<Longrightarrow> CHR ''/'' \<notin> set s"
  by (auto simp: go_simps sublist_def in_set_conv_decomp)

text \<open>The paths of one testcase, for names that pass the check.\<close>

lemma testcase_path:
  assumes "l \<noteq> []" "n \<noteq> []" "f \<noteq> []" "f \<noteq> ''.''" "f \<noteq> ''..''" "CHR ''/'' \<notin> set f"
    and "\<not> str_contains l ''..''" "\<not> str_contains n ''..''" "\<not> str_contains l ''/''" "\<not> str_contains n ''/''"
  shows "path_join [testcasesDir, l, n, f] =
     ''/app/testcases/'' @ join_char ''/'' (filter (\<lambda>c. c \<noteq> ''.'') [l, n] @ [f])"
proof -
  let ?g = "l @ ''/'' @ n @ ''/'' @ f"
  have s: "split_char CHR ''/'' ?g = [l, n, f]"
    using assms contains_slash by (simp add: split_char_append)
  have d: "path_comps testcasesDir = [''app'', ''testcases'']" "testcasesDir \<noteq> []"
    by (simp_all add: testcasesDir_def path_comps_def)
  have "''..'' \<notin> set [l, n, f]" using assms contains_dots by auto
  with path_comps_down [OF d(2), of ?g] have
    "path_comps (testcasesDir @ ''/'' @ ?g) = [''app'', ''testcases''] @ filter (\<lambda>c. c \<noteq> ''.'') [l, n] @ [f]"
    unfolding s d using assms by simp
  then have "path_clean (testcasesDir @ ''/'' @ ?g) =
      ''/'' @ join_char ''/'' ([''app'', ''testcases''] @ (filter (\<lambda>c. c \<noteq> ''.'') [l, n] @ [f]))"
    by (simp add: path_clean_def testcasesDir_def)
  then show ?thesis
    using assms by (simp add: path_join_def join_char_app testcasesDir_def)
qed

lemma testcase_rest: "''..'' \<notin> set [l, n, f] \<Longrightarrow> ''..'' \<notin> set (filter (\<lambda>c. c \<noteq> ''.'') [l, n] @ [f])"
  by auto

lemma file_path_nonempty: "file_path p \<noteq> []"
  by (simp add: file_path_def Let_def)

lemma auth_rejects:
  assumes "is_run r" and "authConfig env = (token, origins)"
    and "(token \<noteq> [] \<and> Header r ''Authorization'' \<noteq> ''Bearer '' @ token) \<or>
      (Header r ''Origin'' \<noteq> [] \<and> Header r ''Origin'' \<notin> set origins)"
  shows "\<exists>c hs b. c \<in> {401, 403} \<and> AuthMiddleware env nxt r st = (Response c hs b, st)"
proof -
  have "\<not> validBearer (Header r ''Authorization'') token \<or> \<not> originAllowed (Header r ''Origin'') origins"
    using assms(3) validBearer_iff [of token "Header r ''Authorization''"] by (auto simp: originAllowed_iff)
  then show ?thesis using assms(1,2) by (auto simp: AuthMiddleware_def writeErrorStatus_def)
qed

lemma rate_then:
  assumes "is_run r" and "\<And>st'. \<exists>c hs b. c \<in> C \<and> nxt r st' = (Response c hs b, st')"
  shows "\<exists>c hs b st'. c \<in> insert 429 C \<and> newRateLimitMiddleware cfg nxt r st = (Response c hs b, st') \<and>
    srv st' = srv st \<and> access_log st' = access_log st"
proof -
  obtain ok rl where a: "allow cfg (clientIP r) (arrival r) (limiter st) = (ok, rl)" by fastforce
  obtain c hs b where n: "c \<in> C" "nxt r (st\<lparr>limiter := rl\<rparr>) = (Response c hs b, st\<lparr>limiter := rl\<rparr>)"
    using assms(2) by blast
  obtain c' hs' b' where n': "c' \<in> C" "nxt r st = (Response c' hs' b', st)" using assms(2) by blast
  show ?thesis
    using a n n' assms(1) by (auto simp: newRateLimitMiddleware_def writeErrorStatus_def)
qed

section \<open>Properties\<close>

text \<open>
  C26. Through the whole router, a \<open>POST /run\<close> without the configured bearer token, or from an origin
  that is not allowed, is answered 401, 403 or 429 whatever the endpoints do: the server state stays
  as it was, and the access log gets exactly one entry for it.
\<close>

theorem unauthenticated_run_rejected:
  assumes "is_run r" and "authConfig env = (token, origins)"
    and "(token \<noteq> [] \<and> Header r ''Authorization'' \<noteq> ''Bearer '' @ token) \<or>
      (Header r ''Origin'' \<noteq> [] \<and> Header r ''Origin'' \<notin> set origins)"
  shows "\<exists>entry. resp_code (fst (NewRouter env cfg pg fresh clock serve r st)) \<in> {401, 403, 429} \<and>
    srv (snd (NewRouter env cfg pg fresh clock serve r st)) = srv st \<and>
    access_log (snd (NewRouter env cfg pg fresh clock serve r st)) = access_log st @ [entry]"
proof -
  let ?mux = "mux (env ''GOBOXD_PPROF'' = ''1'') pg serve"
  have a: "\<And>st'. \<exists>c hs b. c \<in> {401, 403} \<and> AuthMiddleware env ?mux r st' = (Response c hs b, st')"
    by (rule auth_rejects [OF assms])
  from rate_then [of r "{401, 403}" "AuthMiddleware env ?mux" cfg st, OF assms(1) a] obtain c hs b st' where c: "c \<in> {401, 403, 429}"
    and w: "newRateLimitMiddleware cfg (AuthMiddleware env ?mux) r st = (Response c hs b, st')"
    and f: "srv st' = srv st" "access_log st' = access_log st" by blast
  let ?rid = "request_id fresh clock r"
  let ?e = "(Method r, URLPath r, c, if is_run r then resp_header ''X-Run-Status'' (Response c hs b) else [], ?rid)"
  have "NewRouter env cfg pg fresh clock serve r st =
      (Response c ((''X-Request-Id'', ?rid) # hs) b, st'\<lparr>access_log := access_log st' @ [?e]\<rparr>)"
    by (simp add: NewRouter_def RecoveryMiddleware_def RequestIDMiddleware_def LoggingMiddleware_def Let_def w)
  with c f show ?thesis by (intro exI [of _ ?e]) simp
qed

definition token_env :: environ where
  "token_env name = (if name = ''GOBOXD_AUTH_TOKEN'' then ''secret'' else [])"

theorem unauthenticated_run_rejected_witness:
  "\<exists>entry. resp_code (fst (NewRouter token_env \<lparr>rps = 0, burst = 0\<rparr> False None ''1''
        (\<lambda>e r st. (NoResponse, st)) run_request empty_state)) \<in> {401, 403, 429} \<and>
     srv (snd (NewRouter token_env \<lparr>rps = 0, burst = 0\<rparr> False None ''1''
        (\<lambda>e r st. (NoResponse, st)) run_request empty_state)) = srv empty_state \<and>
     access_log (snd (NewRouter token_env \<lparr>rps = 0, burst = 0\<rparr> False None ''1''
        (\<lambda>e r st. (NoResponse, st)) run_request empty_state)) = access_log empty_state @ [entry]"
proof (rule unauthenticated_run_rejected)
  show "is_run run_request" by (simp add: is_run_def run_request_def)
  show "authConfig token_env = (''secret'', [])" by code_simp
  show "(''secret'' \<noteq> [] \<and> Header run_request ''Authorization'' \<noteq> ''Bearer '' @ ''secret'') \<or>
      (Header run_request ''Origin'' \<noteq> [] \<and> Header run_request ''Origin'' \<notin> set [])"
    by (simp add: run_request_def)
qed

text \<open>
  C37. Whatever language and name a client puts into \<open>GET /testcases/{lang}/{name}\<close>, every file the
  handler opens lies below the testcase directory: its cleaned path is that directory followed by
  components none of which is \<open>..\<close> or contains a slash.
\<close>

theorem testcase_paths_confined:
  assumes "p \<in> set (snd (HandleTestcasesGet readFile lng name))"
  shows "\<exists>rest. p = testcasesDir @ ''/'' @ join_char ''/'' rest \<and> ''..'' \<notin> set rest \<and>
    (\<forall>c \<in> set rest. c \<noteq> [] \<and> CHR ''/'' \<notin> set c)"
proof -
  have g: "lng \<noteq> []" "name \<noteq> []" "\<not> str_contains lng ''..''" "\<not> str_contains name ''..''"
      "\<not> str_contains lng ''/''" "\<not> str_contains name ''/''"
    and "p = path_join [testcasesDir, lng, name, ''input.json''] \<or>
      p = path_join [testcasesDir, lng, name, ''want.json'']"
    using assms by (auto simp: HandleTestcasesGet_def Let_def split: if_splits option.splits)
  then obtain f where f: "f = ''input.json'' \<or> f = ''want.json''"
    and p: "p = path_join [testcasesDir, lng, name, f]" by blast
  have s: "CHR ''/'' \<notin> set f" "f \<noteq> []" "f \<noteq> ''.''" "f \<noteq> ''..''" using f by auto
  have "p = testcasesDir @ ''/'' @ join_char ''/'' (filter (\<lambda>c. c \<noteq> ''.'') [lng, name] @ [f])"
    unfolding p by (subst testcase_path) (use g s in \<open>simp_all add: testcasesDir_def\<close>)
  moreover have "''..'' \<notin> set (filter (\<lambda>c. c \<noteq> ''.'') [lng, name] @ [f])"
    using g(3,4) s(4) contains_dots by (intro testcase_rest) auto
  moreover have "\<forall>c \<in> set (filter (\<lambda>c. c \<noteq> ''.'') [lng, name] @ [f]). c \<noteq> [] \<and> CHR ''/'' \<notin> set c"
    using g s contains_slash by auto
  ultimately show ?thesis by blast
qed

theorem testcase_paths_confined_witness:
  "\<exists>rest. path_join [testcasesDir, ''c'', ''hello'', ''input.json''] = testcasesDir @ ''/'' @ join_char ''/'' rest \<and>
     ''..'' \<notin> set rest \<and> (\<forall>c \<in> set rest. c \<noteq> [] \<and> CHR ''/'' \<notin> set c)"
proof (rule testcase_paths_confined)
  have "\<not> str_contains ''c'' ''..''" "\<not> str_contains ''hello'' ''..''" "\<not> str_contains ''c'' ''/''"
    "\<not> str_contains ''hello'' ''/''" by code_simp+
  then show "path_join [testcasesDir, ''c'', ''hello'', ''input.json''] \<in>
      set (snd (HandleTestcasesGet (\<lambda>_. None) ''c'' ''hello''))"
    by (simp add: HandleTestcasesGet_def Let_def)
qed

end
