(* ===== verification/Presets.thy ===== *)
theory Presets
  imports Prelude
begin

text \<open>
  The two tables of the playground, \<open>LANGUAGES\<close> and \<open>PRESETS\<close> of \<^verbatim>\<open>playground/src/App.tsx\<close>, and the
  same tables in the bundle that is committed under \<^verbatim>\<open>internal/api/playground/assets\<close>. A program
  text is written as the list of its lines, with a back-quote for the double quote and a caret for
  the backslash (neither occurs in the tables); \<open>src\<close> decodes it.
\<close>

section \<open>Data\<close>

definition src_char :: "char \<Rightarrow> char" where
  "src_char c = (if c = CHR 0x60 then dquote else if c = CHR 0x5E then CHR 0x5C else c)"

definition src :: "string list \<Rightarrow> string" where
  "src ls = map src_char (join_char newline ls)"

record LangInfo =
  llabel :: string
  defaultCode :: string
  hasStdin :: bool
  monaco :: string

record Preset =
  plabel :: string
  psource :: string
  pstdin :: "string option"
  pexpected :: "string option"

type_synonym PresetMap = "(string \<times> Preset list) list"

section \<open>The languages\<close>

definition LANGUAGES :: "(string \<times> LangInfo) list" where
  "LANGUAGES =
     [(''bash'', \<lparr>llabel = ''Bash'',
         defaultCode = src [''echo `hello from bash`''],
         hasStdin = False, monaco = ''shell''\<rparr>),
      (''c'', \<lparr>llabel = ''C'',
         defaultCode = src [''#include <stdio.h>'', ''int main() {'',
                            ''  printf(`hello from c^n`);'', ''  return 0;'', ''}''],
         hasStdin = False, monaco = ''c''\<rparr>),
      (''cpp'', \<lparr>llabel = ''C++'',
         defaultCode = src [''#include <iostream>'', ''int main() {'',
                            ''  std::cout << `hello from c++` << std::endl;'', ''  return 0;'',
                            ''}''],
         hasStdin = False, monaco = ''cpp''\<rparr>),
      (''d'', \<lparr>llabel = ''D (GDC)'',
         defaultCode = src [''import std.stdio;'', ''void main() {'',
                            ''  writeln(`hello from d`);'', ''}''],
         hasStdin = False, monaco = ''cpp''\<rparr>),
      (''erl'', \<lparr>llabel = ''Erlang'',
         defaultCode = src [''-module(solution).'', ''-export([start/0]).'', ''start() ->'',
                            ''  io:format(`hello from erlang~n`).''],
         hasStdin = False, monaco = ''erlang''\<rparr>),
      (''go'', \<lparr>llabel = ''Go'',
         defaultCode = src [''package main'', ''import `fmt`'', ''func main() {'',
                            ''  fmt.Println(`hello from go`)'', ''}''],
         hasStdin = False, monaco = ''go''\<rparr>),
      (''haskell'', \<lparr>llabel = ''Haskell'',
         defaultCode = src [''main = putStrLn `hello from haskell`''],
         hasStdin = False, monaco = ''haskell''\<rparr>),
      (''java'', \<lparr>llabel = ''Java'',
         defaultCode = src [''public class Main {'',
                            ''  public static void main(String[] args) {'',
                            ''    System.out.println(`hello from java`);'', ''  }'', ''}''],
         hasStdin = False, monaco = ''java''\<rparr>),
      (''js'', \<lparr>llabel = ''JavaScript (Node)'',
         defaultCode = src [''console.log(`hello from node`);''],
         hasStdin = True, monaco = ''javascript''\<rparr>),
      (''lisp'', \<lparr>llabel = ''Lisp (SBCL)'',
         defaultCode = src [''(format t `hello from lisp~%`)''],
         hasStdin = False, monaco = ''lisp''\<rparr>),
      (''lua'', \<lparr>llabel = ''Lua (LuaJIT)'',
         defaultCode = src [''print(`hello from lua`)''],
         hasStdin = False, monaco = ''lua''\<rparr>),
      (''ocaml'', \<lparr>llabel = ''OCaml'',
         defaultCode = src [''print_string `hello from ocaml^n`''],
         hasStdin = False, monaco = ''ocaml''\<rparr>),
      (''perl'', \<lparr>llabel = ''Perl'',
         defaultCode = src [''print `hello from perl^n`''],
         hasStdin = False, monaco = ''perl''\<rparr>),
      (''py3'', \<lparr>llabel = ''Python 3'',
         defaultCode = src [''print(`hello from python 3`)''],
         hasStdin = True, monaco = ''python''\<rparr>),
      (''r'', \<lparr>llabel = ''R'',
         defaultCode = src [''cat(`hello from r^n`)''],
         hasStdin = True, monaco = ''r''\<rparr>),
      (''rust'', \<lparr>llabel = ''Rust'',
         defaultCode = src [''fn main() {'', ''  println!(`hello from rust`);'', ''}''],
         hasStdin = False, monaco = ''rust''\<rparr>),
      (''verilog'', \<lparr>llabel = ''Verilog'',
         defaultCode = src [''module hello;'', ''initial begin'',
                            ''  $display(`hello from verilog`);'', ''  $finish;'', ''end'',
                            ''endmodule''],
         hasStdin = False, monaco = ''verilog''\<rparr>)]"


section \<open>The presets\<close>

definition presets_py3 :: "Preset list" where
  "presets_py3 =
     [\<lparr>plabel = ''hello world'',
         psource = src [''print(`hello world`)''],
         pstdin = Some [], pexpected = Some (src [''hello world'', []])\<rparr>,
      \<lparr>plabel = ''fibonacci'',
         psource = src [''def fib(n):'', ''  a, b = 0, 1'', ''  for _ in range(n):'',
                        ''    print(a)'', ''    a, b = b, a+b'', [], ''fib(10)''],
         pstdin = Some [], pexpected = Some []\<rparr>,
      \<lparr>plabel = ''[bad] infinite loop'',
         psource = src [''import time'', ''while True:'', ''  time.sleep(1)''],
         pstdin = None, pexpected = None\<rparr>,
      \<lparr>plabel = ''[bad] memory bomb'',
         psource = src [''l = []'', ''while True:'', ''  l.append(`a` * 1024 * 1024)''],
         pstdin = None, pexpected = None\<rparr>,
      \<lparr>plabel = ''[bad] recursion depth'',
         psource = src [''def f():'', ''  f()'', ''f()''],
         pstdin = None, pexpected = None\<rparr>,
      \<lparr>plabel = ''[lc easy] two sum'',
         psource = src [''def two_sum(nums, target):'', ''  seen = {}'',
                        ''  for i, v in enumerate(nums):'', ''    need = target - v'',
                        ''    if need in seen:'', ''      return [seen[need], i]'',
                        ''    seen[v] = i'', ''  return []'', [],
                        ''print(two_sum([2,7,11,15], 9))''],
         pstdin = None, pexpected = None\<rparr>,
      \<lparr>plabel = ''[lc easy] fizzbuzz'',
         psource = src [''def fizzbuzz(n):'', ''  for i in range(1, n+1):'',
                        ''    if i % 15 == 0: print(`FizzBuzz`)'',
                        ''    elif i % 3 == 0: print(`Fizz`)'',
                        ''    elif i % 5 == 0: print(`Buzz`)'', ''    else: print(i)'', [],
                        ''fizzbuzz(15)''],
         pstdin = None, pexpected = None\<rparr>,
      \<lparr>plabel = ''[lc medium] reverse linked list'',
         psource = src [''class ListNode:'', ''  def __init__(self, val=0, next=None):'',
                        ''    self.val = val'', ''    self.next = next'', [],
                        ''def reverseList(head):'', ''  prev = None'', ''  curr = head'',
                        ''  while curr:'', ''    nxt = curr.next'', ''    curr.next = prev'',
                        ''    prev = curr'', ''    curr = nxt'', ''  return prev'', [],
                        ''# build 1->2->3->None'',
                        ''head = ListNode(1, ListNode(2, ListNode(3)))'',
                        ''result = reverseList(head)'', ''while result:'',
                        ''  print(result.val, end=` `)'', ''  result = result.next'', ''print()''],
         pstdin = None, pexpected = None\<rparr>,
      \<lparr>plabel = ''[lc medium] valid parentheses'',
         psource = src [''def isValid(s):'', ''  pairs = {`)`:`(`, `]`:`[`, `}`:`{`}'',
                        ''  stack = []'', ''  for c in s:'', ''    if c in pairs:'',
                        ''      if not stack or stack.pop() != pairs[c]:'',
                        ''        return False'', ''    else:'', ''      stack.append(c)'',
                        ''  return len(stack) == 0'', [], ''print(isValid(`()[]{}`))'',
                        ''print(isValid(`([)]`))'', ''print(isValid(`{[]}`))''],
         pstdin = None, pexpected = None\<rparr>]"

definition presets_c :: "Preset list" where
  "presets_c =
     [\<lparr>plabel = ''hello world'',
         psource = src [''#include <stdio.h>'', ''int main() {'', ''  printf(`hello world^n`);'',
                        ''  return 0;'', ''}''],
         pstdin = Some [], pexpected = Some (src [''hello world'', []])\<rparr>,
      \<lparr>plabel = ''fibonacci'',
         psource = src [''#include <stdio.h>'', ''int fib(int n) {'',
                        ''  if (n <= 1) return n;'', ''  return fib(n-1) + fib(n-2);'', ''}'',
                        ''int main() {'', ''  for (int i = 0; i < 10; i++)'',
                        ''    printf(`%d^n`, fib(i));'', ''  return 0;'', ''}''],
         pstdin = None, pexpected = None\<rparr>,
      \<lparr>plabel = ''[bad] segfault'',
         psource = src [''#include <stdio.h>'', ''int main() {'', ''  int *p = NULL;'',
                        ''  *p = 42;'', ''  printf(`this wont print^n`);'', ''  return 0;'', ''}''],
         pstdin = None, pexpected = None\<rparr>,
      \<lparr>plabel = ''[bad] infinite loop'',
         psource = src [''#include <stdio.h>'', ''int main() {'', ''  for(;;);'',
                        ''  return 0;'', ''}''],
         pstdin = None, pexpected = None\<rparr>,
      \<lparr>plabel = ''[bad] stack overflow'',
         psource = src [''void f() { f(); }'', ''int main() { f(); return 0; }''],
         pstdin = None, pexpected = None\<rparr>,
      \<lparr>plabel = ''[bad] buffer overflow'',
         psource = src [''#include <stdio.h>'', ''#include <string.h>'', ''int main() {'',
                        ''  char buf[4];'', ''  strcpy(buf, `this is way too long`);'',
                        ''  printf(`%s^n`, buf);'', ''  return 0;'', ''}''],
         pstdin = None, pexpected = None\<rparr>]"

definition presets_cpp :: "Preset list" where
  "presets_cpp =
     [\<lparr>plabel = ''hello world'',
         psource = src [''#include <iostream>'', ''int main() {'',
                        ''  std::cout << `hello world` << std::endl;'', ''  return 0;'', ''}''],
         pstdin = Some [], pexpected = Some (src [''hello world'', []])\<rparr>,
      \<lparr>plabel = ''[bad] segfault'',
         psource = src [''#include <iostream>'', ''int main() {'', ''  int* p = nullptr;'',
                        ''  *p = 42;'', ''  std::cout << `crash` << std::endl;'',
                        ''  return 0;'', ''}''],
         pstdin = None, pexpected = None\<rparr>,
      \<lparr>plabel = ''[bad] infinite loop'',
         psource = src [''#include <iostream>'', ''int main() {'', ''  while(true) {}'',
                        ''  return 0;'', ''}''],
         pstdin = None, pexpected = None\<rparr>,
      \<lparr>plabel = ''[bad] abort'',
         psource = src [''#include <cstdlib>'', ''int main() {'', ''  abort();'',
                        ''  return 0;'', ''}''],
         pstdin = None, pexpected = None\<rparr>]"

definition presets_java :: "Preset list" where
  "presets_java =
     [\<lparr>plabel = ''hello world'',
         psource = src [''public class Main {'', ''  public static void main(String[] args) {'',
                        ''    System.out.println(`hello world`);'', ''  }'', ''}''],
         pstdin = Some [], pexpected = Some (src [''hello world'', []])\<rparr>,
      \<lparr>plabel = ''MemoryHog 10MB'',
         psource = src [''public class Main {'',
                        ''    public static void main(String[] args) throws InterruptedException {'',
                        ''        final int megabytes = 10;'',
                        ''        final int blockSize = 1 << 20;'',
                        ''        final byte[][] blocks = new byte[megabytes][];'', [],
                        ''        long checksum = 0;'', [],
                        ''        for (int i = 0; i < megabytes; i++) {'',
                        ''            byte[] block = new byte[blockSize];'',
                        ''            for (int j = 0; j < blockSize; j += 4096) {'',
                        ''                block[j] = (byte) (i * 31 + j);'',
                        ''                checksum += block[j];'', ''            }'',
                        ''            blocks[i] = block;'', ''        }'', [],
                        ''        for (byte[] block : blocks) {'',
                        ''            for (int j = 0; j < block.length; j += 512) {'',
                        ''                checksum += block[j];'', ''            }'',
                        ''        }'', [], ''        Thread.sleep(100);'',
                        ''        System.out.println(`MemoryHog OK mb=` + megabytes + ` checksum=` + checksum);'',
                        ''    }'', ''}''],
         pstdin = None, pexpected = None\<rparr>,
      \<lparr>plabel = ''[bad] null pointer'',
         psource = src [''public class Main {'', ''  public static void main(String[] args) {'',
                        ''    Object o = null;'', ''    o.toString();'', ''  }'', ''}''],
         pstdin = None, pexpected = None\<rparr>,
      \<lparr>plabel = ''[bad] infinite loop'',
         psource = src [''public class Main {'', ''  public static void main(String[] args) {'',
                        ''    while(true) {}'', ''  }'', ''}''],
         pstdin = None, pexpected = None\<rparr>,
      \<lparr>plabel = ''[bad] stack overflow'',
         psource = src [''public class Main {'', ''  static void f() { f(); }'',
                        ''  public static void main(String[] args) {'', ''    f();'', ''  }'',
                        ''}''],
         pstdin = None, pexpected = None\<rparr>]"

definition presets_bash :: "Preset list" where
  "presets_bash =
     [\<lparr>plabel = ''hello world'',
         psource = src [''echo `hello world`''],
         pstdin = Some [], pexpected = Some (src [''hello world'', []])\<rparr>,
      \<lparr>plabel = ''count'',
         psource = src [''for i in 1 2 3; do'', ''echo `line $i`'', ''done''],
         pstdin = Some [], pexpected = Some (src [''line 1'', ''line 2'', ''line 3'', []])\<rparr>,
      \<lparr>plabel = ''[bad] fork bomb'',
         psource = src [''f() { f|f & }; f''],
         pstdin = None, pexpected = None\<rparr>]"

definition presets_js :: "Preset list" where
  "presets_js =
     [\<lparr>plabel = ''hello world'',
         psource = src [''console.log(`hello world`);''],
         pstdin = Some [], pexpected = Some (src [''hello world'', []])\<rparr>,
      \<lparr>plabel = ''fibonacci'',
         psource = src [''function fib(n) {'', ''  if (n <= 1) return n;'',
                        ''  return fib(n-1) + fib(n-2);'', ''}'',
                        ''for (let i = 0; i < 10; i++) {'', ''  console.log(fib(i));'', ''}''],
         pstdin = None, pexpected = None\<rparr>,
      \<lparr>plabel = ''[bad] infinite loop'',
         psource = src [''while(true) {}''],
         pstdin = None, pexpected = None\<rparr>,
      \<lparr>plabel = ''[bad] memory bomb'',
         psource = src [''const arr = [];'', ''while (true) {'',
                        ''  arr.push(`x`.repeat(1024*1024));'', ''}''],
         pstdin = None, pexpected = None\<rparr>]"

definition presets_verilog :: "Preset list" where
  "presets_verilog =
     [\<lparr>plabel = ''hello world'',
         psource = src [''module hello;'', ''initial begin'', ''  $display(`hello world`);'',
                        ''  $finish;'', ''end'', ''endmodule''],
         pstdin = Some [], pexpected = Some (src [''hello world'', []])\<rparr>,
      \<lparr>plabel = ''counter'',
         psource = src [''module counter;'', ''reg [3:0] count;'', ''initial begin'',
                        ''  for (count = 0; count < 10; count = count + 1)'',
                        ''    $display(`count = %d`, count);'', ''  $finish;'', ''end'',
                        ''endmodule''],
         pstdin = None, pexpected = None\<rparr>]"

definition presets_rust :: "Preset list" where
  "presets_rust =
     [\<lparr>plabel = ''hello world'',
         psource = src [''fn main() {'', ''  println!(`hello world`);'', ''}''],
         pstdin = Some [], pexpected = Some (src [''hello world'', []])\<rparr>,
      \<lparr>plabel = ''fibonacci'',
         psource = src [''fn fib(n: u64) -> u64 {'', ''  match n {'', ''    0 | 1 => n,'',
                        ''    _ => fib(n-1) + fib(n-2),'', ''  }'', ''}'', ''fn main() {'',
                        ''  for i in 0..10 {'', ''    println!(`{}`, fib(i));'', ''  }'', ''}''],
         pstdin = None, pexpected = None\<rparr>,
      \<lparr>plabel = ''fizzbuzz'',
         psource = src [''fn main() {'', ''  for i in 1..=15 {'',
                        ''    if i % 15 == 0 { println!(`FizzBuzz`); }'',
                        ''    else if i % 3 == 0 { println!(`Fizz`); }'',
                        ''    else if i % 5 == 0 { println!(`Buzz`); }'',
                        ''    else { println!(`{}`, i); }'', ''  }'', ''}''],
         pstdin = None, pexpected = None\<rparr>,
      \<lparr>plabel = ''[bad] panic'',
         psource = src [''fn main() {'', ''  panic!(`crash`);'', ''}''],
         pstdin = None, pexpected = None\<rparr>,
      \<lparr>plabel = ''[bad] infinite loop'',
         psource = src [''fn main() {'', ''  loop {}''],
         pstdin = None, pexpected = None\<rparr>,
      \<lparr>plabel = ''[bad] stack overflow'',
         psource = src [''fn f() { f() }'', ''fn main() { f() }''],
         pstdin = None, pexpected = None\<rparr>]"

definition presets_go :: "Preset list" where
  "presets_go =
     [\<lparr>plabel = ''hello world'',
         psource = src [''package main'', ''import `fmt`'', ''func main() {'',
                        ''  fmt.Println(`hello world`)'', ''}''],
         pstdin = Some [], pexpected = Some (src [''hello world'', []])\<rparr>,
      \<lparr>plabel = ''fibonacci'',
         psource = src [''package main'', ''import `fmt`'', ''func fib(n int) int {'',
                        ''  if n <= 1 { return n }'', ''  return fib(n-1) + fib(n-2)'', ''}'',
                        ''func main() {'', ''  for i := 0; i < 10; i++ {'',
                        ''    fmt.Println(fib(i))'', ''  }'', ''}''],
         pstdin = None, pexpected = None\<rparr>,
      \<lparr>plabel = ''fizzbuzz'',
         psource = src [''package main'', ''import `fmt`'', ''func main() {'',
                        ''  for i := 1; i <= 15; i++ {'',
                        ''    if i%15 == 0 { fmt.Println(`FizzBuzz`) }'',
                        ''    else if i%3 == 0 { fmt.Println(`Fizz`) }'',
                        ''    else if i%5 == 0 { fmt.Println(`Buzz`) }'',
                        ''    else { fmt.Println(i) }'', ''  }'', ''}''],
         pstdin = None, pexpected = None\<rparr>,
      \<lparr>plabel = ''[bad] nil deref'',
         psource = src [''package main'', ''func main() {'', ''  var p *int'', ''  *p = 42'',
                        ''}''],
         pstdin = None, pexpected = None\<rparr>,
      \<lparr>plabel = ''[bad] infinite loop'',
         psource = src [''package main'', ''func main() {'', ''  for {}''],
         pstdin = None, pexpected = None\<rparr>]"

definition presets_haskell :: "Preset list" where
  "presets_haskell =
     [\<lparr>plabel = ''hello world'',
         psource = src [''main = putStrLn `hello world`''],
         pstdin = Some [], pexpected = Some (src [''Hello from Haskell!'', []])\<rparr>,
      \<lparr>plabel = ''fibonacci'',
         psource = src [''fib 0 = 0'', ''fib 1 = 1'', ''fib n = fib (n-1) + fib (n-2)'',
                        ''main = mapM_ (print . fib) [0..9]''],
         pstdin = None, pexpected = None\<rparr>,
      \<lparr>plabel = ''[bad] infinite loop'',
         psource = src [''main = forever $ putStrLn `looping`''],
         pstdin = None, pexpected = None\<rparr>]"

definition presets_ocaml :: "Preset list" where
  "presets_ocaml =
     [\<lparr>plabel = ''hello world'',
         psource = src [''print_string `hello world^n`''],
         pstdin = Some [], pexpected = Some (src [''hello world'', []])\<rparr>,
      \<lparr>plabel = ''fibonacci'',
         psource = src [''let rec fib n ='', ''  if n <= 1 then n'',
                        ''  else fib (n-1) + fib (n-2)'', ''let () ='', ''  for i = 0 to 9 do'',
                        ''    print_int (fib i);'', ''    print_newline ()'', ''  done''],
         pstdin = None, pexpected = None\<rparr>,
      \<lparr>plabel = ''[bad] division by zero'',
         psource = src [''let () ='', ''  let x = 1 / 0 in'', ''  print_int x''],
         pstdin = None, pexpected = None\<rparr>]"

definition presets_r :: "Preset list" where
  "presets_r =
     [\<lparr>plabel = ''hello world'',
         psource = src [''cat(`hello world^n`)''],
         pstdin = Some [], pexpected = Some (src [''hello world'', []])\<rparr>,
      \<lparr>plabel = ''fibonacci'',
         psource = src [''fib <- function(n) {'', ''  if (n <= 1) return(n)'',
                        ''  fib(n-1) + fib(n-2)'', ''}'', ''for (i in 0:9) {'',
                        ''  cat(fib(i), `^n`)'', ''}''],
         pstdin = None, pexpected = None\<rparr>,
      \<lparr>plabel = ''mean'',
         psource = src [''numbers <- c(1, 2, 3, 4, 5)'', ''cat(`mean:`, mean(numbers), `^n`)'',
                        ''cat(`sum:`, sum(numbers), `^n`)''],
         pstdin = None, pexpected = None\<rparr>,
      \<lparr>plabel = ''[bad] crash'',
         psource = src [''this will crash''],
         pstdin = None, pexpected = None\<rparr>]"

definition presets_d :: "Preset list" where
  "presets_d =
     [\<lparr>plabel = ''hello world'',
         psource = src [''import std.stdio;'', ''void main() {'', ''  writeln(`hello world`);'',
                        ''}''],
         pstdin = Some [], pexpected = Some (src [''hello world'', []])\<rparr>,
      \<lparr>plabel = ''fibonacci'',
         psource = src [''import std.stdio;'', ''int fib(int n) {'', ''  if (n <= 1) return n;'',
                        ''  return fib(n-1) + fib(n-2);'', ''}'', ''void main() {'',
                        ''  foreach (i; 0..10)'', ''    writeln(fib(i));'', ''}''],
         pstdin = None, pexpected = None\<rparr>,
      \<lparr>plabel = ''[bad] null deref'',
         psource = src [''import std.stdio;'', ''void main() {'', ''  int* p = null;'',
                        ''  *p = 42;'', ''}''],
         pstdin = None, pexpected = None\<rparr>]"

definition presets_lua :: "Preset list" where
  "presets_lua =
     [\<lparr>plabel = ''hello world'',
         psource = src [''print(`hello world`)''],
         pstdin = Some [], pexpected = Some (src [''hello world'', []])\<rparr>,
      \<lparr>plabel = ''fibonacci'',
         psource = src [''function fib(n)'', ''  if n <= 1 then return n end'',
                        ''  return fib(n-1) + fib(n-2)'', ''end'', ''for i = 0, 9 do'',
                        ''  print(fib(i))'', ''end''],
         pstdin = None, pexpected = None\<rparr>,
      \<lparr>plabel = ''[bad] infinite loop'',
         psource = src [''while true do end''],
         pstdin = None, pexpected = None\<rparr>,
      \<lparr>plabel = ''[bad] crash'',
         psource = src [''this will crash''],
         pstdin = None, pexpected = None\<rparr>]"

definition presets_perl :: "Preset list" where
  "presets_perl =
     [\<lparr>plabel = ''hello world'',
         psource = src [''print `hello world^n`''],
         pstdin = Some [], pexpected = Some (src [''hello world'', []])\<rparr>,
      \<lparr>plabel = ''fibonacci'',
         psource = src [''sub fib {'', ''  my $n = shift;'', ''  return $n if $n <= 1;'',
                        ''  fib($n-1) + fib($n-2);'', ''}'', ''foreach my $i (0..9) {'',
                        ''  print fib($i) . `^n`;'', ''}''],
         pstdin = None, pexpected = None\<rparr>,
      \<lparr>plabel = ''[bad] crash'',
         psource = src [''this will crash''],
         pstdin = None, pexpected = None\<rparr>]"

definition presets_erl :: "Preset list" where
  "presets_erl =
     [\<lparr>plabel = ''hello world'',
         psource = src [''-module(solution).'', ''-export([start/0]).'', ''start() ->'',
                        ''  io:format(`hello world~n`).''],
         pstdin = Some [], pexpected = Some (src [''hello world'', []])\<rparr>,
      \<lparr>plabel = ''fibonacci'',
         psource = src [''-module(solution).'', ''-export([start/0]).'', [], ''fib(0) -> 0;'',
                        ''fib(1) -> 1;'', ''fib(N) -> fib(N-1) + fib(N-2).'', [], ''start() ->'',
                        ''  lists:foreach('', ''    fun(I) -> io:format(`~p~n`, [fib(I)]) end,'',
                        ''    lists:seq(0, 9)'', ''  ).''],
         pstdin = None, pexpected = None\<rparr>,
      \<lparr>plabel = ''[bad] crash'',
         psource = src [''-module(solution).'', ''-export([start/0]).'', ''start() ->'',
                        ''  1 / 0.''],
         pstdin = None, pexpected = None\<rparr>]"

definition presets_lisp :: "Preset list" where
  "presets_lisp =
     [\<lparr>plabel = ''hello world'',
         psource = src [''(format t `hello world~%`)''],
         pstdin = Some [], pexpected = Some (src [''hello world'', []])\<rparr>,
      \<lparr>plabel = ''fibonacci'',
         psource = src [''(defun fib (n)'', ''  (if (<= n 1)'', ''      n'',
                        ''      (+ (fib (- n 1)) (fib (- n 2)))))'', [], ''(dotimes (i 10)'',
                        ''  (format t `~a~%` (fib i)))''],
         pstdin = None, pexpected = None\<rparr>,
      \<lparr>plabel = ''[bad] crash'',
         psource = src [''(error `this is a crash`)''],
         pstdin = None, pexpected = None\<rparr>]"

definition PRESETS :: PresetMap where
  "PRESETS =
     [(''py3'', presets_py3),
      (''c'', presets_c),
      (''cpp'', presets_cpp),
      (''java'', presets_java),
      (''bash'', presets_bash),
      (''js'', presets_js),
      (''verilog'', presets_verilog),
      (''rust'', presets_rust),
      (''go'', presets_go),
      (''haskell'', presets_haskell),
      (''ocaml'', presets_ocaml),
      (''r'', presets_r),
      (''d'', presets_d),
      (''lua'', presets_lua),
      (''perl'', presets_perl),
      (''erl'', presets_erl),
      (''lisp'', presets_lisp)]"


section \<open>The committed bundle\<close>

text \<open>
  The bundle's language table has the same entries in another order, without Erlang and Lisp; its
  preset table has the same lists, without one of the Java presets.
\<close>

definition bundle_LANGUAGES :: "(string \<times> LangInfo) list" where
  "bundle_LANGUAGES =
     map (\<lambda>k. (k, the (map_of LANGUAGES k)))
       [''py3'', ''c'', ''cpp'', ''java'', ''bash'', ''js'', ''verilog'', ''rust'', ''go'',
        ''haskell'', ''ocaml'', ''r'', ''d'', ''lua'', ''perl'']"

definition bundle_presets_head :: PresetMap where
  "bundle_presets_head =
     [(''py3'', presets_py3),
      (''c'', presets_c),
      (''cpp'', presets_cpp),
      (''java'', filter (\<lambda>p. plabel p \<noteq> ''MemoryHog 10MB'') presets_java)]"

definition bundle_presets_tail :: PresetMap where
  "bundle_presets_tail =
     [(''bash'', presets_bash),
      (''js'', presets_js),
      (''verilog'', presets_verilog),
      (''rust'', presets_rust),
      (''go'', presets_go),
      (''haskell'', presets_haskell),
      (''ocaml'', presets_ocaml),
      (''r'', presets_r),
      (''d'', presets_d),
      (''lua'', presets_lua),
      (''perl'', presets_perl)]"

definition bundle_PRESETS :: PresetMap where
  "bundle_PRESETS = bundle_presets_head @ bundle_presets_tail"

end
