(* ===== verification/Playground.thy ===== *)
theory Playground
  imports Presets "HOL-Library.Char_ord" "HOL-Library.List_Lexorder"
begin

text \<open>
  The playground, \<^verbatim>\<open>playground/src/App.tsx\<close>: a React component whose state is the record \<open>app\<close>, one
  field per \<open>useState\<close>, plus the requests it has in flight. \<open>view\<close> renders a state, with the event
  handlers of the code as actions; \<open>act\<close> is what a handler does; \<open>ui_step\<close> lets the user fire a
  handler of the rendered page and the network answer, in any order. Values that come from
  \<open>JSON.parse\<close> are the type \<open>js\<close>; numbers are integers. Constant styling is left out, styling that
  depends on the state is kept. Objects have only their own properties: keys inherited from
  \<open>Object.prototype\<close> play no part.
\<close>

section \<open>JavaScript values\<close>

datatype js = JUndef | JNull | JBool bool | JNum int | JStr string | JArr "js list"
  | JObj "(string \<times> js) list"

text \<open>An expression may throw: \<open>Inl\<close> is the exception's message.\<close>

type_synonym 'a js_result = "string + 'a"

definition js_bind :: "'a js_result \<Rightarrow> ('a \<Rightarrow> 'b js_result) \<Rightarrow> 'b js_result" where
  "js_bind r f = (case r of Inl e \<Rightarrow> Inl e | Inr v \<Rightarrow> f v)"

definition quote :: "string \<Rightarrow> string" where
  "quote s = [squote] @ s @ [squote]"

fun js_get :: "js \<Rightarrow> string \<Rightarrow> js js_result" where
  "js_get JUndef p = Inl (''Cannot read properties of undefined (reading '' @ quote p @ '')'')"
| "js_get JNull p = Inl (''Cannot read properties of null (reading '' @ quote p @ '')'')"
| "js_get (JObj fs) p = Inr (case map_of fs p of None \<Rightarrow> JUndef | Some v \<Rightarrow> v)"
| "js_get (JArr xs) p = Inr (if p = ''length'' then JNum (int (length xs)) else JUndef)"
| "js_get (JStr s) p = Inr (if p = ''length'' then JNum (int (length s)) else JUndef)"
| "js_get (JBool b) p = Inr JUndef"
| "js_get (JNum n) p = Inr JUndef"

fun js_index :: "js \<Rightarrow> nat \<Rightarrow> js js_result" where
  "js_index (JArr xs) i = Inr (if i < length xs then xs ! i else JUndef)"
| "js_index (JStr s) i = Inr (if i < length s then JStr [s ! i] else JUndef)"
| "js_index v i = js_get v (nat_str i)"

fun truthy :: "js \<Rightarrow> bool" where
  "truthy JUndef = False"
| "truthy JNull = False"
| "truthy (JBool b) = b"
| "truthy (JNum n) = (n \<noteq> 0)"
| "truthy (JStr s) = (s \<noteq> [])"
| "truthy (JArr xs) = True"
| "truthy (JObj fs) = True"

text \<open>The string a value becomes in a concatenation.\<close>

fun js_str :: "js \<Rightarrow> string"
  and js_item :: "js \<Rightarrow> string"
  and js_items :: "js list \<Rightarrow> string list" where
  "js_str JUndef = ''undefined''"
| "js_str JNull = ''null''"
| "js_str (JBool b) = (if b then ''true'' else ''false'')"
| "js_str (JNum n) = Itoa n"
| "js_str (JStr s) = s"
| "js_str (JArr xs) = join_char '','' (js_items xs)"
| "js_str (JObj fs) = ''[object Object]''"
| "js_item v = (case v of JUndef \<Rightarrow> [] | JNull \<Rightarrow> [] | _ \<Rightarrow> js_str v)"
| "js_items [] = []"
| "js_items (x # xs) = js_item x # js_items xs"

text \<open>Strict equality of two values from different sources: no two objects are the same object.\<close>

fun js_eq :: "js \<Rightarrow> js \<Rightarrow> bool" where
  "js_eq (JArr xs) w = False"
| "js_eq (JObj fs) w = False"
| "js_eq v w = (v = w)"

text \<open>\<open>v > 0\<close>; a string is read as a decimal integer.\<close>

fun js_pos :: "js \<Rightarrow> bool" where
  "js_pos (JNum n) = (n > 0)"
| "js_pos (JBool b) = b"
| "js_pos JUndef = False"
| "js_pos JNull = False"
| "js_pos v = (case Atoi (TrimSpace (js_str v)) of Some n \<Rightarrow> n > 0 | None \<Rightarrow> False)"

text \<open>Calling a string method \<open>m\<close> of the value of the expression \<open>expr\<close>.\<close>

fun js_method :: "string \<Rightarrow> string \<Rightarrow> js \<Rightarrow> string js_result" where
  "js_method expr m (JStr s) = Inr s"
| "js_method expr m JUndef = Inl (''Cannot read properties of undefined (reading '' @ quote m @ '')'')"
| "js_method expr m JNull = Inl (''Cannot read properties of null (reading '' @ quote m @ '')'')"
| "js_method expr m v = Inl (expr @ ''.'' @ m @ '' is not a function'')"

text \<open>\<open>map\<close> with a callback that may throw.\<close>

fun js_map :: "('a \<Rightarrow> 'b js_result) \<Rightarrow> 'a list \<Rightarrow> 'b list js_result" where
  "js_map f [] = Inr []"
| "js_map f (x # xs) = js_bind (f x) (\<lambda>y. js_bind (js_map f xs) (\<lambda>ys. Inr (y # ys)))"

lemma js_map_mem: "js_map f xs = Inr ys \<Longrightarrow> y \<in> set ys \<Longrightarrow> \<exists>x \<in> set xs. f x = Inr y"
  by (induction xs arbitrary: ys) (auto simp: js_bind_def split: sum.splits)

definition js_or :: "js \<Rightarrow> string \<Rightarrow> string" where
  "js_or v dflt = (if truthy v then js_str v else dflt)"

fun toLower :: "char \<Rightarrow> char" where
  "toLower c = (if (65::nat) \<le> of_char c \<and> of_char c \<le> (90::nat) then char_of (of_char c + (32::nat)) else c)"

section \<open>Presets\<close>

definition name_at :: "string \<Rightarrow> nat \<Rightarrow> string" where
  "name_at label idx = (if idx = 1 then label else label @ '' ('' @ nat_str idx @ '')'')"

lemma name_at_inj: "name_at l i = name_at l j \<Longrightarrow> i = j"
  by (auto simp: name_at_def nat_str_inj split: if_splits)

lemma name_at_finite: "finite {k. i \<le> k \<and> name_at l k \<in> set taken}"
proof (rule finite_subset)
  show "{k. i \<le> k \<and> name_at l k \<in> set taken} \<subseteq> name_at l -` set taken" by auto
  show "finite (name_at l -` set taken)"
    by (rule finite_vimageI) (auto simp: inj_def dest: name_at_inj)
qed

text \<open>The while loop of \<open>flattenPresets\<close>: it ends because the names it tries are all different.\<close>

function uniq_name :: "string list \<Rightarrow> string \<Rightarrow> nat \<Rightarrow> string" where
  "uniq_name taken label idx =
     (if name_at label idx \<in> set taken then uniq_name taken label (Suc idx) else name_at label idx)"
  by pat_completeness auto
termination
proof (relation "measure (\<lambda>(taken, label, idx). card {k. idx \<le> k \<and> name_at label k \<in> set taken})")
  fix taken label idx
  assume t: "name_at label idx \<in> set taken"
  have "{k. Suc idx \<le> k \<and> name_at label k \<in> set taken} \<subset> {k. idx \<le> k \<and> name_at label k \<in> set taken}"
    using t by (auto simp: psubset_eq set_eq_iff intro: exI [of _ idx])
  then show "((taken, label, Suc idx), taken, label, idx)
      \<in> measure (\<lambda>(taken, label, idx). card {k. idx \<le> k \<and> name_at label k \<in> set taken})"
    by (simp add: psubset_card_mono name_at_finite)
qed simp

declare uniq_name.simps [simp del]

fun flatten_loop :: "(string \<times> Preset) list \<Rightarrow> Preset list \<Rightarrow> (string \<times> Preset) list" where
  "flatten_loop result [] = result"
| "flatten_loop result (p # ps) =
     flatten_loop (result @ [(uniq_name (map fst result) (plabel p) 1, p)]) ps"

definition flattenPresets :: "PresetMap \<Rightarrow> string \<Rightarrow> (string \<times> Preset) list" where
  "flattenPresets ps lang = flatten_loop [] (case map_of ps lang of None \<Rightarrow> [] | Some l \<Rightarrow> l)"

section \<open>State\<close>

datatype page = Play | Bench | TestsPage

record app =
  lang :: string
  code :: string
  stdin :: string
  outputText :: string
  rawJson :: js
  showRaw :: bool
  loading :: bool
  page_of :: page
  testcases :: js
  selectedTc :: js
  testResult :: "(js \<times> js) option"
  testOutput :: string
  testLoading :: bool
  tcFilter :: string
  pending_run :: "string option"
  pending_tc :: "js option"
  pending_list :: nat

definition app_init :: app where
  "app_init =
     \<lparr>lang = ''bash'', code = defaultCode (the (map_of LANGUAGES ''bash'')), stdin = [], outputText = [],
      rawJson = JNull, showRaw = False, loading = False, page_of = Play, testcases = JArr [],
      selectedTc = JNull, testResult = None, testOutput = [], testLoading = False, tcFilter = [],
      pending_run = None, pending_tc = None, pending_list = 0\<rparr>"

section \<open>Handlers\<close>

text \<open>An unknown language throws after \<open>setLang\<close>.\<close>

definition switchLang :: "string \<Rightarrow> app \<Rightarrow> app" where
  "switchLang newLang s =
     (case map_of LANGUAGES newLang of
        None \<Rightarrow> s\<lparr>lang := newLang\<rparr>
      | Some li \<Rightarrow> s\<lparr>lang := newLang, code := defaultCode li, stdin := [], outputText := []\<rparr>)"

definition loadPreset :: "Preset \<Rightarrow> app \<Rightarrow> app" where
  "loadPreset p s =
     (let s1 = s\<lparr>code := psource p\<rparr>;
          s2 = (case pstdin p of None \<Rightarrow> s1 | Some i \<Rightarrow> s1\<lparr>stdin := i\<rparr>)
      in s2\<lparr>outputText := []\<rparr>)"

text \<open>The body of the request, and the state while it is in flight.\<close>

definition run_body :: "app \<Rightarrow> js" where
  "run_body s =
     JObj [(''language'', JStr (lang s)), (''source'', JStr (code s)),
           (''tests'', JArr [JObj [(''stdin'', JStr (stdin s)), (''expected_stdout'', JStr [])]])]"

definition run_start :: "app \<Rightarrow> app" where
  "run_start s =
     s\<lparr>loading := True, outputText := [], rawJson := JNull, showRaw := False,
       pending_run := Some (lang s)\<rparr>"

definition ln :: "string \<Rightarrow> string" where
  "ln s = s @ newline"

definition build_line :: "js \<Rightarrow> string js_result" where
  "build_line data =
     js_bind (js_get data ''build'') (\<lambda>b.
       if truthy b then
         js_bind (js_get b ''status'') (\<lambda>st.
         js_bind (js_get b ''duration_ms'') (\<lambda>d.
           Inr (ln (''build: '' @ js_str st @ '' ('' @ js_str d @ ''ms)''))))
       else Inr [])"

definition stream_lines :: "js \<Rightarrow> string js_result" where
  "stream_lines t =
     js_bind (js_get t ''stdout'') (\<lambda>so.
     js_bind (js_get t ''stderr'') (\<lambda>se.
       Inr (ln ''---stdout---'' @ ln (js_or so ''(empty)'') @ ln ''---stderr---'' @ ln (js_or se ''(empty)''))))"

definition memory_line :: "js \<Rightarrow> string js_result" where
  "memory_line t =
     js_bind (js_get t ''memory_peak_kb'') (\<lambda>m.
       Inr (if js_pos m then ln (''memory: '' @ js_str m @ '' KB'') else []))"

definition duration_line :: "js \<Rightarrow> string js_result" where
  "duration_line t =
     js_bind (js_get t ''duration_ms'') (\<lambda>d. Inr (ln (''duration: '' @ js_str d @ ''ms'')))"

definition crash_note :: "js \<Rightarrow> string js_result" where
  "crash_note t =
     js_bind (js_get t ''status'') (\<lambda>st.
     js_bind (js_get t ''stderr'') (\<lambda>se.
       Inr (if js_eq st (JStr ''runtime_error'') \<and> \<not> truthy se then
              ln ''note: crash signal may not appear in stderr (kernel kills silently)'' @
              ln ''try running locally or check exit code''
            else [])))"

definition first_test :: "js \<Rightarrow> string js_result" where
  "first_test data =
     js_bind (js_get data ''tests'') (\<lambda>ts.
       if \<not> truthy ts then Inr []
       else js_bind (js_get ts ''length'') (\<lambda>n.
         if \<not> js_pos n then Inr []
         else js_bind (js_index ts 0) (\<lambda>t.
           js_bind (js_get t ''status'') (\<lambda>st.
           js_bind (stream_lines t) (\<lambda>o1.
           js_bind (memory_line t) (\<lambda>o2.
           js_bind (duration_line t) (\<lambda>o3.
           js_bind (crash_note t) (\<lambda>o4.
             Inr (ln (''test status: '' @ js_str st) @ o1 @ o2 @ o3 @ o4)))))))))"

definition hint :: "string \<Rightarrow> js \<Rightarrow> string js_result" where
  "hint lng data =
     js_bind (js_get data ''build'') (\<lambda>b.
       if \<not> truthy b then Inr []
       else js_bind (js_get b ''status'') (\<lambda>st.
         Inr (if js_eq st (JStr ''ok'') \<and> lng \<in> set [''c'', ''cpp'', ''rust'', ''go''] then
                newline @
                ln ''(hint: compiled artifacts exist in the container but download is not yet implemented)''
              else [])))"

text \<open>What \<open>run\<close> shows for a response; \<open>lng\<close> is the language at the time of the click.\<close>

definition run_output :: "string \<Rightarrow> js \<Rightarrow> string js_result" where
  "run_output lng data =
     js_bind (js_get data ''error'') (\<lambda>err.
       if truthy err then
         js_bind (js_get err ''message'') (\<lambda>m. Inr (''error: '' @ js_str m))
       else
         js_bind (js_get data ''status'') (\<lambda>st.
         js_bind (build_line data) (\<lambda>o1.
         js_bind (first_test data) (\<lambda>o2.
         js_bind (hint lng data) (\<lambda>o3.
           Inr (ln (''status: '' @ js_str st) @ o1 @ o2 @ o3))))))"

definition shown :: "string js_result \<Rightarrow> string" where
  "shown r = (case r of Inl e \<Rightarrow> ''request failed: '' @ e | Inr o1 \<Rightarrow> o1)"

text \<open>The answer of \<open>fetch\<close> and \<open>res.json()\<close>: an exception or the parsed value.\<close>

definition run_finish :: "string \<Rightarrow> js js_result \<Rightarrow> app \<Rightarrow> app" where
  "run_finish lng r s =
     (case r of
        Inl e \<Rightarrow> s\<lparr>outputText := shown (Inl e)\<rparr>
      | Inr data \<Rightarrow> s\<lparr>rawJson := data, outputText := shown (run_output lng data)\<rparr>)
     \<lparr>loading := False, pending_run := None\<rparr>"

section \<open>The test runner\<close>

definition js_includes :: "string \<Rightarrow> js \<Rightarrow> js \<Rightarrow> bool js_result" where
  "js_includes expr v w =
     (case v of
        JStr s \<Rightarrow> Inr (str_contains s (js_str w))
      | JArr xs \<Rightarrow> Inr (list_ex (js_eq w) xs)
      | _ \<Rightarrow> Inl (expr @ ''.includes is not a function''))"

definition verdict :: "bool \<Rightarrow> string" where
  "verdict b = (if b then ''PASS'' else ''FAIL'')"

definition dq :: "string \<Rightarrow> string" where
  "dq s = [dquote] @ s @ [dquote]"

text \<open>One round of the \<open>forEach\<close>: test \<open>i\<close> of the response against \<open>w\<close>.\<close>

definition tc_test :: "nat \<Rightarrow> js \<Rightarrow> js \<Rightarrow> string js_result" where
  "tc_test i t w =
     js_bind (js_get t ''status'') (\<lambda>ts.
     js_bind (js_get w ''status'') (\<lambda>ws.
     js_bind (js_get w ''stdout'') (\<lambda>wo.
     js_bind (js_get t ''stdout'') (\<lambda>to.
     js_bind (if truthy wo \<and> \<not> js_eq to wo then
                js_bind (js_get wo ''length'') (\<lambda>n.
                  Inr (ln (''  INFO test['' @ nat_str i @ ''].stdout diff (expected length '' @
                           js_str n @ '')'')))
              else Inr []) (\<lambda>o1.
     js_bind (js_get w ''stderr'') (\<lambda>we.
     js_bind (js_get t ''stderr'') (\<lambda>te.
     js_bind (if truthy we \<and> truthy te then
                js_bind (js_includes ''t.stderr'' te we) (\<lambda>b.
                  Inr (if b then [] else ln (''  INFO test['' @ nat_str i @ ''].stderr diff'')))
              else Inr []) (\<lambda>o2.
       Inr (ln (''  '' @ verdict (js_eq ts ws) @ '' test['' @ nat_str i @ ''].status: got='' @
                dq (js_str ts) @ '' want='' @ dq (js_str ws)) @ o1 @ o2)))))))))"

definition or_empty :: "js \<Rightarrow> js" where
  "or_empty v = (if truthy v then v else JObj [])"

fun tc_tests :: "nat \<Rightarrow> js list \<Rightarrow> js \<Rightarrow> string js_result" where
  "tc_tests i [] wts = Inr []"
| "tc_tests i (t # ts) wts =
     js_bind (js_index wts i) (\<lambda>w.
     js_bind (tc_test i t (or_empty w)) (\<lambda>o1.
     js_bind (tc_tests (Suc i) ts wts) (\<lambda>o2. Inr (o1 @ o2))))"

definition tc_compare :: "js \<Rightarrow> js \<Rightarrow> string js_result" where
  "tc_compare data want =
     js_bind (js_get data ''tests'') (\<lambda>ts.
       if \<not> truthy ts then Inr []
       else js_bind (js_get want ''tests'') (\<lambda>wts.
         if \<not> truthy wts then Inr []
         else (case ts of
                 JArr xs \<Rightarrow> tc_tests 0 xs wts
               | _ \<Rightarrow> Inl ''data.tests.forEach is not a function'')))"

definition tc_first :: "js \<Rightarrow> string js_result" where
  "tc_first data =
     js_bind (js_get data ''tests'') (\<lambda>ts.
       if \<not> truthy ts then Inr []
       else js_bind (js_index ts 0) (\<lambda>t.
         if \<not> truthy t then Inr []
         else js_bind (duration_line t) (\<lambda>o1.
              js_bind (memory_line t) (\<lambda>o2.
              js_bind (stream_lines t) (\<lambda>o3. Inr (o1 @ o2 @ o3))))))"

definition tc_output :: "js \<Rightarrow> js \<Rightarrow> string js_result" where
  "tc_output data want =
     js_bind (js_get data ''status'') (\<lambda>ds.
     js_bind (js_get want ''status'') (\<lambda>ws.
     js_bind (tc_compare data want) (\<lambda>o1.
     js_bind (build_line data) (\<lambda>o2.
     js_bind (tc_first data) (\<lambda>o3.
       Inr (ln ''=== RESULT ==='' @
            ln (verdict (js_eq ds ws) @ '' status: got='' @ dq (js_str ds) @ '' want='' @ dq (js_str ws)) @
            o1 @ o2 @ o3))))))"

definition tc_start :: "js \<Rightarrow> app \<Rightarrow> app" where
  "tc_start tc s =
     s\<lparr>testLoading := True, testOutput := [], testResult := None, pending_tc := Some tc\<rparr>"

text \<open>
  \<open>tc.input\<close> and \<open>tc.want\<close> are read from the entry the user selected; an undefined \<open>input\<close> is sent as
  an empty body. Reading \<open>tc.input\<close> of a null entry throws before the request.
\<close>

definition tc_finish :: "js \<Rightarrow> js js_result \<Rightarrow> app \<Rightarrow> app" where
  "tc_finish tc r s =
     (case js_bind (js_get tc ''input'') (\<lambda>_. r) of
        Inl e \<Rightarrow> s\<lparr>testOutput := shown (Inl e)\<rparr>
      | Inr data \<Rightarrow>
          (case js_get tc ''want'' of
             Inl e \<Rightarrow> s\<lparr>testOutput := shown (Inl e)\<rparr>
           | Inr want \<Rightarrow>
               s\<lparr>testResult := Some (data, want), testOutput := shown (tc_output data want)\<rparr>))
     \<lparr>testLoading := False, pending_tc := None\<rparr>"

section \<open>The list of testcases\<close>

text \<open>\<open>tc.f.toLowerCase().includes(filter)\<close>\<close>

definition field_matches :: "string \<Rightarrow> js \<Rightarrow> string \<Rightarrow> bool js_result" where
  "field_matches flt tc f =
     js_bind (js_get tc f) (\<lambda>v.
     js_bind (js_method (''tc.'' @ f) ''toLowerCase'' v) (\<lambda>s.
       Inr (str_contains (map toLower s) (map toLower flt))))"

definition tc_matches :: "string \<Rightarrow> js \<Rightarrow> bool js_result" where
  "tc_matches flt tc =
     js_bind (field_matches flt tc ''lang'') (\<lambda>b.
       if b then Inr True else field_matches flt tc ''name'')"

fun filtered :: "string \<Rightarrow> js list \<Rightarrow> js list js_result" where
  "filtered flt [] = Inr []"
| "filtered flt (tc # tcs) =
     js_bind (tc_matches flt tc) (\<lambda>b.
     js_bind (filtered flt tcs) (\<lambda>r. Inr (if b then tc # r else r)))"

text \<open>The object \<open>grouped\<close>: per language the entries in order. A key is the string of \<open>tc.lang\<close>.\<close>

definition tc_lang :: "js \<Rightarrow> string" where
  "tc_lang tc = (case js_get tc ''lang'' of Inr v \<Rightarrow> js_str v | Inl e \<Rightarrow> [])"

definition tc_name :: "js \<Rightarrow> string" where
  "tc_name tc = (case js_get tc ''name'' of Inr v \<Rightarrow> js_str v | Inl e \<Rightarrow> [])"

fun add_group :: "js \<Rightarrow> (string \<times> js list) list \<Rightarrow> (string \<times> js list) list" where
  "add_group tc [] = [(tc_lang tc, [tc])]"
| "add_group tc ((l, tcs) # gs) =
     (if l = tc_lang tc then (l, tcs @ [tc]) # gs else (l, tcs) # add_group tc gs)"

definition grouped :: "js list \<Rightarrow> (string \<times> js list) list" where
  "grouped tcs = fold add_group tcs []"

definition sortedLangs :: "(string \<times> js list) list \<Rightarrow> string list" where
  "sortedLangs gs = sort (map fst gs)"

section \<open>Rendering\<close>

datatype action =
    SetPage page | SwitchLang string | PickPreset string | SetCode string | SetStdin string
  | Run | ToggleRaw | SetFilter string | SelectTc js | RunTestcase js

datatype input_kind = CodeInput | StdinInput | FilterInput

datatype icon = Shield | TestTube

text \<open>
  \<open>El\<close> is an element without handler, \<open>Click\<close> one with \<open>onClick\<close> (its flag says whether it is
  disabled), \<open>LangSelect\<close> and \<open>PresetSelect\<close> are the two drop-downs with the values they offer.
\<close>

datatype dom =
    Txt string
  | Item icon string
  | El string "(string \<times> string) list" "dom list"
  | Click string "(string \<times> string) list" bool action "dom list"
  | LangSelect string "(string \<times> string) list"
  | PresetSelect "string list"
  | Input input_kind "(string \<times> string) list"

fun offered :: "dom \<Rightarrow> action \<Rightarrow> bool"
  and offered_any :: "dom list \<Rightarrow> action \<Rightarrow> bool" where
  "offered (Txt t) a = False"
| "offered (Item i t) a = False"
| "offered (El t as ks) a = offered_any ks a"
| "offered (Click t as dis act ks) a = ((\<not> dis \<and> a = act) \<or> offered_any ks a)"
| "offered (LangSelect v opts) a = list_ex (\<lambda>(k, l). a = SwitchLang k) opts"
| "offered (PresetSelect names) a = list_ex (\<lambda>n. a = PickPreset n) names"
| "offered (Input k as) a =
     (case (k, a) of
        (CodeInput, SetCode v) \<Rightarrow> True
      | (StdinInput, SetStdin v) \<Rightarrow> True
      | (FilterInput, SetFilter v) \<Rightarrow> True
      | _ \<Rightarrow> False)"
| "offered_any [] a = False"
| "offered_any (k # ks) a = (offered k a \<or> offered_any ks a)"

definition busy_style :: "bool \<Rightarrow> string \<Rightarrow> (string \<times> string) list" where
  "busy_style b bg =
     [(''cursor'', if b then ''wait'' else ''pointer''), (''background'', if b then ''#ccc'' else bg)]"

definition tc_selected :: "js \<Rightarrow> js \<Rightarrow> bool" where
  "tc_selected sel tc = (truthy sel \<and> tc_lang sel = tc_lang tc \<and> tc_name sel = tc_name tc)"

definition tc_entry :: "js \<Rightarrow> js \<Rightarrow> dom js_result" where
  "tc_entry sel tc =
     js_bind (js_get tc ''name'') (\<lambda>v.
     js_bind (js_method ''tc.name'' ''startsWith'' v) (\<lambda>name.
       Inr (Click ''div''
              [(''key'', tc_lang tc @ ''/'' @ name),
               (''background'', if tc_selected sel tc then ''#e3f2fd'' else ''transparent'')]
              False (SelectTc tc)
              [Item (if has_prefix name ''penetration-'' then Shield else TestTube) name])))"

definition group_view :: "js \<Rightarrow> string \<times> js list \<Rightarrow> dom js_result" where
  "group_view sel g =
     (case g of (l, es) \<Rightarrow>
        js_bind (js_map (tc_entry sel) es) (\<lambda>entries.
          Inr (El ''div'' [(''key'', l)]
                 (El ''div'' [] [Txt (l @ '' ('' @ nat_str (length es) @ '')'')] # entries))))"

definition list_view :: "js \<Rightarrow> js list \<Rightarrow> dom list js_result" where
  "list_view sel flt =
     js_map (\<lambda>l. group_view sel (l, the (map_of (grouped flt) l))) (sortedLangs (grouped flt))"

text \<open>\<open>JSON.stringify\<close> is the argument \<open>stringify\<close>.\<close>

definition tc_detail :: "(js \<Rightarrow> string) \<Rightarrow> app \<Rightarrow> dom list js_result" where
  "tc_detail stringify s =
     (let sel = selectedTc s
      in if \<not> truthy sel then Inr [El ''div'' [] [Txt ''select a testcase from the left panel'']]
         else
           js_bind (js_get sel ''input'') (\<lambda>inp.
           js_bind (js_get sel ''want'') (\<lambda>want.
             Inr [El ''div'' []
                    [El ''h2'' [] [Txt (tc_lang sel @ '' / '' @ tc_name sel)],
                     Click ''button'' (busy_style (testLoading s) ''#2196F3'') (testLoading s)
                       (RunTestcase sel) [Txt (if testLoading s then ''running...'' else ''run test'')]],
                  El ''div'' []
                    [El ''div'' [] [Txt ''INPUT'', Txt (stringify inp)],
                     El ''div'' [] [Txt ''EXPECTED'', Txt (stringify want)],
                     El ''div'' []
                       [Txt ''RESULT'',
                        Txt (if testOutput s \<noteq> [] then testOutput s
                             else if testLoading s then ''running...''
                             else ''click '' @ dq ''run test'' @ '' to execute'')]]])))"

definition tests_view :: "(js \<Rightarrow> string) \<Rightarrow> app \<Rightarrow> dom js_result" where
  "tests_view stringify s =
     js_bind (js_get (testcases s) ''length'') (\<lambda>len.
     case testcases s of
       JArr tcs \<Rightarrow>
         js_bind (filtered (tcFilter s) tcs) (\<lambda>flt.
         js_bind (list_view (selectedTc s) flt) (\<lambda>groups.
         js_bind (tc_detail stringify s) (\<lambda>detail.
           Inr (El ''div'' []
             [El ''div'' []
                [El ''h1'' [] [Txt ''test runner''],
                 Click ''button'' [] False (SetPage Play) [Txt ''back to playground''],
                 El ''span'' [] [Txt (js_str len @ '' testcases loaded'')]],
              Input FilterInput [(''placeholder'', ''filter tests...''), (''value'', tcFilter s)],
              El ''div'' []
                [El ''div'' []
                   (groups @
                    (if tcs = [] then [El ''div'' [] [Txt ''loading testcases...'']] else [])),
                 El ''div'' [] detail]]))))
     | _ \<Rightarrow> Inl ''testcases.filter is not a function'')"

definition bench_view :: "string \<Rightarrow> dom" where
  "bench_view API =
     El ''div'' []
       [El ''h1'' [] [Txt ''benchmarks''],
        Click ''button'' [] False (SetPage Play) [Txt ''back to playground''],
        El ''iframe'' [(''src'', API @ ''/playground/'')] []]"

definition play_view :: "string \<Rightarrow> (js \<Rightarrow> string) \<Rightarrow> app \<Rightarrow> LangInfo \<Rightarrow> dom" where
  "play_view API stringify s LI =
     El ''div'' []
       [El ''div'' []
          [El ''h1'' [] [Txt ''goboxd''],
           Click ''a'' [(''href'', ''#'')] False (SetPage Bench) [Txt ''benchmarks''],
           Click ''a'' [(''href'', ''#'')] False (SetPage TestsPage) [Txt ''tests''],
           El ''a'' [(''href'', API @ ''/info'')] [Txt ''/info''],
           El ''a'' [(''href'', API @ ''/readyz'')] [Txt ''/readyz'']],
        El ''div'' []
          [El ''label'' [] [Txt ''language: ''],
           LangSelect (lang s) (map (\<lambda>(k, l). (k, llabel l)) LANGUAGES),
           El ''label'' [] [Txt ''preset: ''],
           PresetSelect (map fst (flattenPresets PRESETS (lang s)))],
        El ''div'' []
          [El ''div'' [] [Input CodeInput [(''language'', monaco LI), (''value'', code s)]],
           El ''div'' []
             ((if hasStdin LI then
                 [El ''div'' [] [El ''label'' [] [Txt ''stdin:''], Input StdinInput [(''value'', stdin s)]]]
               else []) @
              [Click ''button'' (busy_style (loading s) ''#4CAF50'') (loading s) Run
                 [Txt (if loading s then ''running...'' else ''run'')]] @
              (if outputText s \<noteq> [] \<and> truthy (rawJson s) then
                 [Click ''button'' [] False ToggleRaw
                    [Txt (if showRaw s then ''hide raw'' else ''view raw'')]]
               else []) @
              [El ''div'' []
                 [Txt (if showRaw s \<and> truthy (rawJson s) then stringify (rawJson s)
                       else if outputText s \<noteq> [] then outputText s
                       else ''output will appear here'')]])]]"

definition view :: "string \<Rightarrow> (js \<Rightarrow> string) \<Rightarrow> app \<Rightarrow> dom js_result" where
  "view API stringify s =
     (case page_of s of
        TestsPage \<Rightarrow> tests_view stringify s
      | Bench \<Rightarrow> Inr (bench_view API)
      | Play \<Rightarrow>
          (case map_of LANGUAGES (lang s) of
             Some LI \<Rightarrow> Inr (play_view API stringify s LI)
           | None \<Rightarrow> js_bind (js_get JUndef ''monaco'') (\<lambda>_. Inr (Txt []))))"

text \<open>Rendering the tests page with an empty list fetches the list.\<close>

definition rendered :: "app \<Rightarrow> app" where
  "rendered s =
     (if page_of s = TestsPage \<and> js_get (testcases s) ''length'' = Inr (JNum 0) then s\<lparr>pending_list := Suc (pending_list s)\<rparr>
      else s)"

fun act :: "action \<Rightarrow> app \<Rightarrow> app" where
  "act (SetPage p) s = s\<lparr>page_of := p\<rparr>"
| "act (SwitchLang l) s = switchLang l s"
| "act (PickPreset n) s =
     (case find (\<lambda>x. fst x = n) (flattenPresets PRESETS (lang s)) of
        None \<Rightarrow> s | Some (m, p) \<Rightarrow> loadPreset p s)"
| "act (SetCode v) s = s\<lparr>code := v\<rparr>"
| "act (SetStdin v) s = s\<lparr>stdin := v\<rparr>"
| "act Run s = run_start s"
| "act ToggleRaw s = s\<lparr>showRaw := \<not> showRaw s\<rparr>"
| "act (SetFilter v) s = s\<lparr>tcFilter := v\<rparr>"
| "act (SelectTc tc) s = s\<lparr>selectedTc := tc, testResult := None, testOutput := []\<rparr>"
| "act (RunTestcase tc) s = tc_start tc s"

inductive ui_step :: "string \<Rightarrow> (js \<Rightarrow> string) \<Rightarrow> app \<Rightarrow> app \<Rightarrow> bool"
  for API :: string and stringify :: "js \<Rightarrow> string" where
  user: "ui_step API stringify s (rendered (act a s))"
    if "view API stringify s = Inr d" and "offered d a"
| run_answer: "ui_step API stringify s (rendered (run_finish lng r s))" if "pending_run s = Some lng"
| tc_answer: "ui_step API stringify s (rendered (tc_finish tc r s))" if "pending_tc s = Some tc"
| list_answer: "ui_step API stringify s
      (rendered (s\<lparr>testcases := d, pending_list := pending_list s - 1\<rparr>))" if "0 < pending_list s"
| list_failed: "ui_step API stringify s (s\<lparr>pending_list := pending_list s - 1\<rparr>)"
    if "0 < pending_list s"

section \<open>Facts about presets\<close>

lemma uniq_name_fresh: "uniq_name taken label idx \<notin> set taken"
proof (induction taken label idx rule: uniq_name.induct)
  case (1 taken label idx)
  then show ?case by (subst uniq_name.simps) simp
qed

lemma flatten_loop_names:
  "distinct (map fst result) \<Longrightarrow> distinct (map fst (flatten_loop result ps))"
proof (induction result ps rule: flatten_loop.induct)
  case (2 result p ps)
  then show ?case using uniq_name_fresh [of "map fst result" "plabel p" 1] by simp
qed simp

lemma flatten_loop_presets: "map snd (flatten_loop result ps) = map snd result @ ps"
  by (induction result ps rule: flatten_loop.induct) auto

lemma flattenPresets_distinct: "distinct (map fst (flattenPresets ps l))"
  by (simp add: flattenPresets_def flatten_loop_names)

lemma find_by_name:
  assumes "distinct (map fst xs)" and "(n, p) \<in> set xs"
  shows "find (\<lambda>x. fst x = n) xs = Some (n, p)"
  using assms by (induction xs) (auto simp: image_iff rev_image_eqI)

lemma flattenPresets_sub:
  assumes "(n, p) \<in> set (flattenPresets ps l)"
  shows "\<exists>pl. map_of ps l = Some pl \<and> p \<in> set pl"
proof -
  have "p \<in> set (map snd (flattenPresets ps l))" using assms by force
  then show ?thesis
    by (cases "map_of ps l") (simp_all add: flattenPresets_def flatten_loop_presets)
qed

lemmas preset_tables = PRESETS_def presets_py3_def presets_c_def presets_cpp_def presets_java_def
  presets_bash_def presets_js_def presets_verilog_def presets_rust_def presets_go_def
  presets_haskell_def presets_ocaml_def presets_r_def presets_d_def presets_lua_def
  presets_perl_def presets_erl_def presets_lisp_def

text \<open>No preset brings input of its own.\<close>

lemma presets_stdin: "\<forall>(k, ps) \<in> set PRESETS. \<forall>p \<in> set ps. pstdin p = None \<or> pstdin p = Some []"
  by (simp add: preset_tables)

lemma preset_stdin:
  "map_of PRESETS l = Some pl \<Longrightarrow> p \<in> set pl \<Longrightarrow> pstdin p = None \<or> pstdin p = Some []"
  using presets_stdin map_of_SomeD by fastforce

section \<open>The invariant of the page\<close>

definition app_inv :: "app \<Rightarrow> bool" where
  "app_inv s \<longleftrightarrow>
     (\<exists>li. map_of LANGUAGES (lang s) = Some li \<and> (\<not> hasStdin li \<longrightarrow> stdin s = [])) \<and>
     (loading s \<longleftrightarrow> pending_run s \<noteq> None) \<and>
     (testLoading s \<longleftrightarrow> pending_tc s \<noteq> None)"

lemma offered_any_iff: "offered_any ks a \<longleftrightarrow> (\<exists>k \<in> set ks. offered k a)"
  by (induction ks) auto

text \<open>What each page lets the user do.\<close>

lemma offered_bench: "offered (bench_view API) a \<Longrightarrow> a = SetPage Play"
  by (simp add: bench_view_def)

lemma offered_parts:
  "offered (LangSelect v (map (\<lambda>(k, l). (k, llabel l)) ls)) a \<longleftrightarrow> (\<exists>l \<in> fst ` set ls. a = SwitchLang l)"
  "offered (PresetSelect ns) a \<longleftrightarrow> (\<exists>n \<in> set ns. a = PickPreset n)"
  "offered_any (xs @ ys) a \<longleftrightarrow> offered_any xs a \<or> offered_any ys a"
  "offered_any (if c then xs else []) a \<longleftrightarrow> c \<and> offered_any xs a"
  by (force simp: list_ex_iff offered_any_iff)+

lemma page_not_Play: "p \<noteq> Play \<longleftrightarrow> p = Bench \<or> p = TestsPage"
  by (cases p) simp_all

lemma offered_play:
  "offered (play_view API stringify s LI) a \<longleftrightarrow>
     (case a of
        SetPage p \<Rightarrow> p \<noteq> Play
      | SwitchLang l \<Rightarrow> l \<in> fst ` set LANGUAGES
      | PickPreset n \<Rightarrow> n \<in> fst ` set (flattenPresets PRESETS (lang s))
      | SetCode v \<Rightarrow> True
      | SetStdin v \<Rightarrow> hasStdin LI
      | Run \<Rightarrow> \<not> loading s
      | ToggleRaw \<Rightarrow> outputText s \<noteq> [] \<and> truthy (rawJson s)
      | _ \<Rightarrow> False)"
  by (cases a) (auto simp: play_view_def offered_parts page_not_Play simp del: offered.simps(5,6))

lemma offered_entry: "tc_entry sel tc = Inr d \<Longrightarrow> offered d a \<longleftrightarrow> a = SelectTc tc"
  by (auto simp: tc_entry_def js_bind_def split: sum.splits)

lemma offered_group:
  assumes "group_view sel g = Inr d" and "offered d a"
  shows "\<exists>tc. a = SelectTc tc"
proof -
  obtain l es ks where "js_map (tc_entry sel) es = Inr ks" and "offered_any ks a"
    using assms by (auto simp: group_view_def js_bind_def split: sum.splits prod.splits)
  then show ?thesis using js_map_mem offered_entry by (fastforce simp: offered_any_iff)
qed

lemma offered_list: "list_view sel flt = Inr ds \<Longrightarrow> offered_any ds a \<Longrightarrow> \<exists>tc. a = SelectTc tc"
  using js_map_mem offered_group by (fastforce simp: offered_any_iff list_view_def)

lemma offered_detail:
  assumes "tc_detail stringify s = Inr ds" and "offered_any ds a"
  shows "a = RunTestcase (selectedTc s) \<and> \<not> testLoading s"
  using assms
  by (auto simp: tc_detail_def js_bind_def Let_def split: if_splits sum.splits)

lemma offered_tests:
  assumes "tests_view stringify s = Inr d" and "offered d a"
  shows "a = SetPage Play \<or> (\<exists>v. a = SetFilter v) \<or> (\<exists>tc. a = SelectTc tc) \<or>
    (a = RunTestcase (selectedTc s) \<and> \<not> testLoading s)"
proof -
  obtain tcs flt groups detail where t: "testcases s = JArr tcs" and dt: "tc_detail stringify s = Inr detail"
    and g: "list_view (selectedTc s) flt = Inr groups"
    and d: "d = El ''div'' []
             [El ''div'' []
                [El ''h1'' [] [Txt ''test runner''],
                 Click ''button'' [] False (SetPage Play) [Txt ''back to playground''],
                 El ''span'' [] [Txt (js_str (JNum (int (length tcs))) @ '' testcases loaded'')]],
              Input FilterInput [(''placeholder'', ''filter tests...''), (''value'', tcFilter s)],
              El ''div'' []
                [El ''div'' []
                   (groups @
                    (if tcs = [] then [El ''div'' [] [Txt ''loading testcases...'']] else [])),
                 El ''div'' [] detail]]"
    using assms(1) by (auto simp: tests_view_def js_bind_def split: sum.splits js.splits)
  from assms(2) consider "a = SetPage Play" | "\<exists>v. a = SetFilter v" | "offered_any groups a"
    | "offered_any detail a"
    unfolding d by (auto simp: offered_any_iff split: if_splits action.splits)
  then show ?thesis using offered_detail [OF dt] offered_list [OF g] by cases auto
qed

lemma app_inv_init: "app_inv app_init"
  by (simp add: app_inv_def app_init_def LANGUAGES_def)

lemma app_inv_rendered: "app_inv s \<Longrightarrow> app_inv (rendered s)"
  by (simp add: app_inv_def rendered_def)

lemma LANGUAGES_distinct: "distinct (map fst LANGUAGES)"
  by (simp add: LANGUAGES_def)

lemma app_inv_act:
  assumes inv: "app_inv s" and v: "view API stringify s = Inr d" and o: "offered d a"
  shows "app_inv (act a s)"
proof (cases "page_of s")
  case TestsPage
  then show ?thesis
    using offered_tests [of stringify s d a] v o inv
    by (auto simp: view_def app_inv_def tc_start_def)
next
  case Bench
  then have "a = SetPage Play" using offered_bench [of API a] v o by (simp add: view_def)
  with inv show ?thesis by (simp add: app_inv_def)
next
  case Play
  obtain LI where li: "map_of LANGUAGES (lang s) = Some LI" and hid: "\<not> hasStdin LI \<longrightarrow> stdin s = []"
    using inv by (auto simp: app_inv_def)
  with Play v have d: "d = play_view API stringify s LI" by (simp add: view_def)
  note off = o [unfolded d offered_play]
  show ?thesis
  proof (cases a)
    case (SwitchLang l)
    then obtain li' where "map_of LANGUAGES l = Some li'"
      using off by (auto simp: image_iff dest: weak_map_of_SomeI)
    with SwitchLang inv show ?thesis by (simp add: app_inv_def switchLang_def)
  next
    case (PickPreset n)
    then obtain p where p: "(n, p) \<in> set (flattenPresets PRESETS (lang s))" using off by auto
    then have f: "find (\<lambda>x. fst x = n) (flattenPresets PRESETS (lang s)) = Some (n, p)"
      by (intro find_by_name flattenPresets_distinct)
    have "pstdin p = None \<or> pstdin p = Some []"
      using flattenPresets_sub [OF p] preset_stdin by blast
    with PickPreset f inv li hid show ?thesis
      by (auto simp: app_inv_def loadPreset_def Let_def)
  next
    case (SetStdin v')
    with off inv li show ?thesis by (auto simp: app_inv_def)
  next
    case Run
    with inv show ?thesis by (simp add: app_inv_def run_start_def)
  qed (use off inv in \<open>auto simp: app_inv_def\<close>)
qed

lemma run_finish_inv: "app_inv s \<Longrightarrow> app_inv (run_finish lng r s)"
  by (simp add: app_inv_def run_finish_def split: sum.splits)

lemma tc_finish_inv: "app_inv s \<Longrightarrow> app_inv (tc_finish tc r s)"
  by (simp add: app_inv_def tc_finish_def split: sum.splits)

lemma app_inv_list:
  "app_inv (s\<lparr>testcases := d\<rparr>) = app_inv s" "app_inv (s\<lparr>pending_list := n\<rparr>) = app_inv s"
  by (simp_all add: app_inv_def)

interpretation ui: invariant_system "\<lambda>s. s = app_init" "ui_step API stringify" app_inv
proof (unfold_locales, goal_cases)
  case (1 s)
  then show ?case by (simp add: app_inv_init)
next
  case (2 s t)
  then show ?case
    by (cases rule: ui_step.cases)
       (auto intro!: app_inv_rendered run_finish_inv tc_finish_inv intro: app_inv_act simp: app_inv_list)
qed

section \<open>Grouping keeps every entry\<close>

lemma add_group_keys:
  "set (map fst (add_group tc gs)) = insert (tc_lang tc) (set (map fst gs))"
  "distinct (map fst gs) \<Longrightarrow> distinct (map fst (add_group tc gs))"
  by (induction tc gs rule: add_group.induct) auto

lemma add_group_content:
  "distinct (map fst gs) \<Longrightarrow>
   map_of (add_group tc gs) l =
     (if l = tc_lang tc then Some ((case map_of gs l of None \<Rightarrow> [] | Some es \<Rightarrow> es) @ [tc]) else map_of gs l)"
  by (induction tc gs rule: add_group.induct) (auto split: option.splits)

lemma fold_add_group:
  assumes "distinct (map fst gs)"
  shows "distinct (map fst (fold add_group tcs gs)) \<and>
    set (map fst (fold add_group tcs gs)) = tc_lang ` set tcs \<union> set (map fst gs) \<and>
    (\<forall>l. (case map_of (fold add_group tcs gs) l of None \<Rightarrow> [] | Some es \<Rightarrow> es) =
         (case map_of gs l of None \<Rightarrow> [] | Some es \<Rightarrow> es) @ filter (\<lambda>tc. tc_lang tc = l) tcs)"
  using assms
proof (induction tcs arbitrary: gs)
  case (Cons tc tcs)
  have d: "distinct (map fst (add_group tc gs))" using add_group_keys(2) [OF Cons.prems] .
  show ?case
    using Cons.IH [OF d] add_group_keys(1) [of tc gs] add_group_content [OF Cons.prems, of tc]
    by (auto split: option.splits if_splits)
qed simp

lemma grouped_content:
  "distinct (map fst (grouped tcs))"
  "set (map fst (grouped tcs)) = tc_lang ` set tcs"
  "l \<in> tc_lang ` set tcs \<Longrightarrow> map_of (grouped tcs) l = Some (filter (\<lambda>tc. tc_lang tc = l) tcs)"
proof -
  note f = fold_add_group [of "[]" tcs, simplified]
  show "distinct (map fst (grouped tcs))" and k: "set (map fst (grouped tcs)) = tc_lang ` set tcs"
    using f by (simp_all add: grouped_def)
  assume l: "l \<in> tc_lang ` set tcs"
  then obtain es where "map_of (grouped tcs) l = Some es"
    using k by (metis not_Some_eq map_of_eq_None_iff set_map)
  then show "map_of (grouped tcs) l = Some (filter (\<lambda>tc. tc_lang tc = l) tcs)"
    using f by (metis (no_types, lifting) grouped_def option.simps(5))
qed

section \<open>Properties\<close>

lemma run_clicked: "reach (\<lambda>s. s = app_init) (ui_step API stringify) (run_start app_init)"
proof -
  obtain li where li: "map_of LANGUAGES (lang app_init) = Some li"
    using app_inv_init by (auto simp: app_inv_def)
  have "view API stringify app_init = Inr (play_view API stringify app_init li)"
    using li by (simp add: view_def app_init_def)
  then have "ui_step API stringify app_init (rendered (act Run app_init))"
    by (rule ui_step.user) (simp add: play_view_def app_init_def)
  moreover have "rendered (act Run app_init) = run_start app_init"
    by (simp add: rendered_def run_start_def app_init_def)
  ultimately have "ui_step API stringify app_init (run_start app_init)" by simp
  then show ?thesis by (rule reach_step [OF reach_init [of "\<lambda>s. s = app_init", OF refl]])
qed

text \<open>
  C10. However the user clicks and the network answers: the selected language is one of the table,
  input hidden from the user is empty, the two busy flags are on exactly while a request is in
  flight, the playground page renders without an exception, and its run button is live exactly when
  no request is in flight.
\<close>

theorem page_consistent:
  assumes "reach (\<lambda>s. s = app_init) (ui_step API stringify) s"
  shows "(\<exists>li. map_of LANGUAGES (lang s) = Some li \<and> (\<not> hasStdin li \<longrightarrow> stdin s = [])) \<and>
    (loading s \<longleftrightarrow> pending_run s \<noteq> None) \<and> (testLoading s \<longleftrightarrow> pending_tc s \<noteq> None) \<and>
    (page_of s = Play \<longrightarrow>
      (\<exists>d. view API stringify s = Inr d \<and> (offered d Run \<longleftrightarrow> pending_run s = None)))"
proof -
  have inv: "app_inv s" by (rule ui.inv_reach [OF assms])
  then obtain li where li: "map_of LANGUAGES (lang s) = Some li" by (auto simp: app_inv_def)
  have l: "loading s \<longleftrightarrow> pending_run s \<noteq> None" using inv by (simp add: app_inv_def)
  then have "offered (play_view API stringify s li) Run \<longleftrightarrow> pending_run s = None"
    by (simp add: offered_play)
  moreover have "page_of s = Play \<Longrightarrow> view API stringify s = Inr (play_view API stringify s li)"
    using li by (simp add: view_def)
  ultimately have v: "page_of s = Play \<Longrightarrow>
      \<exists>d. view API stringify s = Inr d \<and> (offered d Run \<longleftrightarrow> pending_run s = None)"
    by (intro exI [of _ "play_view API stringify s li"]) simp
  show ?thesis using inv v unfolding app_inv_def by (elim conjE) (intro conjI impI)
qed

theorem page_consistent_witness:
  "page_of (run_start app_init) = Play \<and> loading (run_start app_init) \<and> \<not> testLoading (run_start app_init) \<and>
   (\<exists>d. view [] js_str (run_start app_init) = Inr d \<and> \<not> offered d Run)"
  using page_consistent [OF run_clicked, of "[]" js_str] by (simp add: run_start_def app_init_def)

text \<open>
  C28. The preset menu is the language's table in its order under names that are all different, and
  picking a name loads the source of exactly that preset.
\<close>

theorem preset_choice_faithful:
  "map snd (flattenPresets PRESETS (lang s)) =
     (case map_of PRESETS (lang s) of None \<Rightarrow> [] | Some ps \<Rightarrow> ps) \<and>
   distinct (map fst (flattenPresets PRESETS (lang s))) \<and>
   (\<forall>(n, p) \<in> set (flattenPresets PRESETS (lang s)).
      code (act (PickPreset n) s) = psource p \<and> outputText (act (PickPreset n) s) = [] \<and>
      stdin (act (PickPreset n) s) = (case pstdin p of None \<Rightarrow> stdin s | Some i \<Rightarrow> i))"
proof (intro conjI ballI, goal_cases)
  case 1
  show ?case by (simp add: flattenPresets_def flatten_loop_presets split: option.splits)
next
  case 2
  show ?case by (rule flattenPresets_distinct)
next
  case (3 np)
  obtain n p where np: "np = (n, p)" by fastforce
  then have "find (\<lambda>x. fst x = n) (flattenPresets PRESETS (lang s)) = Some (n, p)"
    using 3 by (intro find_by_name flattenPresets_distinct) simp
  then show ?case by (simp add: np loadPreset_def Let_def split: option.splits)
qed

theorem preset_choice_faithful_witness:
  "\<exists>n p. (n, p) \<in> set (flattenPresets PRESETS ''bash'') \<and> code (act (PickPreset n) app_init) = psource p"
proof -
  have "flattenPresets PRESETS ''bash'' \<noteq> []"
    using arg_cong [OF flatten_loop_presets [of "[]" presets_bash], of length]
    by (auto simp: flattenPresets_def PRESETS_def presets_bash_def)
  then obtain n p where m: "(n, p) \<in> set (flattenPresets PRESETS ''bash'')"
    by (cases "flattenPresets PRESETS ''bash''") auto
  have "lang app_init = ''bash''" by (simp add: app_init_def)
  with m preset_choice_faithful [of app_init] have "code (act (PickPreset n) app_init) = psource p" by auto
  with m show ?thesis by blast
qed

text \<open>
  C29. The left panel of the test runner loses and duplicates nothing: its headings are the
  languages of the matching entries, each once and in order, and under a heading stand exactly the
  matching entries of that language in the order of the server's list.
\<close>

theorem test_list_partition:
  "sorted (sortedLangs (grouped tcs)) \<and> distinct (sortedLangs (grouped tcs)) \<and>
   set (sortedLangs (grouped tcs)) = tc_lang ` set tcs \<and>
   (\<forall>l \<in> set (sortedLangs (grouped tcs)).
      map_of (grouped tcs) l = Some (filter (\<lambda>tc. tc_lang tc = l) tcs))"
  using grouped_content(1,2) [of tcs] grouped_content(3) [of _ tcs]
  by (simp add: sortedLangs_def)

theorem test_list_partition_witness:
  "map_of (grouped [JObj [(''lang'', JStr ''c'')], JObj [(''lang'', JStr ''d'')], JObj [(''lang'', JStr ''c'')]]) ''c'' =
     Some [JObj [(''lang'', JStr ''c'')], JObj [(''lang'', JStr ''c'')]]"
  using test_list_partition [of "[JObj [(''lang'', JStr ''c'')], JObj [(''lang'', JStr ''d'')], JObj [(''lang'', JStr ''c'')]]"]
  by (simp add: tc_lang_def)

end
