(* ===== verification/Wire.thy ===== *)
theory Wire
  imports Server Playground
begin

text \<open>
  The JSON that passes between the two programs: the encodings of the Go structs by their \<open>json\<close>
  tags (\<^verbatim>\<open>internal/models/models.go\<close>, \<^verbatim>\<open>internal/api/testcases.go\<close>) as the JavaScript values the
  playground works on. A nil slice is encoded as null.
\<close>

definition json_slice :: "js list \<Rightarrow> js" where
  "json_slice xs = (if xs = [] then JNull else JArr xs)"

definition json_status :: "ResultStatus \<Rightarrow> js" where
  "json_status s = JStr (if s = ResultUnset then ''not_executed'' else rs_string s)"

definition json_build :: "BuildResult \<Rightarrow> js" where
  "json_build b =
     JObj [(''status'', JStr (bs_string (bStatus b))), (''stdout'', JStr (bStdout b)),
           (''stderr'', JStr (bStderr b)), (''duration_ms'', JNum (bDurationMs b)),
           (''cpu_time_ms'', JNum (bCpuTimeMs b))]"

definition json_test :: "TestResult \<Rightarrow> js" where
  "json_test t =
     JObj [(''status'', json_status (tStatus t)), (''stdout'', JStr (tStdout t)),
           (''stderr'', JStr (tStderr t)), (''duration_ms'', JNum (tDurationMs t)),
           (''cpu_time_ms'', JNum (tCpuTimeMs t)), (''memory_peak_kb'', JNum (tMemoryPeakKB t)),
           (''exit_code'', JNum (tExitCode t)), (''termination_signal'', JNum (tTerminationSignal t))]"

definition json_run :: "RunResponse \<Rightarrow> js" where
  "json_run r =
     JObj [(''status'', JStr (respStatus r)), (''build'', json_build (respBuild r)),
           (''tests'', json_slice (map json_test (respTests r)))]"

definition json_error :: "ErrorDetail \<Rightarrow> js" where
  "json_error e = JObj [(''error'', JObj [(''code'', JStr (Code e)), (''message'', JStr (Message e))])]"

fun json_body :: "body \<Rightarrow> js option" where
  "json_body (ErrBody e) = Some (json_error e)"
| "json_body (RunBody r) = Some (json_run r)"
| "json_body (TextBody t) = None"

definition json_entry :: "TestcaseEntry \<Rightarrow> js" where
  "json_entry e = JObj [(''lang'', JStr (teLang e)), (''name'', JStr (teName e))]"

fun json_list :: "list_response \<Rightarrow> js option" where
  "json_list (Listed es) = Some (json_slice (map json_entry es))"
| "json_list (ListError (Response c hs b)) = json_body b"
| "json_list (ListError NoResponse) = None"

text \<open>Requests: an absent pointer and an empty \<open>omitempty\<close> field are left out.\<close>

definition json_opt :: "string \<Rightarrow> js option \<Rightarrow> (string \<times> js) list" where
  "json_opt k v = (case v of None \<Rightarrow> [] | Some x \<Rightarrow> [(k, x)])"

definition json_testcase :: "TestCase \<Rightarrow> js" where
  "json_testcase t = JObj [(''stdin'', JStr (Stdin t)), (''expected_stdout'', JStr (ExpectedStdout t))]"

definition json_limits :: "mLimits \<Rightarrow> js" where
  "json_limits l =
     JObj (json_opt ''wall_time_s'' (map_option JNum (mWallTimeS l)) @
           json_opt ''memory_kb'' (map_option JNum (mMemoryKB l)) @
           json_opt ''max_processes'' (map_option JNum (mMaxProcesses l)) @
           json_opt ''cpu_time_s'' (map_option JNum (mCpuTimeS l)))"

definition json_stage :: "StageConfig \<Rightarrow> js" where
  "json_stage s =
     JObj (json_opt ''limits'' (map_option json_limits (sLimits s)) @
           (if sFlags s = [] then [] else [(''flags'', JArr (map JStr (sFlags s)))]))"

definition json_request :: "RunRequest \<Rightarrow> js" where
  "json_request r =
     JObj ([(''language'', JStr (Language r)), (''source'', JStr (Source r))] @
           (if SourceFilename r = [] then [] else [(''source_filename'', JStr (SourceFilename r))]) @
           (if ArtifactFilename r = [] then [] else [(''artifact_filename'', JStr (ArtifactFilename r))]) @
           json_opt ''build'' (map_option json_stage (rBuild r)) @
           json_opt ''run'' (map_option json_stage (rRun r)) @
           [(''tests'', json_slice (map json_testcase (Tests r)))] @
           json_opt ''max_parallel'' (map_option JNum (MaxParallel r)) @
           json_opt ''max_output_bytes'' (map_option JNum (MaxOutputBytes r)))"

text \<open>The request the playground's run button stands for.\<close>

definition app_request :: "app \<Rightarrow> RunRequest" where
  "app_request s =
     \<lparr>Language = lang s, Source = code s, SourceFilename = [], ArtifactFilename = [], rBuild = None,
      rRun = None, Tests = [\<lparr>Stdin = stdin s, ExpectedStdout = []\<rparr>], MaxParallel = None,
      MaxOutputBytes = None\<rparr>"

section \<open>Facts\<close>

lemma run_body_json: "run_body s = json_request (app_request s)"
  by (simp add: run_body_def json_request_def app_request_def json_opt_def json_slice_def
      json_testcase_def)

lemmas json_defs = json_run_def json_build_def json_test_def json_slice_def json_error_def
  json_status_def json_entry_def

lemma build_line_json:
  "build_line (json_run r) =
     Inr (ln (''build: '' @ bs_string (bStatus (respBuild r)) @ '' ('' @
              Itoa (bDurationMs (respBuild r)) @ ''ms)''))"
  by (simp add: build_line_def js_bind_def json_run_def json_build_def)

lemma first_test_json: "\<exists>t. first_test (json_run r) = Inr t"
  by (cases "respTests r")
     (simp_all add: first_test_def js_bind_def json_run_def json_slice_def json_test_def
       stream_lines_def memory_line_def duration_line_def crash_note_def)

lemma hint_json: "\<exists>t. hint l (json_run r) = Inr t"
  by (simp add: hint_def js_bind_def json_run_def json_build_def)

lemma json_body_obj: "json_body b = Some d \<Longrightarrow> \<exists>fs. d = JObj fs"
  by (cases b) (auto simp: json_error_def json_run_def)

text \<open>
  A server without testcases answers null, and the page that receives it can no longer be rendered;
  the same happens with the body of an error response.
\<close>

lemma empty_list_breaks_page:
  "json_list (Listed []) = Some JNull"
  "tests_view stringify (s\<lparr>testcases := JNull\<rparr>) =
     Inl (''Cannot read properties of null (reading '' @ quote ''length'' @ '')'')"
  "tests_view stringify (s\<lparr>testcases := json_error e\<rparr>) = Inl ''testcases.filter is not a function''"
  by (simp_all add: json_slice_def tests_view_def js_bind_def json_error_def)

section \<open>Properties\<close>


text \<open>
  C38. The test runner never reports a result: \<open>GET /testcases\<close> sends only the language and the name
  of a testcase, so the entry the user selects has no \<open>want\<close>, and whatever the server answers to the
  run the page shows the exception of reading \<open>want.status\<close>.
\<close>

theorem test_runner_always_fails:
  assumes "json_body b = Some data"
  shows "testOutput (tc_finish (json_entry e) (Inr data) s) =
    ''request failed: Cannot read properties of undefined (reading '' @ quote ''status'' @ '')''"
proof -
  obtain fs where d: "data = JObj fs" using json_body_obj [OF assms] by blast
  have "tc_output data JUndef =
      Inl (''Cannot read properties of undefined (reading '' @ quote ''status'' @ '')'')"
    by (simp add: d tc_output_def js_bind_def)
  then show ?thesis by (simp add: tc_finish_def js_bind_def json_entry_def shown_def)
qed

theorem test_runner_always_fails_witness:
  "testOutput (tc_finish (json_entry \<lparr>teLang = ''c'', teName = ''hello''\<rparr>)
     (Inr (json_error \<lparr>Code = ''INVALID_REQUEST'', Message = []\<rparr>)) app_init) =
   ''request failed: Cannot read properties of undefined (reading '' @ quote ''status'' @ '')''"
  by (rule test_runner_always_fails [of "ErrBody \<lparr>Code = ''INVALID_REQUEST'', Message = []\<rparr>"]) simp

end
