(* ===== verification/Buildinfo.thy ===== *)
theory Buildinfo
  imports Prelude
begin

text \<open>
  The version floor of \<^verbatim>\<open>internal/buildinfo/buildinfo.go\<close>. The array of three numbers is the type
  \<open>version\<close>, ordered lexicographically; \<open>AtLeast\<close> decides that order.
\<close>

datatype version = V int int int

instantiation version :: linorder
begin

fun less_eq_version :: "version \<Rightarrow> version \<Rightarrow> bool" where
  "less_eq_version (V a b c) (V x y z) =
     (a < x \<or> (a = x \<and> (b < y \<or> (b = y \<and> c \<le> z))))"

definition less_version :: "version \<Rightarrow> version \<Rightarrow> bool" where
  "less_version u v \<longleftrightarrow> u \<le> v \<and> \<not> v \<le> u"

instance
proof
  fix u v w :: version
  show "u < v \<longleftrightarrow> u \<le> v \<and> \<not> v \<le> u" by (rule less_version_def)
  show "u \<le> u" by (cases u) simp
  show "u \<le> v \<Longrightarrow> v \<le> w \<Longrightarrow> u \<le> w" by (cases u; cases v; cases w) auto
  show "u \<le> v \<Longrightarrow> v \<le> u \<Longrightarrow> u = v" by (cases u; cases v) auto
  show "u \<le> v \<or> v \<le> u" by (cases u; cases v) auto
qed

end

text \<open>\<open>strings.SplitN(v, ".", 3)\<close>: the third part keeps any further dots.\<close>

definition split3 :: "string \<Rightarrow> string list" where
  "split3 v =
     (case split_char CHR ''.'' v of
        a # b # c # rest \<Rightarrow> [a, b, join_char ''.'' (c # rest)]
      | ps \<Rightarrow> ps)"

definition part :: "string \<Rightarrow> int" where
  "part s = (case Atoi (TrimSpace s) of Some n \<Rightarrow> if n \<ge> 0 then n else 0 | None \<Rightarrow> 0)"

definition cut_suffix :: "string \<Rightarrow> string" where
  "cut_suffix v = (case index_any v ''-+'' of Some i \<Rightarrow> take i v | None \<Rightarrow> v)"

definition parts :: "string \<Rightarrow> int list" where
  "parts v =
     (case map part (split3 (cut_suffix v)) of
        [a] \<Rightarrow> [a, 0, 0]
      | [a, b] \<Rightarrow> [a, b, 0]
      | ps \<Rightarrow> ps)"

fun at_least_loop :: "int list \<Rightarrow> int list \<Rightarrow> bool" where
  "at_least_loop (x # xs) (y # ys) = (if x \<noteq> y then x > y else at_least_loop xs ys)"
| "at_least_loop _ _ = True"

definition AtLeast :: "string \<Rightarrow> string \<Rightarrow> bool" where
  "AtLeast current minimum = at_least_loop (parts current) (parts minimum)"

definition Version :: string where
  "Version = ''0.2.0''"

section \<open>Facts\<close>

fun version_of :: "int list \<Rightarrow> version" where
  "version_of [a, b, c] = V a b c"
| "version_of _ = V 0 0 0"

lemma split3_length: "length (split3 v) \<in> {1, 2, 3}"
proof -
  obtain p ps where "split_char CHR ''.'' v = p # ps"
    by (cases "split_char CHR ''.'' v") auto
  then show ?thesis by (auto simp: split3_def split: list.splits)
qed

lemma parts_three: "\<exists>a b c. parts v = [a, b, c]"
proof -
  have "length (map part (split3 (cut_suffix v))) \<in> {1, 2, 3}"
    using split3_length [of "cut_suffix v"] by simp
  then show ?thesis
    unfolding parts_def
    by (auto simp: numeral_eq_Suc length_Suc_conv split: list.splits)
qed

lemma AtLeast_iff: "AtLeast current minimum \<longleftrightarrow> version_of (parts minimum) \<le> version_of (parts current)"
proof -
  obtain a b c where "parts current = [a, b, c]" using parts_three by blast
  moreover obtain x y z where "parts minimum = [x, y, z]" using parts_three by blast
  ultimately show ?thesis by (auto simp: AtLeast_def)
qed

lemma index_any_first:
  "set v \<inter> set cs = {} \<Longrightarrow> c \<in> set cs \<Longrightarrow> index_any (v @ c # w) cs = Some (length v)"
  by (induction v) auto

text \<open>A pre-release or build suffix does not change the parts.\<close>

lemma parts_suffix:
  assumes "set v \<inter> {CHR ''-'', CHR ''+''} = {}" and "c \<in> {CHR ''-'', CHR ''+''}"
  shows "parts (v @ c # w) = parts v"
proof -
  have "set v \<inter> set ''-+'' = {}" and "c \<in> set ''-+''" using assms by auto
  then have "cut_suffix (v @ c # w) = v" and "cut_suffix v = v"
    using index_any_first [of v "''-+''" c w] index_any_none [of v "''-+''"]
    by (auto simp: cut_suffix_def)
  then show ?thesis by (simp add: parts_def)
qed

section \<open>Properties\<close>

text \<open>
  C35. \<open>AtLeast\<close> decides the lexicographic order of the three version numbers, so it is a total
  preorder, and a pre-release or build suffix of the current version does not matter.
\<close>

theorem version_order:
  "(AtLeast a b \<longleftrightarrow> version_of (parts b) \<le> version_of (parts a)) \<and>
   AtLeast a a \<and> (AtLeast a b \<or> AtLeast b a) \<and> (AtLeast a b \<longrightarrow> AtLeast b c \<longrightarrow> AtLeast a c) \<and>
   (set a \<inter> {CHR ''-'', CHR ''+''} = {} \<longrightarrow> AtLeast (a @ ''-'' @ w) b = AtLeast a b)"
proof (intro conjI impI)
  show "AtLeast (a @ ''-'' @ w) b = AtLeast a b" if "set a \<inter> {CHR ''-'', CHR ''+''} = {}"
    using parts_suffix [OF that, of "CHR ''-''" w] by (simp add: AtLeast_def)
  show "AtLeast a c" if "AtLeast a b" "AtLeast b c"
    using that unfolding AtLeast_iff by (rule order_trans [rotated])
qed (auto simp: AtLeast_iff)

theorem version_order_witness:
  "AtLeast ''3.10.1'' ''3.9'' \<and> AtLeast (''3.10.1'' @ ''-'' @ ''rc1'') ''3.9'' = AtLeast ''3.10.1'' ''3.9''"
  using version_order [of "''3.10.1''" "''3.9''" "''3.9''" "''rc1''"] by (simp del: append.simps) code_simp

end
