(* ===== verification/Endpoints.thy ===== *)
theory Endpoints
  imports Wire Probes Buildinfo Cgroup
begin

text \<open>
  The reporting endpoints of \<^verbatim>\<open>internal/api/handlers.go\<close>, \<^verbatim>\<open>internal/api/metrics.go\<close> and
  \<^verbatim>\<open>internal/api/openapi.go\<close>: liveness, readiness, service information, the metrics page. They share the probe cache of \<open>Probes\<close> and
  read the counters of \<open>Metrics\<close>. What the build, the host and the clock say is an argument.
\<close>

section \<open>Counters\<close>

record jobStatsSnapshot =
  jsInFlight :: int
  jsTotal :: int
  jsFailedInternal :: int
  LastErrorAt :: "int option"

definition GetStats :: "server \<Rightarrow> jobStatsSnapshot" where
  "GetStats s =
     \<lparr>jsInFlight = mInFlight (smetrics s), jsTotal = TotalRuns (smetrics s),
      jsFailedInternal = Errors (smetrics s), LastErrorAt = lastInternalErr s\<rparr>"

definition HandleMetrics :: "server \<Rightarrow> int \<times> (string \<times> string) list \<times> snapshot" where
  "HandleMetrics s = (200, [json_ct], Snapshot (smetrics s))"

text \<open>The two documents that are embedded in the binary, \<open>openAPISpec\<close> and \<open>dashboardHTML\<close>.\<close>

definition HandleOpenAPI :: "string \<Rightarrow> response" where
  "HandleOpenAPI openAPISpec = Response 200 [json_ct] (TextBody openAPISpec)"

definition HandleDashboard :: "string \<Rightarrow> response" where
  "HandleDashboard dashboardHTML =
     Response 200 [(''Content-Type'', ''text/html; charset=utf-8'')] (TextBody dashboardHTML)"

section \<open>Liveness and readiness\<close>

definition HandleHealthz :: response where
  "HandleHealthz = Response 200 [json_ct] (TextBody (''{\"status\":\"ok\"}'' @ newline))"

text \<open>Status code and body, the number of probes that executed something, the cache.\<close>

definition HandleReadyz ::
  "bool \<Rightarrow> probe_env \<Rightarrow> (string \<times> LanguageConfig) list \<Rightarrow> probeCache \<Rightarrow>
   (int \<times> readyState) \<times> nat \<times> probeCache" where
  "HandleReadyz shuttingDown pe reg c =
     (case probeReadiness shuttingDown pe reg c of
        (ready, n, c') \<Rightarrow> ((if AllOK ready then 200 else 503, ready), n, c'))"

section \<open>Service information\<close>

record info_os =
  i_version :: string
  i_commit :: string
  i_build_date :: string
  i_go_version :: string
  i_settings :: "(string \<times> string) list option"
  i_lookPath :: "string option"
  i_statfs :: "(int \<times> int) option"
  i_time :: "int \<Rightarrow> string"

text \<open>The commit stamped at link time, or the first seven characters of the toolchain's revision.\<close>

definition info_commit :: "string \<Rightarrow> (string \<times> string) list option \<Rightarrow> string" where
  "info_commit commit settings =
     (if commit = [] \<or> commit = ''dev'' then
        (case Option.bind settings (\<lambda>ss. map_of ss ''vcs.revision'') of
           Some v \<Rightarrow> if length v > 7 then take 7 v else v
         | None \<Rightarrow> commit)
      else commit)"

definition diskFreeBytes :: "(int \<times> int) option \<Rightarrow> int" where
  "diskFreeBytes fs =
     (case fs of None \<Rightarrow> 0 | Some (bavail, bsize) \<Rightarrow> wrap64 (wrap64 bavail * wrap64 bsize))"

definition json_cfg :: "Limits \<Rightarrow> js" where
  "json_cfg l =
     JObj [(''wall_time_s'', JNum (WallTimeS l)), (''memory_kb'', JNum (MemoryKB l)),
           (''max_processes'', JNum (MaxProcesses l)), (''cpu_time_s'', JNum (CpuTimeS l))]"

definition info_lang :: "readyProbe \<Rightarrow> LanguageConfig \<Rightarrow> js" where
  "info_lang p lc =
     JObj [(''id'', JStr (ID lc)), (''name'', JStr (Name lc)),
           (''version'', JStr (if pOK p then hd (split_char CHR 0x0A (pVersion p)) else Name lc)),
           (''default_run_limits'', json_cfg (DefaultLimits lc)),
           (''ceiling_run_limits'', json_cfg (DefaultCeiling lc))]"

fun info_langs ::
  "probe_env \<Rightarrow> (string \<times> LanguageConfig) list \<Rightarrow> probeCache \<Rightarrow> js list \<times> probeCache" where
  "info_langs pe [] c = ([], c)"
| "info_langs pe ((lid, lc) # ls) c =
     (case languageProbe pe lc c of
        ((p, did), c1) \<Rightarrow>
          (case info_langs pe ls c1 of (es, c2) \<Rightarrow> (info_lang p lc # es, c2)))"

definition info_build :: "info_os \<Rightarrow> string \<Rightarrow> js" where
  "info_build os min_version =
     JObj ([(''version'', JStr (i_version os)),
            (''commit'', JStr (info_commit (i_commit os) (i_settings os))),
            (''build_date'', JStr (i_build_date os)), (''go_version'', JStr (i_go_version os))] @
           (if min_version = [] then []
            else [(''min_version_requested'', JStr min_version),
                  (''version_satisfies_min'', JBool (AtLeast (i_version os) min_version))]))"

definition info_stats :: "info_os \<Rightarrow> server \<Rightarrow> js" where
  "info_stats os s =
     (let st = GetStats s
      in JObj [(''in_flight_jobs'', JNum (jsInFlight st)), (''jobs_total'', JNum (jsTotal st)),
               (''jobs_failed_internal'', JNum (jsFailedInternal st)),
               (''last_internal_error_at'',
                 case LastErrorAt st of None \<Rightarrow> JNull | Some t \<Rightarrow> JStr (i_time os t)),
               (''disk_free_bytes_jail_dir'', JNum (diskFreeBytes (i_statfs os)))])"

definition info_limits :: "environ \<Rightarrow> int \<Rightarrow> js" where
  "info_limits env numCPU =
     JObj [(''max_source_bytes'', JNum 262144), (''max_tests'', JNum 50),
           (''max_concurrent_jobs'', JNum (readMaxJobs env numCPU)),
           (''max_queued_jobs'', JNum (readMaxQueued env numCPU))]"

text \<open>The body of the response, whose status is 200, and the probe cache afterwards.\<close>

definition HandleInfo ::
  "environ \<Rightarrow> int \<Rightarrow> Manager \<Rightarrow> info_os \<Rightarrow> string \<Rightarrow> probe_env \<Rightarrow> (string \<times> LanguageConfig) list \<Rightarrow>
   server \<Rightarrow> probeCache \<Rightarrow> js \<times> probeCache" where
  "HandleInfo env numCPU m os min_version pe reg s c =
     (case cache_run (pe_now pe ''nsjail'') (pe_later pe ''nsjail'') ''nsjail'' (pe_nsjail pe) c of
        ((p, did), c1) \<Rightarrow>
          (case info_langs pe reg c1 of
             (langs, c2) \<Rightarrow>
               (JObj
                  [(''build_info'', info_build os min_version),
                   (''nsjail'',
                     JObj [(''path'', JStr (case i_lookPath os of None \<Rightarrow> ''/usr/bin/nsjail'' | Some q \<Rightarrow> q)),
                           (''version'', JStr (if pOK p then pVersion p else []))]),
                   (''cgroupv2'', JObj [(''active'', JBool (Active m)), (''mount'', JStr (root m))]),
                   (''languages'', JArr langs),
                   (''limits'', info_limits env numCPU),
                   (''stats'', info_stats os s)],
                c2)))"

section \<open>Facts\<close>

text \<open>
  Readiness turns to 503 as soon as the shutdown starts, without probing anything, while liveness
  stays at 200.
\<close>

lemma readyz_shutting_down:
  "\<exists>s. HandleReadyz True pe reg c = ((503, s), 0, c) \<and> rsStatus s = ''shutting_down''"
  by (simp add: HandleReadyz_def probeReadiness_def Let_def)

text \<open>The request limits \<open>GET /info\<close> names are the constants of the validation.\<close>

lemma info_limits_enforced:
  "js_get (info_limits env numCPU) ''max_source_bytes'' = Inr (JNum maxRequestBytes)"
  "js_get (info_limits env numCPU) ''max_tests'' = Inr (JNum (int maxTests))"
  by (simp_all add: info_limits_def maxRequestBytes_def maxTests_def)

lemma info_langs_entry:
  assumes "(k, lc) \<in> set reg"
  shows "\<exists>p. info_lang p lc \<in> set (fst (info_langs pe reg c))"
  using assms
proof (induction reg arbitrary: c)
  case (Cons x ls)
  obtain lid l where x: "x = (lid, l)" by fastforce
  obtain p did c1 where l: "languageProbe pe l c = ((p, did), c1)" by (metis surj_pair)
  obtain es c2 where r: "info_langs pe ls c1 = (es, c2)" by fastforce
  have e: "set (fst (info_langs pe (x # ls) c)) = insert (info_lang p l) (set es)"
    using x l r by simp
  show ?case
  proof (cases "(k, lc) = x")
    case True
    with e x show ?thesis by blast
  next
    case False
    with Cons.prems Cons.IH [of c1] r e show ?thesis by auto
  qed
qed simp

lemma info_get:
  "js_get (info_lang p lc) ''id'' = Inr (JStr (ID lc))"
  "js_get (info_lang p lc) ''ceiling_run_limits'' = Inr (json_cfg (DefaultCeiling lc))"
  "js_get (info_lang p lc) ''default_run_limits'' = Inr (json_cfg (DefaultLimits lc))"
  by (simp_all add: info_lang_def)

text \<open>A loaded language's own ceilings are complete, so they are what \<open>POST /run\<close> compares with.\<close>

lemma resolved_ceilings:
  "RunCeiling (resolve_language y) = resolveCeiling (stCeiling (yRun y)) (stLimits (yRun y)) (HasCeiling (yRun y))"
  "RunLimits (resolve_language y) = stLimits (yRun y)"
  "DefaultCeiling (resolve_language y) =
     (case yBuild y of None \<Rightarrow> RunCeiling (resolve_language y)
      | Some b \<Rightarrow> resolveCeiling (stCeiling b) (stLimits b) (HasCeiling b))"
  by (simp_all add: resolve_language_def Let_def split: option.splits)

lemma ceilingAt_resolved:
  "ceilingAt (WallTimeS (resolveCeiling c l h)) (WallTimeS l) = WallTimeS (resolveCeiling c l h)"
  "ceilingAt (MemoryKB (resolveCeiling c l h)) (MemoryKB l) = MemoryKB (resolveCeiling c l h)"
  "ceilingAt (MaxProcesses (resolveCeiling c l h)) (MaxProcesses l) = MaxProcesses (resolveCeiling c l h)"
  "ceilingAt (CpuTimeS (resolveCeiling c l h)) (CpuTimeS l) = CpuTimeS (resolveCeiling c l h)"
  by (simp_all add: ceilingAt_def resolveCeiling_field)

text \<open>Limits of a request that are positive and nowhere above a ceiling.\<close>

definition within_ceiling :: "mLimits \<Rightarrow> Limits \<Rightarrow> bool" where
  "within_ceiling l c \<longleftrightarrow>
     (\<forall>v. mWallTimeS l = Some v \<longrightarrow> 0 < v \<and> v \<le> WallTimeS c) \<and>
     (\<forall>v. mMemoryKB l = Some v \<longrightarrow> 0 < v \<and> v \<le> MemoryKB c) \<and>
     (\<forall>v. mMaxProcesses l = Some v \<longrightarrow> 0 < v \<and> v \<le> MaxProcesses c) \<and>
     (\<forall>v. mCpuTimeS l = Some v \<longrightarrow> 0 < v \<and> v \<le> CpuTimeS c)"

lemma run_limits_checked:
  "validateStageLimits (Some \<lparr>sLimits = Some l, sFlags = fs\<rparr>) (RunLimits (resolve_language y))
     (RunCeiling (resolve_language y)) True name = None \<longleftrightarrow>
   within_ceiling l (RunCeiling (resolve_language y)) \<and>
   (mCpuTimeS l = None \<or> CpuTimeS (RunLimits (resolve_language y)) \<noteq> 0)"
  by (auto simp: validateStageLimits_None limits_within_def within_ceiling_def resolved_ceilings ceilingAt_resolved)

section \<open>Properties\<close>

text \<open>
  C39. \<open>GET /info\<close> has an entry for every language of the registry. The \<open>ceiling_run_limits\<close> it
  advertises for an interpreted language are what \<open>POST /run\<close> enforces: run limits pass exactly when
  they are positive and nowhere above the entry, and a cpu limit only where the language has one.
  For a compiled language the entry holds the ceiling of the build stage, while \<open>POST /run\<close> still
  checks run limits against the ceiling of the run stage.
\<close>

theorem info_run_ceiling:
  assumes "HandleInfo env numCPU m os min_version pe reg s c = (body, c')"
    and "(k, resolve_language y) \<in> set reg"
  shows "\<exists>es e. js_get body ''languages'' = Inr (JArr es) \<and> e \<in> set es \<and>
    js_get e ''id'' = Inr (JStr (yID y)) \<and>
    js_get e ''ceiling_run_limits'' =
      Inr (json_cfg (case yBuild y of None \<Rightarrow> RunCeiling (resolve_language y)
                     | Some b \<Rightarrow> resolveCeiling (stCeiling b) (stLimits b) (HasCeiling b))) \<and>
    (\<forall>l fs. validateStageLimits (Some \<lparr>sLimits = Some l, sFlags = fs\<rparr>) (RunLimits (resolve_language y))
         (RunCeiling (resolve_language y)) True ''run'' = None \<longleftrightarrow>
       within_ceiling l (RunCeiling (resolve_language y)) \<and>
       (mCpuTimeS l = None \<or> CpuTimeS (RunLimits (resolve_language y)) \<noteq> 0))"
proof -
  obtain p did c1 where n: "cache_run (pe_now pe ''nsjail'') (pe_later pe ''nsjail'') ''nsjail'' (pe_nsjail pe) c =
      ((p, did), c1)" by (metis surj_pair)
  obtain es c2 where l: "info_langs pe reg c1 = (es, c2)" by fastforce
  obtain q where q: "info_lang q (resolve_language y) \<in> set es"
    using info_langs_entry [OF assms(2), of pe c1] l by auto
  have "js_get body ''languages'' = Inr (JArr es)"
    using assms(1) n l by (auto simp: HandleInfo_def)
  with q show ?thesis
    by (intro exI [of _ es] exI [of _ "info_lang q (resolve_language y)"])
       (simp add: info_get run_limits_checked resolved_ceilings(3))
qed

text \<open>The entry for C in the registry file, and a request for as much memory as \<open>GET /info\<close> advertises.\<close>

definition c_yaml :: LanguageYAML where
  "c_yaml =
     \<lparr>yID = ''c'', yName = ''C'', ySourceFilename = ''solution.c'', yArtifact = ''solution'',
      yBuild = Some \<lparr>Cmd = ''/usr/bin/gcc'',
        Args = [''-x'', ''c'', ''{{flags}}'', ''-o'', ''{{artifact}}'', ''{{source}}''],
        stLimits = \<lparr>WallTimeS = 5, MemoryKB = 1048576, MaxProcesses = 100, CpuTimeS = 40\<rparr>,
        stCeiling = zero_Limits, HasCeiling = False, stFlagAllowlist = []\<rparr>,
      yRun = \<lparr>Cmd = ''./{{artifact}}'', Args = [],
        stLimits = \<lparr>WallTimeS = 5, MemoryKB = 524288, MaxProcesses = 64, CpuTimeS = 20\<rparr>,
        stCeiling = zero_Limits, HasCeiling = False, stFlagAllowlist = []\<rparr>,
      ySmokeCmd = [], ySmokeArgs = [], ySourceFilenameStrategy = [], ySeccomp = []\<rparr>"

definition more_memory :: mLimits where
  "more_memory = \<lparr>mWallTimeS = None, mMemoryKB = Some 1048576, mMaxProcesses = None, mCpuTimeS = None\<rparr>"

definition sample_info :: info_os where
  "sample_info =
     \<lparr>i_version = ''1.0'', i_commit = ''dev'', i_build_date = [], i_go_version = [], i_settings = None,
      i_lookPath = None, i_statfs = None, i_time = (\<lambda>_. [])\<rparr>"

definition sample_probes :: probe_env where
  "sample_probes =
     \<lparr>pe_now = (\<lambda>_. 0), pe_later = (\<lambda>_. 0), pe_nsjail = \<lparr>pOK = True, pVersion = [], pError = []\<rparr>,
      pe_lang = (\<lambda>_. \<lparr>pOK = True, pVersion = [], pError = []\<rparr>)\<rparr>"

theorem info_run_ceiling_witness:
  "\<exists>body c' es e. HandleInfo (\<lambda>_. []) 4 (NewManager (\<lambda>_. []) sample_probe ''/sys/fs/cgroup'') sample_info []
       sample_probes [(''c'', resolve_language c_yaml)] sample_server (newProbeCache 5) = (body, c') \<and>
     js_get body ''languages'' = Inr (JArr es) \<and> e \<in> set es \<and>
     js_get e ''ceiling_run_limits'' =
       Inr (json_cfg \<lparr>WallTimeS = 5, MemoryKB = 1048576, MaxProcesses = 100, CpuTimeS = 40\<rparr>) \<and>
     validateStageLimits (Some \<lparr>sLimits = Some more_memory, sFlags = []\<rparr>) (RunLimits (resolve_language c_yaml))
       (RunCeiling (resolve_language c_yaml)) True ''run'' \<noteq> None"
proof -
  obtain body c' where h: "HandleInfo (\<lambda>_. []) 4 (NewManager (\<lambda>_. []) sample_probe ''/sys/fs/cgroup'') sample_info []
      sample_probes [(''c'', resolve_language c_yaml)] sample_server (newProbeCache 5) = (body, c')" by fastforce
  have u: "\<not> within_ceiling more_memory (RunCeiling (resolve_language c_yaml))"
    by (simp add: within_ceiling_def more_memory_def resolved_ceilings c_yaml_def resolveCeiling_def)
  have a: "(case yBuild c_yaml of None \<Rightarrow> RunCeiling (resolve_language c_yaml)
      | Some b \<Rightarrow> resolveCeiling (stCeiling b) (stLimits b) (HasCeiling b)) =
      \<lparr>WallTimeS = 5, MemoryKB = 1048576, MaxProcesses = 100, CpuTimeS = 40\<rparr>"
    by (simp add: c_yaml_def resolveCeiling_def)
  have "(''c'', resolve_language c_yaml) \<in> set [(''c'', resolve_language c_yaml)]" by simp
  from info_run_ceiling [OF h this, unfolded a] obtain es e where
    "js_get body ''languages'' = Inr (JArr es)" "e \<in> set es"
    "js_get e ''ceiling_run_limits'' =
      Inr (json_cfg \<lparr>WallTimeS = 5, MemoryKB = 1048576, MaxProcesses = 100, CpuTimeS = 40\<rparr>)"
    "validateStageLimits (Some \<lparr>sLimits = Some more_memory, sFlags = []\<rparr>) (RunLimits (resolve_language c_yaml))
       (RunCeiling (resolve_language c_yaml)) True ''run'' \<noteq> None"
    using u by blast
  with h show ?thesis by blast
qed

end
