(* ===== verification/Service.thy ===== *)
theory Service
  imports Endpoints
begin

text \<open>
  The service as \<^verbatim>\<open>src/cmd/goboxd/main.go\<close> puts it together: the handlers behind the router, the
  registry that SIGHUP reloads, and the flag a termination signal sets. A state of \<open>service\<close> is one
  between two requests; requests that run at the same time meet at the gate, which is the subject of
  \<open>Admission\<close>, and reach this state through the result \<open>acq\<close> of their \<open>acquire\<close>.
\<close>

section \<open>The handlers behind the routes\<close>

text \<open>
  What is fixed when the binary is built and started: the embedded files, where the playground is
  served from, and the JSON encoder.
\<close>

record assets =
  a_dist :: string
  a_embedded :: "string \<Rightarrow> string option"
  a_openapi :: string
  a_dashboard :: string
  a_json :: "js \<Rightarrow> string"
  a_ready :: "readyState \<Rightarrow> string"
  a_snapshot :: "snapshot \<Rightarrow> string"
  a_detail :: "TestcaseDetail \<Rightarrow> string"

text \<open>What one request finds: the host, the outcome of its run, the order of the map iteration.\<close>

record host =
  h_numCPU :: int
  h_cgroups :: Manager
  h_info :: info_os
  h_min :: string
  h_probe :: probe_env
  h_order :: "registry \<Rightarrow> (string \<times> LanguageConfig) list"
  h_decoded :: "RunRequest go_result"
  h_world :: run_world
  h_readDir :: "string \<Rightarrow> (string \<times> bool) list option"
  h_exists :: "string \<Rightarrow> bool"
  h_readFile :: "string \<Rightarrow> string option"
  h_pprof :: "string \<Rightarrow> response"
  h_fresh :: "string option"
  h_clock :: string

definition json_ok :: "string \<Rightarrow> response" where
  "json_ok s = Response 200 [json_ct] (TextBody s)"

text \<open>\<open>http.RedirectHandler\<close> to the page's directory.\<close>

definition playground_redirect :: response where
  "playground_redirect =
     Response 301 [(''Location'', ''/playground/''), (''Content-Type'', ''text/html; charset=utf-8'')]
       (TextBody (''<a href=\"/playground/\">Moved Permanently</a>.'' @ newline @ newline))"

fun serve :: "environ \<Rightarrow> assets \<Rightarrow> registry \<Rightarrow> bool \<Rightarrow> host \<Rightarrow> endpoint \<Rightarrow> handler" where
  "serve env a reg down h Healthz r st = (HandleHealthz, st)"
| "serve env a reg down h Readyz r st =
     (case HandleReadyz down (h_probe h) (h_order h reg) (probes st) of
        ((sc, ready), n, c) \<Rightarrow> (Response sc [json_ct] (TextBody (a_ready a ready)), st\<lparr>probes := c\<rparr>))"
| "serve env a reg down h Info r st =
     (case HandleInfo env (h_numCPU h) (h_cgroups h) (h_info h) (h_min h) (h_probe h) (h_order h reg)
             (srv st) (probes st) of
        (info, c) \<Rightarrow> (json_ok (a_json a info), st\<lparr>probes := c\<rparr>))"
| "serve env a reg down h OpenAPI r st = (HandleOpenAPI (a_openapi a), st)"
| "serve env a reg down h MetricsPage r st =
     (case HandleMetrics (srv st) of (sc, hs, s) \<Rightarrow> (Response sc hs (TextBody (a_snapshot a s)), st))"
| "serve env a reg down h Dashboard r st = (HandleDashboard (a_dashboard a), st)"
| "serve env a reg down h RunEndpoint r st =
     (case HandleRun env reg (h_decoded h) (h_world h) (srv st) of (resp, s) \<Rightarrow> (resp, st\<lparr>srv := s\<rparr>))"
| "serve env a reg down h TestcasesList r st =
     (case HandleTestcasesList (h_readDir h) (h_exists h) of
        ListError resp \<Rightarrow> (resp, st)
      | Listed es \<Rightarrow> (json_ok (a_json a (json_slice (map json_entry es))), st))"
| "serve env a reg down h (TestcaseGet lng name) r st =
     (case fst (HandleTestcasesGet (h_readFile h) lng name) of
        DetailError resp \<Rightarrow> (resp, st)
      | Detail d \<Rightarrow> (json_ok (a_detail a d), st))"
| "serve env a reg down h (Pprof p) r st = (h_pprof h p, st)"
| "serve env a reg down h PlaygroundRedirect r st = (playground_redirect, st)"
| "serve env a reg down h (PlaygroundFile p) r st =
     (HandlePlayground (a_dist a) (h_readFile h) (a_embedded a) p, st)"

section \<open>The process\<close>

record service =
  web :: http_state
  registry_ptr :: "registry option"
  shuttingDown :: bool

text \<open>One request, from the router to the response.\<close>

definition handle ::
  "environ \<Rightarrow> rateLimitCfg \<Rightarrow> assets \<Rightarrow> host \<Rightarrow> http_request \<Rightarrow> service \<Rightarrow> response \<times> service" where
  "handle env cfg a h r s =
     (case NewRouter env cfg (PlaygroundExists (a_dist a) (a_embedded a)) (h_fresh h) (h_clock h)
             (serve env a (Registry (registry_ptr s)) (shuttingDown s) h) r (web s) of
        (resp, st) \<Rightarrow> (resp, s\<lparr>web := st\<rparr>))"

text \<open>SIGHUP: the goroutine logs the error and keeps the registry.\<close>

definition reload ::
  "environ \<Rightarrow> string go_result \<Rightarrow> (string \<Rightarrow> LanguageYAML list go_result) \<Rightarrow> service \<Rightarrow> service" where
  "reload env file unmarshal s =
     s\<lparr>registry_ptr := snd (LoadRegistry env file unmarshal (registry_ptr s))\<rparr>"

definition StartShutdown :: "service \<Rightarrow> service" where
  "StartShutdown s = s\<lparr>shuttingDown := True\<rparr>"

text \<open>
  \<open>main\<close> up to the listener: without a registry the process exits (\<open>log.Fatalf\<close>). The counters, the
  limiter and the probe cache are the package variables' first values.
\<close>

definition start_service ::
  "environ \<Rightarrow> string go_result \<Rightarrow> (string \<Rightarrow> LanguageYAML list go_result) \<Rightarrow> registry_err + service" where
  "start_service env file unmarshal =
     (case LoadRegistry env file unmarshal None of
        (Some e, _) \<Rightarrow> Inl e
      | (None, reg) \<Rightarrow>
          Inr \<lparr>web = \<lparr>limiter = Map.empty, srv = \<lparr>smetrics = new_metrics, lastInternalErr = None\<rparr>,
                      probes = newProbeCache (readProbeTTL env), access_log = []\<rparr>,
               registry_ptr = reg, shuttingDown = False\<rparr>)"

definition service_init :: "environ \<Rightarrow> (string \<Rightarrow> LanguageYAML list go_result) \<Rightarrow> service \<Rightarrow> bool" where
  "service_init env unmarshal s \<longleftrightarrow> (\<exists>file. start_service env file unmarshal = Inr s)"

inductive service_step ::
  "environ \<Rightarrow> rateLimitCfg \<Rightarrow> assets \<Rightarrow> (string \<Rightarrow> LanguageYAML list go_result) \<Rightarrow> service \<Rightarrow> service \<Rightarrow> bool"
  for env cfg a unmarshal where
  request: "service_step env cfg a unmarshal s (snd (handle env cfg a h r s))"
| sighup: "service_step env cfg a unmarshal s (reload env file unmarshal s)"
| terminate: "service_step env cfg a unmarshal s (StartShutdown s)"

section \<open>The access log and the counters\<close>

type_synonym log_line = "string \<times> string \<times> int \<times> string \<times> string"

text \<open>
  The lines of runs, and the status each was counted under: the one in the line, or, where the
  handler sets no header, \<open>internal_error\<close> for a 500 and \<open>cancelled\<close> for a client that left.
\<close>

definition run_line :: "log_line \<Rightarrow> bool" where
  "run_line l = (case l of (m, p, c, k, i) \<Rightarrow> m = ''POST'' \<and> p = ''/run'' \<and> c \<in> {200, 500, 503})"

definition line_status :: "log_line \<Rightarrow> string" where
  "line_status l =
     (case l of (m, p, c, k, i) \<Rightarrow>
        if k \<noteq> [] then k else if c = 500 then rs_string ResultInternalError else rs_string ResultCancelled)"

definition run_statuses :: "log_line list \<Rightarrow> string list" where
  "run_statuses ls = map line_status (filter run_line ls)"

definition log_agrees :: "http_state \<Rightarrow> bool" where
  "log_agrees st \<longleftrightarrow>
     (let m = smetrics (srv st); ks = run_statuses (access_log st)
      in metrics_wf m \<and> mInFlight m = 0 \<and> TotalRuns m = int (length ks) \<and>
         (\<forall>k. Statuses m k = int (count_list ks k)))"

lemma log_agrees_other: "\<not> run_line l \<Longrightarrow> log_agrees (st\<lparr>access_log := access_log st @ [l]\<rparr>) = log_agrees st"
  by (simp add: log_agrees_def run_statuses_def)

lemma log_agrees_run:
  assumes "log_agrees st" and "run_line l" and "smetrics (srv st') = recordRun (line_status l) ms e (smetrics (srv st))"
    and "access_log st' = access_log st @ [l]"
  shows "log_agrees st'"
  using assms recordRun_wf [of "smetrics (srv st)" "line_status l" ms e]
  by (auto simp: log_agrees_def run_statuses_def Let_def recordRun_def)

lemma run_admitted_line:
  assumes "run_admitted w req lc s = (resp, s')"
  shows "resp_code resp \<in> {200, 500} \<and>
    (\<exists>e. smetrics s' = recordRun (line_status (m, p, resp_code resp, resp_header ''X-Run-Status'' resp, i))
       (elapsed_ms w) e (smetrics s))"
proof -
  obtain b ts err where x: "execute_run w req lc = (b, ts, err)" by (metis surj_pair)
  have v: "rs_string (computeTopLevelStatus b ts) \<noteq> []"
    using computeTopLevelStatus_valid [of b ts] by (metis ResultStatus_Valid.simps(12) rs_string_empty)
  consider "ctx_dead_run w" | "\<not> ctx_dead_run w" "err \<noteq> None" "bStatus b = BuildInternalError"
    | "\<not> ctx_dead_run w" "err \<noteq> None" "bStatus b \<noteq> BuildInternalError" | "\<not> ctx_dead_run w" "err = None"
    by blast
  then show ?thesis
    by cases (use assms x v in \<open>auto simp: run_admitted_def writeInternalError_def line_status_def
      record_run_def Let_def json_ct_def split: if_splits simp del: rs_string_empty\<close>)
qed

text \<open>Every recorded run is answered so that its log line names the status it was recorded under.\<close>

lemma HandleRun_line:
  assumes "HandleRun env reg dec w s = (resp, s')"
  shows "(s' = s \<and> resp_code resp = 400) \<or>
    (\<exists>ms e. resp_code resp \<in> {200, 500, 503} \<and>
       smetrics s' = recordRun (line_status (m, p, resp_code resp, resp_header ''X-Run-Status'' resp, i)) ms e (smetrics s))"
proof (cases "validate_request env reg dec")
  case (Inl er)
  then show ?thesis using assms by (auto simp: HandleRun_def writeError_def writeErrorStatus_def)
next
  case (Inr rl)
  obtain req lc where rl: "rl = (req, lc)" by fastforce
  show ?thesis
  proof (cases "acq w")
    case (Some er)
    obtain k isErr where c: "classifyAcquireErr (ctx_dead_acq w) er = (k, isErr)" by fastforce
    then have k: "k = (if isErr then ''shutting_down'' else rs_string ResultCancelled)"
      by (auto simp: classifyAcquireErr_def split: if_splits)
    have "resp_code resp \<in> {200, 503} \<and>
        smetrics s' = recordRun (line_status (m, p, resp_code resp, resp_header ''X-Run-Status'' resp, i))
          (elapsed_ms w) (er = errQueueFull \<or> isErr) (smetrics s)"
      using assms unfolding HandleRun_def Inr rl Some c prod.case sum.case option.case
      by (cases "er = errQueueFull"; cases isErr)
        (auto simp: writeErrorStatus_def line_status_def record_run_def k)
    then show ?thesis by blast
  next
    case None
    obtain s1 where a: "run_admitted w req lc (add_inflight 1 s) = (resp, s1)"
      and s': "s' = add_inflight (- 1) s1"
      using assms Inr rl None by (auto simp: HandleRun_def split: prod.splits)
    from run_admitted_line [OF a, of m p i] show ?thesis
      unfolding s' using inflight_recorded by blast
  qed
qed

section \<open>One request\<close>

text \<open>Only \<open>POST /run\<close> reaches the run handler, and no other handler touches the counters.\<close>

lemma pattern_run: "pattern_of pprof pg p = Some (m, RunEndpoint) \<Longrightarrow> m = ''POST'' \<and> p = ''/run''"
  by (auto simp: pattern_of_def split: if_splits list.splits)

lemma pattern_at_run: "pattern_of pprof pg ''/run'' = Some (''POST'', RunEndpoint)"
  by (simp add: pattern_of_def)

lemma route_run: "route pprof pg (Method r) (URLPath r) = Routed RunEndpoint \<longleftrightarrow> is_run r"
  using pattern_run [of pprof pg "URLPath r"] pattern_at_run [of pprof pg]
  by (auto simp: route_def is_run_def split: option.splits if_splits)

lemma serve_frame:
  "e \<noteq> RunEndpoint \<Longrightarrow> srv (snd (serve env a reg down h e r st)) = srv st"
  "access_log (snd (serve env a reg down h e r st)) = access_log st"
  by (cases e; auto split: prod.splits list_response.splits detail_response.splits)+

lemma mux_frame:
  "\<not> is_run r \<Longrightarrow> srv (snd (mux pprof pg (serve env a reg down h) r st)) = srv st"
  "access_log (snd (mux pprof pg (serve env a reg down h) r st)) = access_log st"
  using route_run [of pprof pg r] serve_frame
  by (auto simp: mux_def split: routed.splits)

lemma mux_run: "is_run r \<Longrightarrow> mux pprof pg sv r st = sv RunEndpoint r st"
  using route_run [of pprof pg r] by (simp add: mux_def)

definition log_entry :: "http_request \<Rightarrow> response \<Rightarrow> string \<Rightarrow> log_line" where
  "log_entry r resp rid =
     (Method r, URLPath r, resp_code resp, if is_run r then resp_header ''X-Run-Status'' resp else [], rid)"

lemma NewRouter_logs:
  assumes "newRateLimitMiddleware cfg (AuthMiddleware env (mux (env ''GOBOXD_PPROF'' = ''1'') pg sv)) r st = (resp, st')"
  shows "NewRouter env cfg pg fresh clock sv r st =
    (add_header (''X-Request-Id'', request_id fresh clock r) resp,
     st'\<lparr>access_log := access_log st' @ [log_entry r resp (request_id fresh clock r)]\<rparr>)"
  using assms
  by (simp add: NewRouter_def RecoveryMiddleware_def RequestIDMiddleware_def LoggingMiddleware_def
      log_entry_def Let_def)

lemma run_line_entry: "run_line (log_entry r resp rid) \<longleftrightarrow> is_run r \<and> resp_code resp \<in> {200, 500, 503}"
  by (auto simp: run_line_def log_entry_def is_run_def)

lemma run_served:
  assumes "log_agrees st" and "srv st' = srv st" and "access_log st' = access_log st" and r: "is_run r"
    and x: "serve env a reg down h RunEndpoint r st' = (resp, st'')"
  shows "log_agrees (st''\<lparr>access_log := access_log st'' @ [log_entry r resp rid]\<rparr>)"
proof -
  obtain s' where h: "HandleRun env reg (h_decoded h) (h_world h) (srv st) = (resp, s')"
    and st'': "st'' = st'\<lparr>srv := s'\<rparr>"
    using x assms(2) by (auto split: prod.splits)
  let ?l = "log_entry r resp rid"
  have l: "?l = (Method r, URLPath r, resp_code resp, resp_header ''X-Run-Status'' resp, rid)"
    using r by (simp add: log_entry_def)
  from HandleRun_line [OF h, of "Method r" "URLPath r" rid] show ?thesis
  proof (elim disjE exE conjE)
    assume "s' = srv st" and "resp_code resp = 400"
    then have "\<not> run_line ?l" by (simp add: run_line_entry)
    then show ?thesis using assms(1-3) \<open>s' = srv st\<close> st''
      by (simp add: log_agrees_def run_statuses_def)
  next
    fix ms e
    assume "resp_code resp \<in> {200, 500, 503}"
      and m: "smetrics s' = recordRun (line_status (Method r, URLPath r, resp_code resp,
            resp_header ''X-Run-Status'' resp, rid)) ms e (smetrics (srv st))"
    then have "run_line ?l" using r by (simp add: run_line_entry)
    then show ?thesis
      by (rule log_agrees_run [OF assms(1), where ms = ms and e = e]) (simp_all add: m l st'' assms(3))
  qed
qed

lemma request_agrees:
  assumes "log_agrees st"
  shows "log_agrees (snd (NewRouter env cfg pg fresh clock (serve env a reg down h) r st))"
proof -
  let ?mux = "mux (env ''GOBOXD_PPROF'' = ''1'') pg (serve env a reg down h)"
  let ?wrap = "newRateLimitMiddleware cfg (AuthMiddleware env ?mux)"
  let ?rid = "request_id fresh clock r"
  obtain resp st' where w: "?wrap r st = (resp, st')" by fastforce
  note log = NewRouter_logs [OF w]
  show ?thesis
  proof (cases "is_run r")
    case False
    then have "?mux r st = (resp, st')" using w gates.transparent by metis
    with mux_frame(1) [OF False] mux_frame(2) have "srv st' = srv st" "access_log st' = access_log st"
      by (metis snd_conv)+
    moreover have "\<not> run_line (log_entry r resp ?rid)" using False by (simp add: run_line_entry)
    ultimately show ?thesis using assms log by (simp add: log_agrees_def run_statuses_def)
  next
    case True
    from gates.guarded [OF True, of st cfg env ?mux] show ?thesis
    proof (elim disjE exE conjE)
      fix st1
      assume s: "srv st1 = srv st" "access_log st1 = access_log st" and "?wrap r st = ?mux r st1"
      then have "serve env a reg down h RunEndpoint r st1 = (resp, st')"
        using w mux_run [OF True] by metis
      from run_served [OF assms s True this] show ?thesis by (simp add: log)
    next
      fix c hs b st1
      assume s: "c \<in> {401, 403, 429}" "srv st1 = srv st" "access_log st1 = access_log st"
        and "?wrap r st = (Response c hs b, st1)"
      then have r: "resp = Response c hs b" "st' = st1" using w by auto
      then have "\<not> run_line (log_entry r resp ?rid)" using s(1) by (auto simp: run_line_entry)
      then show ?thesis using assms s log r by (simp add: log_agrees_def run_statuses_def)
    qed
  qed
qed

section \<open>The service keeps its books\<close>

text \<open>A published registry: every language is the resolution of one YAML entry under its own id.\<close>

definition published :: "environ \<Rightarrow> registry option \<Rightarrow> bool" where
  "published env ptr \<longleftrightarrow>
     (\<exists>reg. ptr = Some reg \<and>
        (\<forall>k lc. reg k = Some lc \<longrightarrow> k \<noteq> [] \<and> kept env k \<and> (\<exists>y. lc = resolve_language y \<and> yID y = k)))"

lemma LoadRegistry_published:
  assumes "LoadRegistry env file unmarshal ptr = (err, ptr')" and "published env ptr \<or> err = None"
  shows "published env ptr'"
proof (cases err)
  case None
  then obtain ls reg where b: "build_registry ls Map.empty = Inr reg" and p: "ptr' = Some (apply_filters env reg)"
    using assms(1) by (auto simp: LoadRegistry_def split: sum.splits if_splits)
  have "k \<noteq> [] \<and> kept env k \<and> (\<exists>y. lc = resolve_language y \<and> yID y = k)"
    if k: "apply_filters env reg k = Some lc" for k lc
  proof -
    have "kept env k" "reg k = Some lc" using k by (auto simp: apply_filters_lookup split: if_splits)
    moreover have "(k, lc) \<in> set (map (\<lambda>l. (yID l, resolve_language l)) ls)" "[] \<notin> set (map yID ls)"
      using build_registry_ok [OF b] calculation(2) by (auto dest: map_of_SomeD)
    ultimately show ?thesis by force
  qed
  then show ?thesis unfolding published_def p by blast
next
  case (Some e)
  then have "ptr' = ptr" using assms(1)
    by (auto simp: LoadRegistry_def split: sum.splits if_splits)
  then show ?thesis using assms(2) Some by simp
qed

definition service_inv :: "environ \<Rightarrow> service \<Rightarrow> bool" where
  "service_inv env s \<longleftrightarrow> log_agrees (web s) \<and> published env (registry_ptr s)"

lemma log_agrees_new: "access_log st = [] \<Longrightarrow> smetrics (srv st) = new_metrics \<Longrightarrow> log_agrees st"
  by (simp add: log_agrees_def run_statuses_def new_metrics_wf) (simp add: new_metrics_def)

lemma service_inv_init: "service_init env unmarshal s \<Longrightarrow> service_inv env s"
proof -
  assume "service_init env unmarshal s"
  then obtain f where s: "start_service env f unmarshal = Inr s" by (auto simp: service_init_def)
  obtain err ptr where l: "LoadRegistry env f unmarshal None = (err, ptr)" by fastforce
  with s have e: "err = None" by (simp add: start_service_def split: option.splits)
  then have "published env ptr" using LoadRegistry_published [OF l] by simp
  moreover have "s = \<lparr>web = web s, registry_ptr = ptr, shuttingDown = False\<rparr> \<and>
      access_log (web s) = [] \<and> smetrics (srv (web s)) = new_metrics"
    using s l e by (auto simp: start_service_def)
  ultimately show ?thesis
    by (metis service_inv_def log_agrees_new service.select_convs(2))
qed

lemma service_inv_step: "service_step env cfg a unmarshal s t \<Longrightarrow> service_inv env s \<Longrightarrow> service_inv env t"
proof (induction rule: service_step.induct)
  case (request s h r)
  then show ?case using request_agrees [of "web s"]
    by (simp add: handle_def service_inv_def split: prod.splits) (metis snd_conv)
next
  case (sighup s f)
  then show ?case
    using LoadRegistry_published [of env f unmarshal "registry_ptr s"]
    by (simp add: reload_def service_inv_def) (metis prod.collapse)
qed (simp add: StartShutdown_def service_inv_def)

interpretation daemon: invariant_system "service_init env unmarshal" "service_step env cfg a unmarshal" "service_inv env"
  by unfold_locales (blast intro: service_inv_init service_inv_step)+

text \<open>Liveness answers 200 in every state; once the shutdown has started readiness answers 503.\<close>

lemma probes_answer:
  assumes "Method r = ''GET''"
  shows "URLPath r = ''/healthz'' \<Longrightarrow> resp_code (fst (handle env cfg a h r s)) = 200"
    and "URLPath r = ''/readyz'' \<Longrightarrow> shuttingDown s \<Longrightarrow> resp_code (fst (handle env cfg a h r s)) = 503"
proof -
  let ?sv = "serve env a (Registry (registry_ptr s)) (shuttingDown s) h"
  let ?mux = "mux (env ''GOBOXD_PPROF'' = ''1'') (PlaygroundExists (a_dist a) (a_embedded a)) ?sv"
  have n: "\<not> is_run r" using assms by (simp add: is_run_def)
  obtain resp st where m: "?mux r (web s) = (resp, st)" by fastforce
  then have w: "newRateLimitMiddleware cfg (AuthMiddleware env ?mux) r (web s) = (resp, st)"
    using gates.transparent [OF n] by metis
  have c: "resp_code (add_header hd resp) = resp_code resp" for hd by (cases resp) simp_all
  have f: "resp_code (fst (handle env cfg a h r s)) = resp_code resp"
    by (simp add: handle_def NewRouter_logs [OF w] c)
  show "URLPath r = ''/healthz'' \<Longrightarrow> resp_code (fst (handle env cfg a h r s)) = 200"
    using m assms unfolding f by (auto simp: mux_def route_def pattern_of_def HandleHealthz_def)
  show "URLPath r = ''/readyz'' \<Longrightarrow> shuttingDown s \<Longrightarrow> resp_code (fst (handle env cfg a h r s)) = 503"
    using m assms readyz_shutting_down unfolding f
    by (auto simp: mux_def route_def pattern_of_def split: prod.splits) (metis prod.inject)
qed

section \<open>Properties\<close>

text \<open>
  C13. Whatever requests, reloads and signals the service has seen, what \<open>GET /metrics\<close> reports can be
  recomputed from the access log: a run was counted for exactly the \<open>POST /run\<close> lines with code 200,
  500 or 503, under the status the line names; no run is left in flight between requests; and the
  published registry is complete, each language resolved from one entry under its own id.
\<close>

theorem metrics_match_log:
  assumes "reach (service_init env unmarshal) (service_step env cfg a unmarshal) s"
  shows "let snap = snd (snd (HandleMetrics (srv (web s)))); ks = run_statuses (access_log (web s))
    in total_runs snap = int (length ks) \<and> (\<forall>k. status_counts snap k = int (count_list ks k)) \<and>
       in_flight snap = 0 \<and> metrics_wf (smetrics (srv (web s))) \<and> published env (registry_ptr s)"
  using daemon.inv_reach [OF assms]
  by (simp add: service_inv_def log_agrees_def HandleMetrics_def Snapshot_def Let_def)

definition sample_assets :: assets where
  "sample_assets =
     \<lparr>a_dist = [], a_embedded = Map.empty, a_openapi = ''{}'', a_dashboard = [], a_json = js_str,
      a_ready = rsStatus, a_snapshot = (\<lambda>s. Itoa (total_runs s)), a_detail = tdInput\<rparr>"

definition sample_host :: host where
  "sample_host =
     \<lparr>h_numCPU = 4, h_cgroups = \<lparr>root = [], base = [], active = False, cpuActive = False\<rparr>,
      h_info = sample_info, h_min = [], h_probe = sample_probes, h_order = (\<lambda>_. []),
      h_decoded = Inr sample_req, h_world = sample_run_world, h_readDir = (\<lambda>_. None),
      h_exists = (\<lambda>_. False), h_readFile = (\<lambda>_. None), h_pprof = (\<lambda>_. NoResponse),
      h_fresh = Some ''a1'', h_clock = ''1''\<rparr>"

definition no_env :: environ where
  "no_env = (\<lambda>_. [])"

lemma sample_start:
  "\<exists>s. start_service no_env (Inr []) (\<lambda>_. Inr [py3_yaml]) = Inr s \<and>
     Registry (registry_ptr s) ''py3'' = Some (resolve_language py3_yaml) \<and> access_log (web s) = []"
proof -
  have "yID py3_yaml = ''py3''" by (simp add: py3_yaml_def)
  then show ?thesis
    by (simp add: start_service_def LoadRegistry_def no_env_def apply_filters_lookup kept_def Registry_def)
qed

lemma sample_run_valid:
  assumes "reg ''py3'' = Some (resolve_language py3_yaml)"
  shows "validate_request env reg (Inr sample_req) = Inr (sample_req, resolve_language py3_yaml)"
proof -
  have "language_checks env sample_req lc = None" for lc
    by (simp add: language_checks_None sample_req_def stage_flags_def)
  then show ?thesis using assms sample_valid(1) by (simp add: validate_request_def) (simp add: sample_req_def)
qed

lemma sample_run_logged:
  assumes "Registry (registry_ptr s) ''py3'' = Some (resolve_language py3_yaml)"
  shows "access_log (web (snd (handle no_env \<lparr>rps = 0, burst = 0\<rparr> sample_assets sample_host run_request s))) =
    access_log (web s) @ [(''POST'', ''/run'', 200, ''accepted'', ''a1'')]"
proof -
  let ?sv = "serve no_env sample_assets (Registry (registry_ptr s)) (shuttingDown s) sample_host"
  have r: "is_run run_request" by (simp add: is_run_def run_request_def)
  have "authConfig no_env = ([], [])" by code_simp
  then have "newRateLimitMiddleware \<lparr>rps = 0, burst = 0\<rparr> (AuthMiddleware no_env (mux p pg ?sv)) run_request st =
      ?sv RunEndpoint run_request st" for p pg st
    using mux_run [OF r] r
    by (simp add: newRateLimitMiddleware_def AuthMiddleware_def validBearer_def originAllowed_def del: serve.simps)
      (simp add: run_request_def)
  moreover obtain b s' where "?sv RunEndpoint run_request (web s) =
      (Response 200 [json_ct, (''X-Run-Status'', ''accepted'')] b, (web s)\<lparr>srv := s'\<rparr>)"
    using sample_run_valid [of "Registry (registry_ptr s)" no_env] assms
    by (simp add: sample_host_def HandleRun_def sample_run_world_def run_admitted_def sample_build_def
        computeTopLevelStatus_def Let_def)
  ultimately show ?thesis
    by (simp add: handle_def NewRouter_logs log_entry_def r json_ct_def request_id_def)
      (simp add: run_request_def sample_host_def)
qed

theorem metrics_match_log_witness:
  "\<exists>s :: service. run_statuses (access_log (web s)) = [''accepted''] \<and>
     total_runs (snd (snd (HandleMetrics (srv (web s))))) = 1 \<and>
     status_counts (snd (snd (HandleMetrics (srv (web s))))) ''accepted'' = 1"
proof -
  obtain s0 where s0: "start_service no_env (Inr []) (\<lambda>_. Inr [py3_yaml]) = Inr s0"
    "Registry (registry_ptr s0) ''py3'' = Some (resolve_language py3_yaml)" "access_log (web s0) = []"
    using sample_start by blast
  let ?s = "snd (handle no_env \<lparr>rps = 0, burst = 0\<rparr> sample_assets sample_host run_request s0)"
  have "service_init no_env (\<lambda>_. Inr [py3_yaml]) s0" using s0(1) by (auto simp: service_init_def)
  then have r: "reach (service_init no_env (\<lambda>_. Inr [py3_yaml]))
      (service_step no_env \<lparr>rps = 0, burst = 0\<rparr> sample_assets (\<lambda>_. Inr [py3_yaml])) ?s"
    by (rule reach_step [OF reach_init]) (rule service_step.request)
  have l: "run_statuses (access_log (web ?s)) = [''accepted'']"
    using sample_run_logged [OF s0(2)] s0(3) by (simp add: run_statuses_def run_line_def line_status_def)
  show ?thesis
    by (rule exI [of _ ?s]) (use metrics_match_log [OF r] in \<open>simp add: Let_def l\<close>)
qed

end
