(* ===== verification/Bundle.thy ===== *)
theory Bundle
  imports Playground
begin

text \<open>
  The page in the bundle that is committed under \<^verbatim>\<open>internal/api/playground/assets\<close>: the minified
  functions \<open>vt\<close> and \<open>yt\<close> at its end, an older build of \<^verbatim>\<open>playground/src/App.tsx\<close> over the tables
  \<open>bundle_LANGUAGES\<close> and \<open>bundle_PRESETS\<close>. Its state has no test runner. The minified names of the
  state variables are \<open>e\<close> (language), \<open>n\<close> (code), \<open>i\<close> (input), \<open>o\<close> (output), \<open>c\<close> (raw answer), \<open>u\<close>
  (show raw), \<open>f\<close> (loading) and \<open>m\<close> (page). \<open>forget\<close> projects a state of the current page to one of
  the bundle, and every run of the bundle is the projection of a run of the current page.
\<close>

section \<open>State and handlers\<close>

record bundle_app =
  b_lang :: string
  b_code :: string
  b_stdin :: string
  b_output :: string
  b_raw :: js
  b_showRaw :: bool
  b_loading :: bool
  b_page :: page
  b_pending :: "string option"

definition bundle_init :: bundle_app where
  "bundle_init =
     \<lparr>b_lang = ''py3'', b_code = defaultCode (the (map_of bundle_LANGUAGES ''py3'')), b_stdin = [],
      b_output = [], b_raw = JNull, b_showRaw = False, b_loading = False, b_page = Play,
      b_pending = None\<rparr>"

text \<open>The functions \<open>v\<close> and \<open>y\<close>: choose a language, load a preset.\<close>

definition bundle_switch :: "string \<Rightarrow> bundle_app \<Rightarrow> bundle_app" where
  "bundle_switch l b =
     (case map_of bundle_LANGUAGES l of
        None \<Rightarrow> b\<lparr>b_lang := l\<rparr>
      | Some li \<Rightarrow> b\<lparr>b_lang := l, b_code := defaultCode li, b_stdin := [], b_output := []\<rparr>)"

definition bundle_load :: "Preset \<Rightarrow> bundle_app \<Rightarrow> bundle_app" where
  "bundle_load p b =
     b\<lparr>b_code := psource p,
       b_stdin := (case pstdin p of None \<Rightarrow> b_stdin b | Some i \<Rightarrow> i), b_output := []\<rparr>"

text \<open>The function \<open>b\<close> up to the request, its body, and the rest after the answer.\<close>

definition bundle_run_start :: "bundle_app \<Rightarrow> bundle_app" where
  "bundle_run_start b =
     b\<lparr>b_loading := True, b_output := [], b_raw := JNull, b_showRaw := False,
       b_pending := Some (b_lang b)\<rparr>"

definition bundle_body :: "bundle_app \<Rightarrow> js" where
  "bundle_body b =
     JObj [(''language'', JStr (b_lang b)), (''source'', JStr (b_code b)),
           (''tests'', JArr [JObj [(''stdin'', JStr (b_stdin b)), (''expected_stdout'', JStr [])]])]"

text \<open>The report, a text \<open>t\<close> that grows: first the build, then the first test, then the hint.\<close>

definition bundle_build :: "js \<Rightarrow> string \<Rightarrow> string js_result" where
  "bundle_build n t =
     js_bind (js_get n ''build'') (\<lambda>bd.
       if truthy bd then
         js_bind (js_get bd ''status'') (\<lambda>st.
         js_bind (js_get bd ''duration_ms'') (\<lambda>d.
           Inr (t @ ''build: '' @ js_str st @ '' ('' @ js_str d @ ''ms)'' @ newline)))
       else Inr t)"

definition bundle_test :: "js \<Rightarrow> string \<Rightarrow> string js_result" where
  "bundle_test e t =
     js_bind (js_get e ''status'') (\<lambda>st.
     js_bind (js_get e ''stdout'') (\<lambda>so.
     js_bind (js_get e ''stderr'') (\<lambda>se.
     js_bind (js_get e ''memory_peak_kb'') (\<lambda>m.
     js_bind (js_get e ''duration_ms'') (\<lambda>d.
       let t1 = t @ ''test status: '' @ js_str st @ newline;
           t2 = t1 @ ''---stdout---'' @ newline @ js_or so ''(empty)'' @ newline;
           t3 = t2 @ ''---stderr---'' @ newline @ js_or se ''(empty)'' @ newline;
           t4 = (if js_pos m then t3 @ ''memory: '' @ js_str m @ '' KB'' @ newline else t3);
           t5 = t4 @ ''duration: '' @ js_str d @ ''ms'' @ newline
       in Inr (if js_eq st (JStr ''runtime_error'') \<and> \<not> truthy se then
                 t5 @ ''note: crash signal may not appear in stderr (kernel kills silently)'' @ newline @
                 ''try running locally or check exit code'' @ newline
               else t5))))))"

definition bundle_tests :: "js \<Rightarrow> string \<Rightarrow> string js_result" where
  "bundle_tests n t =
     js_bind (js_get n ''tests'') (\<lambda>ts.
       if \<not> truthy ts then Inr t
       else js_bind (js_get ts ''length'') (\<lambda>k.
         if js_pos k then js_bind (js_index ts 0) (\<lambda>e. bundle_test e t) else Inr t))"

definition bundle_hint :: "string \<Rightarrow> js \<Rightarrow> string \<Rightarrow> string js_result" where
  "bundle_hint e n t =
     js_bind (js_get n ''build'') (\<lambda>bd.
       if \<not> truthy bd then Inr t
       else js_bind (js_get bd ''status'') (\<lambda>st.
         Inr (if js_eq st (JStr ''ok'') \<and> (e = ''c'' \<or> e = ''cpp'' \<or> e = ''rust'' \<or> e = ''go'') then
                t @ newline @
                ''(hint: compiled artifacts exist in the container but download is not yet implemented)'' @
                newline
              else t)))"

definition bundle_report :: "string \<Rightarrow> js \<Rightarrow> string js_result" where
  "bundle_report e n =
     js_bind (js_get n ''error'') (\<lambda>err.
       if truthy err then js_bind (js_get err ''message'') (\<lambda>m. Inr (''error: '' @ js_str m))
       else
         js_bind (js_get n ''status'') (\<lambda>st.
         js_bind (bundle_build n (''status: '' @ js_str st @ newline)) (\<lambda>t1.
         js_bind (bundle_tests n t1) (\<lambda>t2. bundle_hint e n t2))))"

definition bundle_run_finish :: "string \<Rightarrow> js js_result \<Rightarrow> bundle_app \<Rightarrow> bundle_app" where
  "bundle_run_finish e r b =
     (case r of
        Inl x \<Rightarrow> b\<lparr>b_output := ''request failed: '' @ x\<rparr>
      | Inr n \<Rightarrow>
          (b\<lparr>b_raw := n,
             b_output := (case bundle_report e n of Inl x \<Rightarrow> ''request failed: '' @ x | Inr t \<Rightarrow> t)\<rparr>))
     \<lparr>b_loading := False, b_pending := None\<rparr>"

section \<open>Rendering\<close>

definition bundle_play :: "string \<Rightarrow> (js \<Rightarrow> string) \<Rightarrow> bundle_app \<Rightarrow> LangInfo \<Rightarrow> dom" where
  "bundle_play API stringify b g =
     El ''div'' []
       [El ''div'' []
          [El ''h1'' [] [Txt ''goboxd''],
           Click ''a'' [(''href'', ''#'')] False (SetPage Bench) [Txt ''benchmarks''],
           El ''a'' [(''href'', API @ ''/info'')] [Txt ''/info''],
           El ''a'' [(''href'', API @ ''/readyz'')] [Txt ''/readyz'']],
        El ''div'' []
          [El ''label'' [] [Txt ''language: ''],
           LangSelect (b_lang b) (map (\<lambda>(k, l). (k, llabel l)) bundle_LANGUAGES),
           El ''label'' [] [Txt ''preset: ''],
           PresetSelect (map fst (flattenPresets bundle_PRESETS (b_lang b)))],
        El ''div'' []
          [El ''div'' [] [Input CodeInput [(''language'', monaco g), (''value'', b_code b)]],
           El ''div'' []
             ((if hasStdin g then
                 [El ''div'' [] [El ''label'' [] [Txt ''stdin:''], Input StdinInput [(''value'', b_stdin b)]]]
               else []) @
              [Click ''button'' (busy_style (b_loading b) ''#4CAF50'') (b_loading b) Run
                 [Txt (if b_loading b then ''running...'' else ''run'')]] @
              (if b_output b \<noteq> [] \<and> truthy (b_raw b) then
                 [Click ''button'' [] False ToggleRaw
                    [Txt (if b_showRaw b then ''hide raw'' else ''view raw'')]]
               else []) @
              [El ''div'' []
                 [Txt (if b_showRaw b \<and> truthy (b_raw b) then stringify (b_raw b)
                       else if b_output b \<noteq> [] then b_output b
                       else ''output will appear here'')]])]]"

definition bundle_view :: "string \<Rightarrow> (js \<Rightarrow> string) \<Rightarrow> bundle_app \<Rightarrow> dom js_result" where
  "bundle_view API stringify b =
     (if b_page b = Bench then Inr (bench_view API)
      else (case map_of bundle_LANGUAGES (b_lang b) of
              Some g \<Rightarrow> Inr (bundle_play API stringify b g)
            | None \<Rightarrow> js_bind (js_get JUndef ''monaco'') (\<lambda>_. Inr (Txt []))))"

text \<open>The event handlers; the actions of the test runner have none.\<close>

fun bundle_act :: "action \<Rightarrow> bundle_app \<Rightarrow> bundle_app" where
  "bundle_act (SetPage p) b = b\<lparr>b_page := p\<rparr>"
| "bundle_act (SwitchLang l) b = bundle_switch l b"
| "bundle_act (PickPreset n) b =
     (case find (\<lambda>x. fst x = n) (flattenPresets bundle_PRESETS (b_lang b)) of
        None \<Rightarrow> b | Some (m, p) \<Rightarrow> bundle_load p b)"
| "bundle_act (SetCode v) b = b\<lparr>b_code := v\<rparr>"
| "bundle_act (SetStdin v) b = b\<lparr>b_stdin := v\<rparr>"
| "bundle_act Run b = bundle_run_start b"
| "bundle_act ToggleRaw b = b\<lparr>b_showRaw := \<not> b_showRaw b\<rparr>"
| "bundle_act _ b = b"

inductive bundle_step :: "string \<Rightarrow> (js \<Rightarrow> string) \<Rightarrow> bundle_app \<Rightarrow> bundle_app \<Rightarrow> bool"
  for API :: string and stringify :: "js \<Rightarrow> string" where
  user: "bundle_step API stringify b (bundle_act a b)"
    if "bundle_view API stringify b = Inr d" and "offered d a"
| answer: "bundle_step API stringify b (bundle_run_finish l r b)" if "b_pending b = Some l"

section \<open>The tables\<close>

text \<open>
  For every language the bundle knows, label, default code, editor mode and input box are those of
  the source. Its preset menu is the source's too, except that the Java menu lacks one entry.
\<close>

lemma bundle_keys:
  "map fst bundle_LANGUAGES = [''py3'', ''c'', ''cpp'', ''java'', ''bash'', ''js'', ''verilog'', ''rust'', ''go'',
     ''haskell'', ''ocaml'', ''r'', ''d'', ''lua'', ''perl'']"
  by (simp add: bundle_LANGUAGES_def)

lemma bundle_langs: "l \<in> set (map fst bundle_LANGUAGES) \<Longrightarrow> map_of bundle_LANGUAGES l = map_of LANGUAGES l"
proof -
  have "\<forall>l \<in> set (map fst bundle_LANGUAGES). map_of bundle_LANGUAGES l = map_of LANGUAGES l"
    unfolding bundle_keys by (simp add: bundle_LANGUAGES_def) (simp add: LANGUAGES_def)
  then show "l \<in> set (map fst bundle_LANGUAGES) \<Longrightarrow> map_of bundle_LANGUAGES l = map_of LANGUAGES l" by blast
qed

lemma missing_languages: "set (map fst LANGUAGES) - set (map fst bundle_LANGUAGES) = {''erl'', ''lisp''}"
  unfolding bundle_keys by (simp add: LANGUAGES_def insert_Diff_if)

lemma bundle_menu:
  "l \<in> set (map fst bundle_LANGUAGES) \<Longrightarrow> l \<noteq> ''java'' \<Longrightarrow>
   flattenPresets bundle_PRESETS l = flattenPresets PRESETS l"
  unfolding bundle_keys
  by (auto simp: flattenPresets_def bundle_PRESETS_def bundle_presets_head_def
      bundle_presets_tail_def PRESETS_def)

text \<open>Where no two labels are equal the menu shows the labels themselves.\<close>

lemma uniq_name_label: "label \<notin> set taken \<Longrightarrow> uniq_name taken label 1 = label"
  by (subst uniq_name.simps) (simp add: name_at_def)

lemma flatten_loop_labels:
  "distinct (map fst result @ map plabel ps) \<Longrightarrow>
   flatten_loop result ps = result @ map (\<lambda>p. (plabel p, p)) ps"
proof (induction result ps rule: flatten_loop.induct)
  case (2 result p ps)
  then have "uniq_name (map fst result) (plabel p) 1 = plabel p" by (intro uniq_name_label) auto
  with 2 show ?case by auto
qed simp

lemma flattenPresets_labels:
  "map_of ps l = Some pl \<Longrightarrow> distinct (map plabel pl) \<Longrightarrow>
   flattenPresets ps l = map (\<lambda>p. (plabel p, p)) pl"
  by (simp add: flattenPresets_def flatten_loop_labels)

lemma java_menu:
  "set (flattenPresets bundle_PRESETS ''java'') \<subseteq> set (flattenPresets PRESETS ''java'') \<and>
   length (flattenPresets bundle_PRESETS ''java'') + 1 = length (flattenPresets PRESETS ''java'')"
proof -
  obtain pl where b: "map_of bundle_PRESETS ''java'' = Some pl" and
    p: "distinct (map plabel pl)" "set pl \<subseteq> set presets_java" "length pl + 1 = length presets_java"
    by (simp add: bundle_PRESETS_def bundle_presets_head_def) (simp add: presets_java_def)
  have "map_of PRESETS ''java'' = Some presets_java" by (simp add: PRESETS_def)
  moreover have "distinct (map plabel presets_java)" by (simp add: presets_java_def)
  ultimately show ?thesis using b p by (auto simp: flattenPresets_labels)
qed

lemma bundle_entries:
  assumes "l \<in> set (map fst bundle_LANGUAGES)" and "(n, p) \<in> set (flattenPresets bundle_PRESETS l)"
  shows "(n, p) \<in> set (flattenPresets PRESETS l)"
  using assms bundle_menu [of l] java_menu by (cases "l = ''java''") auto

section \<open>The report\<close>

lemma bundle_build_line: "bundle_build n t = js_bind (build_line n) (\<lambda>o1. Inr (t @ o1))"
  by (simp add: bundle_build_def build_line_def js_bind_def ln_def split: sum.splits)

lemma bundle_first_test: "bundle_tests n t = js_bind (first_test n) (\<lambda>o2. Inr (t @ o2))"
  by (auto simp: bundle_tests_def first_test_def bundle_test_def stream_lines_def memory_line_def
      duration_line_def crash_note_def js_bind_def ln_def Let_def split: sum.splits)

lemma bundle_hint_line: "bundle_hint e n t = js_bind (hint e n) (\<lambda>o3. Inr (t @ o3))"
  by (auto simp: bundle_hint_def hint_def js_bind_def ln_def split: sum.splits)

text \<open>The bundle reports an answer in the words of the current page.\<close>

lemma bundle_report_eq: "bundle_report e n = run_output e n"
  by (auto simp: bundle_report_def run_output_def bundle_build_line bundle_first_test bundle_hint_line
      js_bind_def ln_def split: sum.splits)

section \<open>The projection\<close>

definition forget :: "app \<Rightarrow> bundle_app" where
  "forget s =
     \<lparr>b_lang = lang s, b_code = code s, b_stdin = stdin s, b_output = outputText s, b_raw = rawJson s,
      b_showRaw = showRaw s, b_loading = loading s, b_page = page_of s, b_pending = pending_run s\<rparr>"

definition projects :: "bundle_app \<Rightarrow> app \<Rightarrow> bool" where
  "projects b s \<longleftrightarrow> forget s = b \<and> page_of s \<noteq> TestsPage \<and> lang s \<in> set (map fst bundle_LANGUAGES)"

lemma forget_body: "bundle_body (forget s) = run_body s"
  by (simp add: bundle_body_def run_body_def forget_def)

lemma forget_finish: "forget (run_finish l r s) = bundle_run_finish l r (forget s)"
  by (simp add: forget_def run_finish_def bundle_run_finish_def bundle_report_eq shown_def split: sum.splits)

lemma offered_bundle:
  "offered (bundle_play API stringify b g) a \<longleftrightarrow>
     (case a of
        SetPage p \<Rightarrow> p = Bench
      | SwitchLang l \<Rightarrow> l \<in> fst ` set bundle_LANGUAGES
      | PickPreset n \<Rightarrow> n \<in> fst ` set (flattenPresets bundle_PRESETS (b_lang b))
      | SetCode v \<Rightarrow> True
      | SetStdin v \<Rightarrow> hasStdin g
      | Run \<Rightarrow> \<not> b_loading b
      | ToggleRaw \<Rightarrow> b_output b \<noteq> [] \<and> truthy (b_raw b)
      | _ \<Rightarrow> False)"
  by (cases a) (auto simp: bundle_play_def offered_parts simp del: offered.simps(5,6))

text \<open>What the bundle offers, the current page offers too, and it does the same.\<close>

lemma offered_by_both:
  assumes "lang s \<in> set (map fst bundle_LANGUAGES)" and "offered (bundle_play API stringify (forget s) LI) a"
  shows "offered (play_view API stringify s LI) a"
proof -
  have "l \<in> fst ` set LANGUAGES" if "l \<in> fst ` set bundle_LANGUAGES" for l
    using bundle_langs [of l] that by (metis image_set map_of_eq_None_iff)
  moreover have "n \<in> fst ` set (flattenPresets PRESETS (lang s))"
    if "n \<in> fst ` set (flattenPresets bundle_PRESETS (lang s))" for n
    using that bundle_entries [OF assms(1)] by force
  ultimately show ?thesis
    using assms(2) by (auto simp: offered_bundle offered_play forget_def split: action.splits)
qed

lemma forget_act:
  assumes l: "lang s \<in> set (map fst bundle_LANGUAGES)"
    and o: "offered (bundle_play API stringify (forget s) LI) a"
  shows "forget (act a s) = bundle_act a (forget s) \<and> page_of (act a s) \<in> {page_of s, Bench} \<and>
    lang (act a s) \<in> set (map fst bundle_LANGUAGES)"
proof (cases a)
  case (SwitchLang k)
  then have k: "k \<in> set (map fst bundle_LANGUAGES)" using o by (simp add: offered_bundle)
  then have "map_of bundle_LANGUAGES k = map_of LANGUAGES k" by (rule bundle_langs)
  with SwitchLang k show ?thesis
    by (auto simp: switchLang_def bundle_switch_def forget_def split: option.splits)
next
  case (PickPreset n)
  then obtain p where p: "(n, p) \<in> set (flattenPresets bundle_PRESETS (lang s))"
    using o by (auto simp: offered_bundle forget_def)
  have "find (\<lambda>x. fst x = n) (flattenPresets PRESETS (lang s)) = Some (n, p)"
    by (rule find_by_name [OF flattenPresets_distinct bundle_entries [OF l p]])
  moreover have "find (\<lambda>x. fst x = n) (flattenPresets bundle_PRESETS (lang s)) = Some (n, p)"
    by (rule find_by_name [OF flattenPresets_distinct p])
  ultimately show ?thesis using PickPreset l
    by (simp add: forget_def loadPreset_def bundle_load_def Let_def split: option.splits)
qed (use o l in \<open>auto simp: offered_bundle forget_def run_start_def bundle_run_start_def\<close>)

lemma projects_user:
  assumes "projects b s" and v: "bundle_view API stringify b = Inr d" and o: "offered d a"
  shows "(\<exists>d'. view API stringify s = Inr d' \<and> offered d' a) \<and> projects (bundle_act a b) (act a s)"
proof -
  have b: "b = forget s" and p: "page_of s \<noteq> TestsPage" and l: "lang s \<in> set (map fst bundle_LANGUAGES)"
    using assms(1) by (auto simp: projects_def)
  show ?thesis
  proof (cases "page_of s = Bench")
    case True
    then have d: "d = bench_view API" using v b by (simp add: bundle_view_def forget_def)
    then have "a = SetPage Play" using offered_bench o by blast
    with True d o b l show ?thesis by (simp add: view_def forget_def projects_def)
  next
    case False
    with p have pl: "page_of s = Play" by (cases "page_of s") auto
    obtain LI where li: "map_of bundle_LANGUAGES (lang s) = Some LI"
      using l by (metis map_of_eq_None_iff not_None_eq set_map)
    have "d = bundle_play API stringify (forget s) LI"
      using v b li False by (simp add: bundle_view_def forget_def)
    then have o': "offered (bundle_play API stringify (forget s) LI) a" using o by simp
    have "view API stringify s = Inr (play_view API stringify s LI)"
      using pl li bundle_langs [OF l] by (simp add: view_def)
    with offered_by_both [OF l o'] forget_act [OF l o'] b pl show ?thesis by (auto simp: projects_def)
  qed
qed

lemma projects_step:
  assumes "bundle_step API stringify b b'" and "projects b s"
  shows "\<exists>s'. ui_step API stringify s s' \<and> projects b' s'"
  using assms(1)
proof (cases rule: bundle_step.cases)
  case (user d a)
  note u = projects_user [OF assms(2) user(2,3)]
  then have "ui_step API stringify s (rendered (act a s))" by (blast intro: ui_step.user)
  moreover have "rendered (act a s) = act a s" using u by (simp add: rendered_def projects_def)
  ultimately show ?thesis using u user(1) by auto
next
  case (answer l r)
  have b: "b = forget s" using assms(2) by (simp add: projects_def)
  let ?t = "run_finish l r s"
  have t: "page_of ?t = page_of s" "lang ?t = lang s" by (simp_all add: run_finish_def split: sum.splits)
  with assms(2) have "rendered ?t = ?t" by (simp add: rendered_def projects_def)
  moreover have "pending_run s = Some l" using answer(2) b by (simp add: forget_def)
  ultimately have "ui_step API stringify s ?t" by (metis ui_step.run_answer)
  moreover have "projects b' ?t" using assms(2) t answer(1) forget_finish [of l r s] by (simp add: projects_def)
  ultimately show ?thesis by blast
qed

text \<open>The current page gets to the bundle's first state by choosing Python.\<close>

lemma bundle_start: "\<exists>s. reach (\<lambda>s. s = app_init) (ui_step API stringify) s \<and> projects bundle_init s"
proof -
  let ?s = "act (SwitchLang ''py3'') app_init"
  have k: "''py3'' \<in> set (map fst bundle_LANGUAGES)" by (simp add: bundle_keys)
  obtain py where py: "map_of LANGUAGES ''py3'' = Some py"
    using bundle_langs [OF k] k by (metis map_of_eq_None_iff not_None_eq set_map)
  obtain li where li: "map_of LANGUAGES (lang app_init) = Some li"
    using app_inv_init by (auto simp: app_inv_def)
  have "page_of app_init = Play" by (simp add: app_init_def)
  with li have "view API stringify app_init = Inr (play_view API stringify app_init li)"
    by (simp add: view_def)
  moreover have "offered (play_view API stringify app_init li) (SwitchLang ''py3'')"
    using map_of_SomeD [OF py] by (force simp: offered_play)
  ultimately have "ui_step API stringify app_init (rendered ?s)" by (rule ui_step.user)
  moreover have s: "?s = app_init\<lparr>lang := ''py3'', code := defaultCode py\<rparr>"
    using py by (simp add: switchLang_def app_init_def)
  then have "rendered ?s = ?s" by (simp add: rendered_def app_init_def)
  ultimately have "ui_step API stringify app_init ?s" by simp
  then have "reach (\<lambda>s. s = app_init) (ui_step API stringify) ?s"
    by (rule reach_step [OF reach_init [of "\<lambda>s. s = app_init", OF refl]])
  moreover have "projects bundle_init ?s"
    unfolding s projects_def using k py bundle_langs [OF k]
    by (simp add: forget_def bundle_init_def app_init_def)
  ultimately show ?thesis by blast
qed

interpretation older: simulation "\<lambda>b. b = bundle_init" "bundle_step API stringify" "\<lambda>s. s = app_init"
  "ui_step API stringify" projects
  using bundle_start projects_step by unfold_locales blast+

section \<open>Properties\<close>

text \<open>The first click on the run button.\<close>

lemma bundle_clicked:
  "reach (\<lambda>b. b = bundle_init) (bundle_step API stringify) (bundle_run_start bundle_init)"
proof -
  have "''py3'' \<in> set (map fst bundle_LANGUAGES)" by (simp add: bundle_keys)
  then obtain g where g: "map_of bundle_LANGUAGES ''py3'' = Some g"
    by (metis map_of_eq_None_iff not_None_eq set_map)
  have "bundle_view API stringify bundle_init = Inr (bundle_play API stringify bundle_init g)"
    using g by (simp add: bundle_view_def bundle_init_def)
  then have "bundle_step API stringify bundle_init (bundle_act Run bundle_init)"
    by (rule bundle_step.user) (simp add: offered_bundle bundle_init_def)
  then show ?thesis by (auto intro: reach_step [OF reach_init])
qed

text \<open>
  C30. The committed bundle is an older page that the current source refines: whatever a user does
  in it and however the network answers, its state is the projection of a state the current page can
  reach, it sends the request of that state, every control it offers is offered there, and its run
  button is live exactly when no request is in flight.
\<close>

theorem bundle_simulated:
  assumes "reach (\<lambda>b. b = bundle_init) (bundle_step API stringify) b"
  shows "\<exists>s. reach (\<lambda>s. s = app_init) (ui_step API stringify) s \<and> forget s = b \<and>
    bundle_body b = run_body s \<and>
    (\<exists>d d'. bundle_view API stringify b = Inr d \<and> view API stringify s = Inr d' \<and>
       (\<forall>a. offered d a \<longrightarrow> offered d' a) \<and>
       (b_page b = Play \<longrightarrow> (offered d Run \<longleftrightarrow> b_pending b = None)))"
proof -
  obtain s where r: "reach (\<lambda>s. s = app_init) (ui_step API stringify) s" and p: "projects b s"
    using older.sim_reach [OF assms] by blast
  have l: "lang s \<in> set (map fst bundle_LANGUAGES)" and b: "b = forget s" and t: "page_of s \<noteq> TestsPage"
    using p by (auto simp: projects_def)
  have inv: "loading s \<longleftrightarrow> pending_run s \<noteq> None" using ui.inv_reach [OF r] by (simp add: app_inv_def)
  obtain LI where li: "map_of bundle_LANGUAGES (lang s) = Some LI"
    using l by (metis map_of_eq_None_iff not_None_eq set_map)
  have "\<exists>d d'. bundle_view API stringify b = Inr d \<and> view API stringify s = Inr d' \<and>
      (\<forall>a. offered d a \<longrightarrow> offered d' a) \<and> (b_page b = Play \<longrightarrow> (offered d Run \<longleftrightarrow> b_pending b = None))"
  proof (cases "page_of s = Bench")
    case True
    then show ?thesis using b by (simp add: bundle_view_def view_def forget_def)
  next
    case False
    with t have pl: "page_of s = Play" by (cases "page_of s") auto
    have "bundle_view API stringify b = Inr (bundle_play API stringify (forget s) LI)"
      using b li pl by (simp add: bundle_view_def forget_def)
    moreover have "view API stringify s = Inr (play_view API stringify s LI)"
      using pl li bundle_langs [OF l] by (simp add: view_def)
    moreover have "offered (bundle_play API stringify (forget s) LI) Run \<longleftrightarrow> b_pending b = None"
      using inv b by (simp add: offered_bundle forget_def)
    moreover have "\<forall>a. offered (bundle_play API stringify (forget s) LI) a \<longrightarrow>
        offered (play_view API stringify s LI) a" using offered_by_both [OF l] by blast
    ultimately show ?thesis by simp
  qed
  with r b forget_body [of s] show ?thesis by (intro exI [of _ s] conjI) simp_all
qed

theorem bundle_simulated_witness:
  "\<exists>s. reach (\<lambda>s. s = app_init) (ui_step [] js_str) s \<and> forget s = bundle_run_start bundle_init \<and>
     bundle_body (bundle_run_start bundle_init) = run_body s"
  using bundle_simulated [OF bundle_clicked] by blast

end
