(* ===== verification/Spec2Isabelle.thy ===== *)
theory Spec2Isabelle
  imports Capacity Semaphore Execute Shutdown Service Bundle
begin

text \<open>
  A verification library for goboxd, an HTTP service that builds and runs untrusted programs in
  \<open>nsjail\<close> sandboxes, and for its browser playground.

  \<^bold>\<open>The program.\<close> A client posts a request (language, source, tests) to \<open>POST /run\<close>. The request
  passes the middlewares (recovery, request id, access log, rate limit, authentication), is
  validated against the language registry, waits at the admission gate, and is executed by the
  runner: a template jail is made (a uid from the pool, a directory, a cgroup, the source file), the
  program is built in it, and the tests run one after the other in the same jail or in parallel,
  each in a jail seeded from the template. Every execution is one \<open>nsjail\<close> process with limits, a
  seccomp policy and a poller that watches its cgroup. The verdicts are combined into one response
  and counted. The playground is a React page that posts such requests and shows the answers.

  \<^bold>\<open>The theories and the code they model.\<close> State is passed explicitly; what the operating system, the
  clock, the YAML parser or the sandboxed program return is an argument of the definitions.

  \<^item> \<open>Prelude\<close>: 64-bit integers with Go's wrap-around and truncating division, the used part of Go's
    \<open>strings\<close>, \<open>strconv\<close> and \<open>path\<close>, reachability and two locales: \<open>invariant_system\<close> (an initial
    predicate, a step relation and an invariant), which every concurrent component interprets, and
    \<open>simulation\<close> (a relation that the steps of one system restore by steps of another).
  \<^item> \<open>Uidpool\<close> (\<^verbatim>\<open>src/internal/uidpool\<close>): the pool, its budget, \<open>Alloc\<close> and \<open>Release\<close>; the locale
    \<open>uid_allocator\<close> is the contract the jails rely on.
  \<^item> \<open>Admission\<close> (\<^verbatim>\<open>src/internal/api/admission.go\<close>): the gate; each critical section is a function, the
    requests interleave in \<open>gate_step\<close>. \<open>Semaphore\<close> states what the gate promises as an abstract
    semaphore with a queue and interprets \<open>simulation\<close> in both directions. \<open>Capacity\<close> runs the gate and
    the pool together.
  \<^item> \<open>Models\<close>, \<open>Config\<close>, \<open>Metrics\<close> (\<^verbatim>\<open>src/internal/models\<close>, \<^verbatim>\<open>src/internal/config\<close>,
    \<^verbatim>\<open>src/internal/api/metrics.go\<close>): messages and status vocabularies, the registry, the counters.
    \<open>Samples\<close> holds concrete inputs.
  \<^item> \<open>Handlers\<close> (\<^verbatim>\<open>src/internal/api/handlers.go\<close>): validation, classification, accounting and the whole
    of \<open>HandleRun\<close>. \<open>Middleware\<close> (\<^verbatim>\<open>auth.go\<close>, \<^verbatim>\<open>ratelimit.go\<close>, \<^verbatim>\<open>logging.go\<close>): the wrappers; the locale
    \<open>run_guard\<close> is the contract of the two that may reject a run, \<open>run_guard_pair\<close> their composition.
    \<open>Server\<close> (\<^verbatim>\<open>router.go\<close>, \<^verbatim>\<open>testcases.go\<close>, \<^verbatim>\<open>playground.go\<close>): routes, testcase files, page files.
    \<open>Probes\<close> (\<^verbatim>\<open>probes.go\<close>), \<open>Buildinfo\<close> (\<^verbatim>\<open>src/internal/buildinfo\<close>) and \<open>Endpoints\<close>: readiness, version
    comparison and the reporting endpoints. \<open>Service\<close> is the process of \<^verbatim>\<open>src/cmd/goboxd/main.go\<close>: the
    real handlers behind the router, the start, the reload on SIGHUP and the shutdown flag.
  \<^item> \<open>Seccomp\<close> (\<^verbatim>\<open>src/internal/seccomp\<close>): the shipped policy as text, its parser and printer, the
    one-time file; the locale \<open>once_cell\<close> is the contract of values computed once. \<open>Cgroup\<close>
    (\<^verbatim>\<open>src/internal/cgroupv2\<close>): probing, jail cgroups, counters, removal.
  \<^item> \<open>Jail\<close> and \<open>Copytree\<close> (\<^verbatim>\<open>src/internal/runner/jail.go\<close> and the sweeps of \<^verbatim>\<open>runner.go\<close>): jails over a world
    of directory trees, uids and cgroups. \<open>Nsjail\<close> (\<^verbatim>\<open>hosts.go\<close>, \<open>nsjailArgs\<close> and \<open>jailEnv\<close>): the
    command line. \<open>Runner\<close> (\<^verbatim>\<open>exec.go\<close>, \<open>runBuild\<close>, \<open>runSingleTest\<close>): one execution. \<open>Execute\<close>
    (\<open>ExecuteRun\<close>): a whole run; the goroutines of parallel tests interleave in \<open>par_step\<close>.
  \<^item> \<open>Shutdown\<close> (the end of \<^verbatim>\<open>main.go\<close>): the drain and the sweep after it.
  \<^item> \<open>Presets\<close> and \<open>Playground\<close> (\<^verbatim>\<open>src/playground/src/App.tsx\<close> and the tables of the committed bundle under
    \<^verbatim>\<open>src/internal/api/playground/assets\<close>): the page's data, state, handlers and rendered elements;
    clicks and network answers interleave in \<open>ui_step\<close>. \<open>Bundle\<close>: the page as the committed bundle has
    it, an older build that the current page simulates. \<open>Wire\<close>: the JSON between page and server.

  \<^bold>\<open>What is shown.\<close> Resources: the counters of the gate are exact and bounded, no wake-up is lost, no
  channel is closed twice, and what requests see of the gate is exactly a bounded semaphore; an admitted request always finds a uid; a jail is made completely or not
  at all; however a run ends it gives back every uid, directory and cgroup; parallel tests never
  share one, stay within the machine's parallelism, and always come to an end. Confinement: source
  and testcase paths stay below their directories, a command line has exactly one seccomp policy
  which a language can only extend, a closed environment and masked host files; copies create no
  device. Verdicts and answers: which requests are accepted, when a test is accepted, that statuses,
  headers, bodies and counters agree, that the metrics can be recomputed from the access log, that outputs are bounded, that the rate limiter keeps its
  bound. The page: its flags and its requests agree, the run button is live exactly between
  requests, presets and test lists are complete, and it shows every answer of the server. Some
  theorems state what the code does where that is not what its documentation says: the test runner
  of the page, the advertised limits of compiled languages, a rate below one request per second.

  \<^bold>\<open>Bounds.\<close> Three loops have no structural bound in the code. The probe process spins until the
  clock reaches its deadline; it has fuel, and any fuel beyond the first late reading suffices. The drain polls every 100 ms for five
  seconds: 52 rounds (\<open>drain_fuel\<close>) suffice for a clock that advances by the poll interval. The
  parallel tests of \<open>n\<close> test cases take at most \<open>5 n + 1\<close> steps, and from every reachable state the end
  can be reached; \<open>ExecuteRun\<close> is a relation that is shown to have a result. All other loops are
  recursions with a termination proof.

  \<^bold>\<open>Not modelled.\<close> Floating point: token counts are rationals and a rate is a finite number.
  Partial writes of a response, the bytes of the JSON encoder and its replacement of invalid UTF-8,
  HTTP itself (\<open>net/http\<close>, path cleaning by the router, time-outs), \<open>pprof\<close>, logging other than the
  access log. The kernel and \<open>nsjail\<close>: what a sandboxed program does is an argument. Listening and
  the wiring of signals. Requests change the state of \<open>Service\<close> one after the other; where they
  overlap is the subject of \<open>Admission\<close> and \<open>Execute\<close>. The OpenAPI document and the dashboard page
  are served as they are. On the page: constant styling, the editor component, React's batching of
  state updates, keys inherited from \<open>Object.prototype\<close>; after a rendering error React unmounts the
  page, where the model still lets answers arrive; in the bundle, the libraries (React and the
  Monaco loader). \<^verbatim>\<open>src/playground/src/main.tsx\<close>, \<^verbatim>\<open>vite.config.ts\<close> and \<^verbatim>\<open>index.ts\<close> mount the page
  and configure its build.
\<close>

section \<open>Where the source file goes\<close>

lemma resolveSourceName_plain:
  assumes "isValidFilename (SourceFilename req)" and "plain_name (lcSourceFilename lc)"
  shows "plain_name (resolveSourceName req lc)"
  using assms isValidFilename_plain by (auto simp: resolveSourceName_def)

lemma accepted_filename:
  "validate_request env reg (Inr req) = Inr (req', lc) \<Longrightarrow> req' = req \<and> isValidFilename (SourceFilename req)"
  by (auto simp: validate_request_def basic_checks_None split: option.splits)

text \<open>
  C12. The source of an accepted request is written inside the jail's app directory and nowhere else:
  the file name the runner resolves is one plain path component, so the components of the file's
  path are those of the app directory followed by it.
\<close>

theorem source_file_confined:
  assumes "validate_request env reg (Inr req) = Inr (req', lc)"
    and "plain_name (lcSourceFilename lc)" and "appDir j \<noteq> []"
  shows "plain_name (resolveSourceName req' lc) \<and>
    path_comps (appDir j @ ''/'' @ resolveSourceName req' lc) =
      path_comps (appDir j) @ [resolveSourceName req' lc]"
proof -
  have "plain_name (resolveSourceName req' lc)"
    using accepted_filename [OF assms(1)] assms(2) by (simp add: resolveSourceName_plain)
  with path_comps_join [OF assms(3) this] show ?thesis by simp
qed

lemma sample_accepted:
  "validate_request (\<lambda>_. []) sample_registry (Inr sample_req) = Inr (sample_req, sample_lang)"
  by (simp add: validate_request_def sample_valid sample_registry_def) (simp add: sample_req_def)

theorem source_file_confined_witness:
  "plain_name (resolveSourceName sample_req sample_lang) \<and>
   path_comps (appDir sample_j @ ''/'' @ resolveSourceName sample_req sample_lang) =
     path_comps (appDir sample_j) @ [resolveSourceName sample_req sample_lang]"
proof (rule source_file_confined [OF sample_accepted])
  show "plain_name (lcSourceFilename sample_lang)" by (simp add: sample_lang_def plain_name_def)
  show "appDir sample_j \<noteq> []" by (simp add: appDir_def path_join_def path_clean_def sample_j_def sample_dir_def Let_def)
qed

text \<open>
  The name a client gives does not reach the command: placeholders are replaced when the registry is
  loaded, so Python's command keeps naming \<open>solution.py\<close> while the file is written as \<open>my.py\<close>.
\<close>

lemma source_override_not_in_command:
  "RunCmd (resolve_language py3_yaml) = [''/usr/bin/python3'', ''solution.py'']"
  "resolveSourceName (sample_req\<lparr>SourceFilename := ''my.py''\<rparr>) (resolve_language py3_yaml) = ''my.py''"
  by code_simp (simp add: resolveSourceName_def resolve_language_def py3_yaml_def Let_def)

section \<open>From the request to the response\<close>

lemma verdict_valid: "s \<noteq> ResultUnset \<Longrightarrow> ResultStatus_Valid s"
  by (cases s) simp_all

lemma not_executed_shape:
  "length ts = n \<Longrightarrow> length (not_executed n ts) = n \<and>
     (\<forall>t \<in> set (not_executed n ts). tStatus t = ResultNotExecuted)"
  by (auto simp: not_executed_def)

text \<open>
  C9. A valid, admitted request whose build succeeds and whose client stays connected is answered
  with 200 and one result per test, each with a status of the vocabulary, and after the answer the
  uids, jail directories and cgroups are those of before.
\<close>

theorem run_end_to_end:
  assumes "validate_request env reg (Inr req) = Inr (req, lc)" and "acq w = None" and "\<not> ctx_dead_run w"
    and "ExecuteRun env numCPU m os req lc (jw, st) (b, rs, None) (jw', st')"
    and "execute_run w req lc = (b, rs, None)" and "bStatus b = BuildOk" and "\<forall>i. \<not> ro_ctx os i"
    and "pool_wf (wPool jw)" and "fresh_names m (ro_jail os) jw"
    and "removals_work (ro_jail os)" and "\<forall>i. removals_work (ro_wjail os i)"
  shows "\<exists>hs r s'. HandleRun env reg (Inr req) w s = (Response 200 hs (RunBody r), s') \<and>
    length (respTests r) = length (Tests req) \<and> (\<forall>t \<in> set (respTests r). ResultStatus_Valid (tStatus t)) \<and>
    same_resources jw jw'"
proof -
  have v: "length rs = length (Tests req)" "\<forall>r \<in> set rs. tStatus r \<noteq> ResultUnset"
    using ExecuteRun_verdicts [OF assms(4,6,7,8,9,10,11)] by auto
  have res: "same_resources jw jw'"
    by (rule ExecuteRun_releases [OF assms(4,8,9,10)]) (use assms(11) in blast)
  let ?top = "computeTopLevelStatus b rs"
  let ?ts = "if ?top = ResultBuildFailed \<or> ?top = ResultInternalError
    then not_executed (length (Tests req)) rs else rs"
  have ts: "length ?ts = length (Tests req) \<and> (\<forall>t \<in> set ?ts. ResultStatus_Valid (tStatus t))"
    using v not_executed_shape [OF v(1)] verdict_valid by auto
  have "\<exists>hs s'. HandleRun env reg (Inr req) w s =
      (Response 200 hs (RunBody \<lparr>respStatus = rs_string ?top, respBuild = b, respTests = ?ts\<rparr>), s')"
    using assms(1-3,5) by (simp add: HandleRun_def run_admitted_def Let_def)
  then obtain hs s' where h: "HandleRun env reg (Inr req) w s =
      (Response 200 hs (RunBody \<lparr>respStatus = rs_string ?top, respBuild = b, respTests = ?ts\<rparr>), s')" by blast
  show ?thesis
    by (intro exI conjI, rule h) (use ts res in simp_all)
qed

theorem run_end_to_end_witness:
  "\<exists>rs jw' st' hs r s'.
     ExecuteRun (\<lambda>_. []) 4 sample_manager sample_os sample_req sample_lang (sample_world, onces_init)
       (ok_build, rs, None) (jw', st') \<and>
     HandleRun (\<lambda>_. []) sample_registry (Inr sample_req)
       (sample_run_world\<lparr>execute_run := \<lambda>_ _. (ok_build, rs, None)\<rparr>) sample_server =
       (Response 200 hs (RunBody r), s') \<and>
     length (respTests r) = length (Tests sample_req) \<and>
     (\<forall>t \<in> set (respTests r). ResultStatus_Valid (tStatus t)) \<and> same_resources sample_world jw'"
proof -
  obtain rs jw' st' where x: "ExecuteRun (\<lambda>_. []) 4 sample_manager sample_os sample_req sample_lang
      (sample_world, onces_init) (ok_build, rs, None) (jw', st')" using sample_complete by blast
  let ?w = "sample_run_world\<lparr>execute_run := \<lambda>_ _. (ok_build, rs, None)\<rparr>"
  have "\<exists>hs r s'. HandleRun (\<lambda>_. []) sample_registry (Inr sample_req) ?w sample_server =
      (Response 200 hs (RunBody r), s') \<and>
      length (respTests r) = length (Tests sample_req) \<and>
      (\<forall>t \<in> set (respTests r). ResultStatus_Valid (tStatus t)) \<and> same_resources sample_world jw'"
    by (rule run_end_to_end [OF sample_accepted _ _ x])
       (simp_all add: sample_run_world_def ok_build_def sample_wf sample_fresh sample_removals)
  with x show ?thesis by blast
qed

end
